theory Spec2Isabelle
  imports Main "HOL-Library.Word" "HOL-Library.Monad_Syntax"
begin

unbundle bit_operations_syntax

section \<open>Text and time\<close>

text \<open>
  A Python \<open>str\<close> is modelled as a list of code points, restricted to the range
  U+0000..U+00FF that the 8-bit \<^typ>\<open>char\<close> can hold (this covers the accented
  letters of the French source text). An instant is a number of microseconds since the
  Unix epoch, which is the resolution of Python's \<open>datetime\<close>.
\<close>

type_synonym instant = int

definition lower_char :: "char \<Rightarrow> char" where
  "lower_char c =
     (let n = (of_char c :: nat) in
      if (65 \<le> n \<and> n \<le> 90) \<or> (192 \<le> n \<and> n \<le> 222 \<and> n \<noteq> 215)
      then char_of (n + 32) else c)"

definition lower :: "string \<Rightarrow> string" where
  "lower s = map lower_char s"

fun startswith :: "string \<Rightarrow> string \<Rightarrow> bool" where
  "startswith s [] = True"
| "startswith [] (p # ps) = False"
| "startswith (c # cs) (p # ps) = (c = p \<and> startswith cs ps)"

text \<open>\<open>contains s needle\<close> is Python's \<open>needle in s\<close>.\<close>

fun contains :: "string \<Rightarrow> string \<Rightarrow> bool" where
  "contains [] needle = (needle = [])"
| "contains (c # cs) needle = (startswith (c # cs) needle \<or> contains cs needle)"


section \<open>Dictionaries of the sources\<close>

text \<open>
  An outage, raw from the page or as an item of the JSON feed, is a dictionary whose
  values are strings; \<open>d k = None\<close> says that key \<open>k\<close> is absent. The decoder
  \<open>datetime.fromisoformat\<close> belongs to the Python library and is a parameter of the
  model: \<open>fromisoformat s = None\<close> stands for its \<open>ValueError\<close>.
\<close>

type_synonym outage_data = "string \<rightharpoonup> string"
type_synonym isoparser = "string \<Rightarrow> instant option"

definition get_or :: "('k \<rightharpoonup> 'v) \<Rightarrow> 'k \<Rightarrow> 'v \<Rightarrow> 'v" where
  "get_or d k dflt = (case d k of None \<Rightarrow> dflt | Some v \<Rightarrow> v)"

text \<open>\<open>s.replace("Z", "+00:00")\<close>\<close>

definition replace_Z :: "string \<Rightarrow> string" where
  "replace_Z s = concat (map (\<lambda>c. if c = CHR ''Z'' then ''+00:00'' else [c]) s)"

section \<open>Dates and times (Python's \<open>datetime\<close>)\<close>

text \<open>
  The calendar arithmetic follows the reference implementation of Python's
  \<open>datetime\<close> module (\<open>_is_leap\<close>, \<open>_days_before_year\<close>, \<open>_days_in_month\<close>,
  \<open>_days_before_month\<close>, \<open>_ymd2ord\<close>). A wall-clock reading is a number of
  microseconds counted from 1970-01-01T00:00:00 on the same clock; the instant of a
  reading in a time zone is the reading minus the offset of the zone at that reading.
\<close>

definition is_leap :: "int \<Rightarrow> bool" where
  "is_leap y = (y mod 4 = 0 \<and> (y mod 100 \<noteq> 0 \<or> y mod 400 = 0))"

definition days_before_year :: "int \<Rightarrow> int" where
  "days_before_year y = (y - 1) * 365 + (y - 1) div 4 - (y - 1) div 100 + (y - 1) div 400"

definition days_in_month :: "int \<Rightarrow> int \<Rightarrow> int" where
  "days_in_month y m =
     (if m = 2 then (if is_leap y then 29 else 28)
      else if m = 4 \<or> m = 6 \<or> m = 9 \<or> m = 11 then 30 else 31)"

definition days_before_month :: "int \<Rightarrow> int \<Rightarrow> int" where
  "days_before_month y m =
     [0, 31, 59, 90, 120, 151, 181, 212, 243, 273, 304, 334] ! nat (m - 1)
       + (if m > 2 \<and> is_leap y then 1 else 0)"

definition ymd2ord :: "int \<Rightarrow> int \<Rightarrow> int \<Rightarrow> int" where
  "ymd2ord y m d = days_before_year y + days_before_month y m + d"

definition usec_per_day :: int where
  "usec_per_day = 86400 * 1000000"

text \<open>
  The wall-clock reading of \<open>datetime(year, month, day, hour, minute, second)\<close>, or
  \<open>None\<close> where the constructor raises \<open>ValueError\<close>. The ordinal of 1970-01-01 is
  719163.
\<close>

definition datetime :: "int \<Rightarrow> int \<Rightarrow> int \<Rightarrow> int \<Rightarrow> int \<Rightarrow> int \<Rightarrow> int option" where
  "datetime year month day hour minute second' =
     (if 1 \<le> year \<and> year \<le> 9999 \<and> 1 \<le> month \<and> month \<le> 12 \<and>
         1 \<le> day \<and> day \<le> days_in_month year month \<and>
         0 \<le> hour \<and> hour \<le> 23 \<and> 0 \<le> minute \<and> minute \<le> 59 \<and>
         0 \<le> second' \<and> second' \<le> 59
      then Some (((ymd2ord year month day - 719163) * 86400
                   + hour * 3600 + minute * 60 + second') * 1000000)
      else None)"

text \<open>\<open>datetime.min\<close> and \<open>datetime.max\<close> as wall-clock readings.\<close>

definition datetime_min :: int where
  "datetime_min = (ymd2ord 1 1 1 - 719163) * usec_per_day"

definition datetime_max :: int where
  "datetime_max = (ymd2ord 9999 12 31 - 719163) * usec_per_day + usec_per_day - 1"

datatype error = OverflowError | ValueError | HTTPError | KeyError

text \<open>
  \<open>t + timedelta(days=1)\<close> raises \<open>OverflowError\<close> when the result leaves the range
  of \<open>datetime\<close>.
\<close>

definition add_one_day :: "int \<Rightarrow> error + int" where
  "add_one_day t = (if t + usec_per_day > datetime_max then Inl OverflowError
                    else Inr (t + usec_per_day))"

section \<open>Time zones (Python's \<open>zoneinfo\<close>)\<close>

text \<open>
  A zone is its offset from UTC before its first transition and the list of its
  transitions in order of time, each with the second of UTC at which it occurs and the
  offset in force from then on; offsets are in seconds. The library reads the table of
  \<open>Indian/Mauritius\<close> from the time zone database of the system: local mean time
  UTC+3:50 until 1907, then UTC+4, with UTC+5 in force from 10 October 1982 to 21 March
  1983 and from 26 October 2008 to 29 March 2009. Neither zone has a rule for the time
  after its last transition, so the last offset stays in force.
\<close>

type_synonym zone = "int \<times> (int \<times> int) list"

definition MAURITIUS_TZ :: zone where
  "MAURITIUS_TZ =
     (13800, [(- 1988164200, 14400), (403041600, 18000), (417034800, 14400),
              (1224972000, 18000), (1238274000, 14400)])"

definition UTC_TZ :: zone where
  "UTC_TZ = (0, [])"

text \<open>
  \<open>_ts_to_local\<close> for \<open>fold=0\<close>: on the clock of the zone a transition shows at its
  second of UTC plus the greater of the offsets before and after it.
\<close>

fun trans_local :: "int \<Rightarrow> (int \<times> int) list \<Rightarrow> (int \<times> int) list" where
  "trans_local before [] = []"
| "trans_local before ((sec, off) # rest) = (sec + max before off, off) # trans_local off rest"

text \<open>
  \<open>_find_trans\<close> and the search of \<open>fromutc\<close>: the offset of the last transition at
  or before the time stamp \<open>ts\<close>, the one before the first transition when there is none.
\<close>

fun find_trans :: "int \<Rightarrow> (int \<times> int) list \<Rightarrow> int \<Rightarrow> int" where
  "find_trans before [] ts = before"
| "find_trans before ((sec, off) # rest) ts =
     (if ts < sec then before else find_trans off rest ts)"

text \<open>
  \<open>tz.utcoffset(dt)\<close> for the reading \<open>t\<close> of the clock of the zone, with \<open>fold=0\<close>
  as the constructor and the arithmetic of \<open>datetime\<close> leave it; the result is in
  microseconds. The time stamp of a reading drops its microseconds.
\<close>

definition utcoffset :: "zone \<Rightarrow> int \<Rightarrow> int" where
  "utcoffset tz t =
     find_trans (fst tz) (trans_local (fst tz) (snd tz)) (t div 1000000) * 1000000"

text \<open>The reading of the clock of the zone at the instant \<open>u\<close>.\<close>

definition wall_clock :: "zone \<Rightarrow> instant \<Rightarrow> int" where
  "wall_clock tz u = u + find_trans (fst tz) (snd tz) (u div 1000000) * 1000000"

text \<open>\<open>tz.fromutc(dt)\<close>: adding the offset raises \<open>OverflowError\<close> when the reading
  leaves the range of \<open>datetime\<close>.\<close>

definition fromutc :: "zone \<Rightarrow> instant \<Rightarrow> error + int" where
  "fromutc tz u =
     (if wall_clock tz u < datetime_min \<or> datetime_max < wall_clock tz u
      then Inl OverflowError else Inr (wall_clock tz u))"

text \<open>
  \<open>t.astimezone(tz)\<close> for a reading \<open>t\<close> of the clock of the zone \<open>mytz\<close>:
  \<open>utc = (self - offset).replace(tzinfo=tz)\<close>, where the subtraction raises
  \<open>OverflowError\<close> out of range, and then \<open>tz.fromutc(utc)\<close>.
\<close>

definition astimezone :: "zone \<Rightarrow> zone \<Rightarrow> int \<Rightarrow> error + int" where
  "astimezone mytz tz t =
     (let utc = t - utcoffset mytz t
      in if utc < datetime_min \<or> datetime_max < utc then Inl OverflowError
         else fromutc tz utc)"

text \<open>
  \<open>d.astimezone(MAURITIUS_TZ)\<close> for a value \<open>d\<close> that \<open>datetime.fromisoformat\<close>
  returned, given by its instant \<open>u\<close> (its own reading minus its own offset).
\<close>

definition astimezone_mauritius :: "instant \<Rightarrow> error + int" where
  "astimezone_mauritius u =
     (if u < datetime_min \<or> datetime_max < u then Inl OverflowError
      else fromutc MAURITIUS_TZ u)"

text \<open>
  \<open>datetime.now(tz)\<close> when the system clock reads the instant \<open>now\<close>: the reading of
  UTC passed through \<open>tz.fromutc\<close>.
\<close>

definition datetime_now :: "zone \<Rightarrow> instant \<Rightarrow> error + int" where
  "datetime_now tz now = fromutc tz now"

section \<open>French dates (bot/ceb\_parser.py, \<open>parse_french_date\<close>)\<close>

text \<open>
  The character classes \<open>\s\<close>, \<open>\d\<close> and \<open>\w\<close> of Python's \<open>re\<close> for \<open>str\<close>
  patterns, on the code points U+0000..U+00FF; \<open>str.strip\<close> removes the same
  characters as \<open>\s\<close> matches.
\<close>

definition is_space :: "char \<Rightarrow> bool" where
  "is_space c =
     (let n = (of_char c :: nat) in
      (9 \<le> n \<and> n \<le> 13) \<or> (28 \<le> n \<and> n \<le> 32) \<or> n = 133 \<or> n = 160)"

definition is_digit :: "char \<Rightarrow> bool" where
  "is_digit c = (let n = (of_char c :: nat) in 48 \<le> n \<and> n \<le> 57)"

definition is_word :: "char \<Rightarrow> bool" where
  "is_word c =
     (let n = (of_char c :: nat) in
      (48 \<le> n \<and> n \<le> 57) \<or> (65 \<le> n \<and> n \<le> 90) \<or> n = 95 \<or> (97 \<le> n \<and> n \<le> 122) \<or>
      n = 170 \<or> n = 178 \<or> n = 179 \<or> n = 181 \<or> n = 185 \<or> n = 186 \<or>
      (188 \<le> n \<and> n \<le> 190) \<or> (192 \<le> n \<and> n \<le> 214) \<or> (216 \<le> n \<and> n \<le> 246) \<or>
      248 \<le> n)"

definition strip :: "string \<Rightarrow> string" where
  "strip s = rev (dropWhile is_space (rev (dropWhile is_space s)))"

text \<open>\<open>re.sub(r'\s+', ' ', s)\<close>: every maximal run of white space becomes one blank.\<close>

fun collapse_spaces :: "string \<Rightarrow> string" where
  "collapse_spaces [] = []"
| "collapse_spaces [c] = (if is_space c then '' '' else [c])"
| "collapse_spaces (c # d # cs) =
     (if is_space c \<and> is_space d then collapse_spaces (d # cs)
      else (if is_space c then CHR '' '' else c) # collapse_spaces (d # cs))"

text \<open>
  The pieces of \<open>DATE_PATTERN\<close>. A literal is compared under \<open>re.IGNORECASE\<close>. The
  classes that follow one another in the pattern are disjoint (\<open>\s\<close> against \<open>\w\<close>,
  \<open>\d\<close> and letters), so a greedy \<open>+\<close> can only match a whole run and no
  backtracking changes the outcome; \<open>\d{1,2}\<close> in front of \<open>\s+\<close> matches a run of
  one or two digits.
\<close>

definition re_lit :: "string \<Rightarrow> string \<Rightarrow> string option" where
  "re_lit p s = (if length p \<le> length s \<and> lower (take (length p) s) = lower p
                 then Some (drop (length p) s) else None)"

definition re_plus :: "(char \<Rightarrow> bool) \<Rightarrow> string \<Rightarrow> (string \<times> string) option" where
  "re_plus P s = (if takeWhile P s = [] then None else Some (takeWhile P s, dropWhile P s))"

definition re_digits :: "nat \<Rightarrow> string \<Rightarrow> (string \<times> string) option" where
  "re_digits n s = (if n \<le> length s \<and> list_all is_digit (take n s)
                    then Some (take n s, drop n s) else None)"

definition re_day :: "string \<Rightarrow> (string \<times> string) option" where
  "re_day s = (case re_digits 2 s of Some r \<Rightarrow> Some r | None \<Rightarrow> re_digits 1 s)"

text \<open>\<open>\d{2}:\d{2}:\d{2}\<close>\<close>

definition re_time :: "string \<Rightarrow> (string \<times> string) option" where
  "re_time s =
     do { (h, s1) \<leftarrow> re_digits 2 s;
          s2 \<leftarrow> re_lit '':'' s1;
          (m, s3) \<leftarrow> re_digits 2 s2;
          s4 \<leftarrow> re_lit '':'' s3;
          (sec, s5) \<leftarrow> re_digits 2 s4;
          Some (h @ '':'' @ m @ '':'' @ sec, s5) }"

text \<open>The class of the letter a with or without grave accent (U+00E0), under
  \<open>re.IGNORECASE\<close>.\<close>

definition re_a_grave :: "string \<Rightarrow> string option" where
  "re_a_grave s =
     (case s of [] \<Rightarrow> None
      | c # cs \<Rightarrow> if lower_char c = CHR ''a'' \<or> lower_char c = char_of (224 :: nat)
                  then Some cs else None)"

text \<open>\<open>DATE_PATTERN.match(s).groups()\<close>, or \<open>None\<close> when the pattern does not match
  at the start of \<open>s\<close>.\<close>

definition match_date_pattern :: "string \<Rightarrow> (string \<times> string \<times> string \<times> string \<times> string) option" where
  "match_date_pattern s =
     do { s1 \<leftarrow> re_lit ''Le'' s;
          (sp1, s2) \<leftarrow> re_plus is_space s1;
          (weekday, s3) \<leftarrow> re_plus is_word s2;
          (sp2, s4) \<leftarrow> re_plus is_space s3;
          (day_str, s5) \<leftarrow> re_day s4;
          (sp3, s6) \<leftarrow> re_plus is_space s5;
          (month_str, s7) \<leftarrow> re_plus is_word s6;
          (sp4, s8) \<leftarrow> re_plus is_space s7;
          (year_str, s9) \<leftarrow> re_digits 4 s8;
          (sp5, s10) \<leftarrow> re_plus is_space s9;
          s11 \<leftarrow> re_lit ''de'' s10;
          (sp6, s12) \<leftarrow> re_plus is_space s11;
          (from_time_str, s13) \<leftarrow> re_time s12;
          (sp7, s14) \<leftarrow> re_plus is_space s13;
          s15 \<leftarrow> re_a_grave s14;
          (sp8, s16) \<leftarrow> re_plus is_space s15;
          (to_time_str, s17) \<leftarrow> re_time s16;
          Some (day_str, month_str, year_str, from_time_str, to_time_str) }"

text \<open>\<open>FRENCH_MONTHS\<close>; U+00E9 is e with acute accent, U+00FB is u with circumflex.\<close>

definition FRENCH_MONTHS :: "(string \<times> int) list" where
  "FRENCH_MONTHS =
     [(''janvier'', 1),
      (''f'' @ [char_of (233 :: nat)] @ ''vrier'', 2),
      (''fevrier'', 2),
      (''mars'', 3),
      (''avril'', 4),
      (''mai'', 5),
      (''juin'', 6),
      (''juillet'', 7),
      (''ao'' @ [char_of (251 :: nat)] @ ''t'', 8),
      (''aout'', 8),
      (''septembre'', 9),
      (''octobre'', 10),
      (''novembre'', 11),
      (''d'' @ [char_of (233 :: nat)] @ ''cembre'', 12),
      (''decembre'', 12)]"

text \<open>\<open>int(s)\<close> on a string of decimal digits.\<close>

definition int_of_digits :: "string \<Rightarrow> int" where
  "int_of_digits s = foldl (\<lambda>a c. 10 * a + (int (of_char c) - 48)) 0 s"

text \<open>The three fields of \<open>HH:MM:SS\<close>, that is \<open>int(parts[i])\<close> after \<open>split(':')\<close>.\<close>

definition time_parts :: "string \<Rightarrow> int \<times> int \<times> int" where
  "time_parts s =
     (int_of_digits (take 2 s), int_of_digits (take 2 (drop 3 s)),
      int_of_digits (take 2 (drop 6 s)))"

text \<open>
  The first half of \<open>parse_french_date\<close>, up to the integers read from the groups:
  year, month, day, and hour, minute and second of the start and of the end. \<open>None\<close>
  is the early \<open>return None, None\<close> (empty or blank input, no match, unknown month).
\<close>

definition parse_fields :: "string \<Rightarrow> (int \<times> int \<times> int \<times> (int \<times> int \<times> int) \<times> (int \<times> int \<times> int)) option" where
  "parse_fields date_str =
     (if date_str = [] \<or> strip date_str = [] then None
      else
        (case match_date_pattern (strip (collapse_spaces date_str)) of
           None \<Rightarrow> None
         | Some (day_str, month_str, year_str, from_time_str, to_time_str) \<Rightarrow>
             (case map_of FRENCH_MONTHS (lower month_str) of
                None \<Rightarrow> None
              | Some month \<Rightarrow>
                  Some (int_of_digits year_str, month, int_of_digits day_str,
                        time_parts from_time_str, time_parts to_time_str))))"

text \<open>
  \<open>parse_french_date\<close>. \<open>Inr None\<close> is the result \<open>(None, None)\<close>, \<open>Inr (Some (f, t))\<close>
  the pair of instants, and \<open>Inl OverflowError\<close> the exception that the source's
  \<open>except (ValueError, IndexError)\<close> does not catch.
\<close>

definition parse_french_date :: "string \<Rightarrow> error + (instant \<times> instant) option" where
  "parse_french_date date_str =
     (case parse_fields date_str of
        None \<Rightarrow> Inr None
      | Some (year, month, day, (from_hour, from_min, from_sec), (to_hour, to_min, to_sec)) \<Rightarrow>
          (case datetime year month day from_hour from_min from_sec of
             None \<Rightarrow> Inr None
           | Some from_time \<Rightarrow>
               (case datetime year month day to_hour to_min to_sec of
                  None \<Rightarrow> Inr None
                | Some to_time \<Rightarrow>
                    (case (if to_time < from_time then add_one_day to_time
                           else Inr to_time) of
                       Inl e \<Rightarrow> Inl e
                     | Inr to_time' \<Rightarrow>
                         (case astimezone MAURITIUS_TZ UTC_TZ from_time of
                            Inl e \<Rightarrow> Inl e
                          | Inr from_time_utc \<Rightarrow>
                              (case astimezone MAURITIUS_TZ UTC_TZ to_time' of
                                 Inl e \<Rightarrow> Inl e
                               | Inr to_time_utc \<Rightarrow>
                                   Inr (Some (from_time_utc, to_time_utc))))))))"

section \<open>ISO 8601 text of instants\<close>

text \<open>\<open>_ord2ymd\<close> of the reference implementation: the date of a day ordinal.\<close>

definition ord2ymd :: "int \<Rightarrow> int \<times> int \<times> int" where
  "ord2ymd ordinal =
     (let n = ordinal - 1;
          n400 = n div 146097; n = n mod 146097;
          n100 = n div 36524; n = n mod 36524;
          n4 = n div 1461; n = n mod 1461;
          n1 = n div 365; n = n mod 365;
          year = n400 * 400 + 1 + n100 * 100 + n4 * 4 + n1
      in if n1 = 4 \<or> n100 = 4 then (year - 1, 12, 31)
         else
           (let leapyear = (n1 = 3 \<and> (n4 \<noteq> 24 \<or> n100 = 3));
                month = (n + 50) div 32;
                preceding = [0, 31, 59, 90, 120, 151, 181, 212, 243, 273, 304, 334] ! nat (month - 1)
                             + (if month > 2 \<and> leapyear then 1 else 0)
            in if preceding > n
               then (let month' = month - 1;
                         preceding' = preceding
                           - ([31, 28, 31, 30, 31, 30, 31, 31, 30, 31, 30, 31] ! nat (month' - 1)
                              + (if month' = 2 \<and> leapyear then 1 else 0))
                     in (year, month', n - preceding' + 1))
               else (year, month, n - preceding + 1)))"

text \<open>\<open>'%0*d'\<close>: a non-negative number in decimal, padded with zeros to a width.\<close>

fun digits_of :: "nat \<Rightarrow> nat \<Rightarrow> string" where
  "digits_of 0 n = []"
| "digits_of (Suc w) n = digits_of w (n div 10) @ [char_of (48 + n mod 10)]"

text \<open>
  \<open>t.isoformat()\<close> for a time-zone aware value in UTC with no microseconds, the form
  in which \<open>fetch_and_parse_outages\<close> stores \<open>from\<close> and \<open>to\<close>.
\<close>

definition isoformat :: "instant \<Rightarrow> string" where
  "isoformat t =
     (let secs = t div 1000000;
          days = secs div 86400;
          sod = secs mod 86400;
          (y, m, d) = ord2ymd (days + 719163)
      in digits_of 4 (nat y) @ ''-'' @ digits_of 2 (nat m) @ ''-'' @ digits_of 2 (nat d) @ ''T'' @
         digits_of 2 (nat (sod div 3600)) @ '':'' @ digits_of 2 (nat (sod mod 3600 div 60)) @ '':'' @
         digits_of 2 (nat (sod mod 60)) @ ''+00:00'')"

text \<open>
  A decoder for the examples. It reads the strings that \<open>isoformat\<close> gives for
  time-zone aware values, \<open>YYYY-MM-DDTHH:MM:SS\<close>, an optional fraction of three or six
  digits and an offset \<open>+HH:MM\<close> or \<open>-HH:MM\<close>, which every version of
  \<open>datetime.fromisoformat\<close> accepts, and rejects everything else.
\<close>

definition re_char :: "char \<Rightarrow> string \<Rightarrow> string option" where
  "re_char c s = (case s of [] \<Rightarrow> None | x # xs \<Rightarrow> if x = c then Some xs else None)"

definition iso_fraction :: "string \<Rightarrow> (int \<times> string) option" where
  "iso_fraction s =
     (case re_char CHR ''.'' s of
        None \<Rightarrow> Some (0, s)
      | Some s1 \<Rightarrow>
          (case re_digits 6 s1 of
             Some (ds, s2) \<Rightarrow> Some (int_of_digits ds, s2)
           | None \<Rightarrow>
               (case re_digits 3 s1 of
                  Some (ds, s2) \<Rightarrow> Some (int_of_digits ds * 1000, s2)
                | None \<Rightarrow> None)))"

definition iso_offset :: "string \<Rightarrow> int option" where
  "iso_offset s =
     (case s of
        [] \<Rightarrow> None
      | sign # s1 \<Rightarrow>
          if sign = CHR ''+'' \<or> sign = CHR ''-''
          then do { (hs, s2) \<leftarrow> re_digits 2 s1;
                    s3 \<leftarrow> re_char CHR '':'' s2;
                    (ms, s4) \<leftarrow> re_digits 2 s3;
                    if s4 = [] \<and> int_of_digits hs \<le> 23 \<and> int_of_digits ms \<le> 59
                    then Some ((if sign = CHR ''-'' then - 1 else 1)
                                * (int_of_digits hs * 3600 + int_of_digits ms * 60) * 1000000)
                    else None }
          else None)"

definition fromisoformat_basic :: "string \<Rightarrow> instant option" where
  "fromisoformat_basic s =
     do { (ys, s1) \<leftarrow> re_digits 4 s;
          s2 \<leftarrow> re_char CHR ''-'' s1;
          (ms, s3) \<leftarrow> re_digits 2 s2;
          s4 \<leftarrow> re_char CHR ''-'' s3;
          (ds, s5) \<leftarrow> re_digits 2 s4;
          s6 \<leftarrow> re_char CHR ''T'' s5;
          (hs, s7) \<leftarrow> re_digits 2 s6;
          s8 \<leftarrow> re_char CHR '':'' s7;
          (mins, s9) \<leftarrow> re_digits 2 s8;
          s10 \<leftarrow> re_char CHR '':'' s9;
          (secs, s11) \<leftarrow> re_digits 2 s10;
          (usec, s12) \<leftarrow> iso_fraction s11;
          off \<leftarrow> iso_offset s12;
          w \<leftarrow> datetime (int_of_digits ys) (int_of_digits ms) (int_of_digits ds)
                 (int_of_digits hs) (int_of_digits mins) (int_of_digits secs);
          Some (w + usec - off) }"

section \<open>Fingerprints (bot/ceb\_parser.py, \<open>generate_outage_id\<close>)\<close>

type_synonym byte = "8 word"

subsection \<open>\<open>str.encode('utf-8')\<close>\<close>

text \<open>UTF-8 of a code point below U+0100: one byte below U+0080, two bytes from there.\<close>

definition utf8_char :: "char \<Rightarrow> byte list" where
  "utf8_char c =
     (let n = (of_char c :: nat) in
      if n < 128 then [of_nat n] else [of_nat (192 + n div 64), of_nat (128 + n mod 64)])"

definition utf8_encode :: "string \<Rightarrow> byte list" where
  "utf8_encode s = concat (map utf8_char s)"

subsection \<open>\<open>json.dumps(data, separators=(',', ':'), ensure_ascii=False)\<close>\<close>

definition hex_digit :: "nat \<Rightarrow> char" where
  "hex_digit n = (if n < 10 then char_of (48 + n) else char_of (87 + n))"

text \<open>
  The escapes of Python's JSON encoder with \<open>ensure_ascii=False\<close>: the quotation mark
  (U+0022), the backslash (U+005C) and the control characters below U+0020; every other
  character stands for itself.
\<close>

definition json_escape_char :: "char \<Rightarrow> string" where
  "json_escape_char c =
     (let n = (of_char c :: nat) in
      if n = 34 then [CHR 0x5C, CHR 0x22]
      else if n = 92 then [CHR 0x5C, CHR 0x5C]
      else if n = 10 then [CHR 0x5C, CHR ''n'']
      else if n = 13 then [CHR 0x5C, CHR ''r'']
      else if n = 9 then [CHR 0x5C, CHR ''t'']
      else if n = 8 then [CHR 0x5C, CHR ''b'']
      else if n = 12 then [CHR 0x5C, CHR ''f'']
      else if n < 32 then [CHR 0x5C, CHR ''u'', CHR ''0'', CHR ''0'',
                           hex_digit (n div 16), hex_digit (n mod 16)]
      else [c])"

definition json_string :: "string \<Rightarrow> string" where
  "json_string s = [CHR 0x22] @ concat (map json_escape_char s) @ [CHR 0x22]"

text \<open>The object \<open>data\<close> of the source, with its keys in the order of the literal.\<close>

definition json_dumps :: "string \<Rightarrow> string \<Rightarrow> string \<Rightarrow> string \<Rightarrow> string" where
  "json_dumps date locality' streets' district' =
     ''{'' @ json_string ''date'' @ '':'' @ json_string date @
     '','' @ json_string ''locality'' @ '':'' @ json_string locality' @
     '','' @ json_string ''streets'' @ '':'' @ json_string streets' @
     '','' @ json_string ''district'' @ '':'' @ json_string district' @ ''}''"

subsection \<open>\<open>hashlib.md5\<close> (RFC 1321)\<close>

definition md5_shifts :: "nat list" where
  "md5_shifts =
     [7, 12, 17, 22, 7, 12, 17, 22, 7, 12, 17, 22, 7, 12, 17, 22,
      5, 9, 14, 20, 5, 9, 14, 20, 5, 9, 14, 20, 5, 9, 14, 20,
      4, 11, 16, 23, 4, 11, 16, 23, 4, 11, 16, 23, 4, 11, 16, 23,
      6, 10, 15, 21, 6, 10, 15, 21, 6, 10, 15, 21, 6, 10, 15, 21]"

definition md5_sines :: "32 word list" where
  "md5_sines =
     [0xd76aa478, 0xe8c7b756, 0x242070db, 0xc1bdceee,
      0xf57c0faf, 0x4787c62a, 0xa8304613, 0xfd469501,
      0x698098d8, 0x8b44f7af, 0xffff5bb1, 0x895cd7be,
      0x6b901122, 0xfd987193, 0xa679438e, 0x49b40821,
      0xf61e2562, 0xc040b340, 0x265e5a51, 0xe9b6c7aa,
      0xd62f105d, 0x2441453, 0xd8a1e681, 0xe7d3fbc8,
      0x21e1cde6, 0xc33707d6, 0xf4d50d87, 0x455a14ed,
      0xa9e3e905, 0xfcefa3f8, 0x676f02d9, 0x8d2a4c8a,
      0xfffa3942, 0x8771f681, 0x6d9d6122, 0xfde5380c,
      0xa4beea44, 0x4bdecfa9, 0xf6bb4b60, 0xbebfbc70,
      0x289b7ec6, 0xeaa127fa, 0xd4ef3085, 0x4881d05,
      0xd9d4d039, 0xe6db99e5, 0x1fa27cf8, 0xc4ac5665,
      0xf4292244, 0x432aff97, 0xab9423a7, 0xfc93a039,
      0x655b59c3, 0x8f0ccc92, 0xffeff47d, 0x85845dd1,
      0x6fa87e4f, 0xfe2ce6e0, 0xa3014314, 0x4e0811a1,
      0xf7537e82, 0xbd3af235, 0x2ad7d2bb, 0xeb86d391]"

text \<open>Padding: the bit 1, zeros up to 56 modulo 64 bytes, and the bit length in 64 bits,
  least significant byte first.\<close>

definition md5_pad :: "byte list \<Rightarrow> byte list" where
  "md5_pad msg =
     (let n = length msg;
          zeros = (55 + 64 - n mod 64) mod 64;
          bits = (of_nat (8 * n) :: 64 word)
      in msg @ [0x80] @ replicate zeros 0 @ map (\<lambda>i. ucast (drop_bit (8 * i) bits)) [0..<8])"

definition word_of_bytes :: "byte list \<Rightarrow> 32 word" where
  "word_of_bytes bs = foldr (\<lambda>b w. ucast b OR push_bit 8 w) bs 0"

fun words_of_block :: "nat \<Rightarrow> byte list \<Rightarrow> 32 word list" where
  "words_of_block 0 bs = []"
| "words_of_block (Suc n) bs = word_of_bytes (take 4 bs) # words_of_block n (drop 4 bs)"

text \<open>One of the 64 operations on the state \<open>(A, B, C, D)\<close> with the block \<open>M\<close>.\<close>

definition md5_step :: "32 word list \<Rightarrow> 32 word \<times> 32 word \<times> 32 word \<times> 32 word \<Rightarrow> nat \<Rightarrow> 32 word \<times> 32 word \<times> 32 word \<times> 32 word" where
  "md5_step M st i =
     (case st of (A, B, C, D) \<Rightarrow>
        (let (F, g) =
               (if i < 16 then ((B AND C) OR (NOT B AND D), i)
                else if i < 32 then ((D AND B) OR (NOT D AND C), (5 * i + 1) mod 16)
                else if i < 48 then (B XOR C XOR D, (3 * i + 5) mod 16)
                else (C XOR (B OR NOT D), (7 * i) mod 16));
             F' = F + A + md5_sines ! i + M ! g
         in (D, B + word_rotl (md5_shifts ! i) F', B, C)))"

definition md5_block :: "32 word \<times> 32 word \<times> 32 word \<times> 32 word \<Rightarrow> byte list \<Rightarrow> 32 word \<times> 32 word \<times> 32 word \<times> 32 word" where
  "md5_block st block =
     (case st of (a0, b0, c0, d0) \<Rightarrow>
        (case foldl (md5_step (words_of_block 16 block)) st [0..<64] of
           (A, B, C, D) \<Rightarrow> (a0 + A, b0 + B, c0 + C, d0 + D)))"

fun md5_blocks :: "nat \<Rightarrow> 32 word \<times> 32 word \<times> 32 word \<times> 32 word \<Rightarrow> byte list \<Rightarrow> 32 word \<times> 32 word \<times> 32 word \<times> 32 word" where
  "md5_blocks 0 st bs = st"
| "md5_blocks (Suc n) st bs = md5_blocks n (md5_block st (take 64 bs)) (drop 64 bs)"

definition bytes_of_word :: "32 word \<Rightarrow> byte list" where
  "bytes_of_word w = map (\<lambda>i. ucast (drop_bit (8 * i) w)) [0..<4]"

text \<open>\<open>hashlib.md5(data).digest()\<close>: sixteen bytes.\<close>

definition md5 :: "byte list \<Rightarrow> byte list" where
  "md5 msg =
     (let padded = md5_pad msg in
      case md5_blocks (length padded div 64)
             (0x67452301, 0xefcdab89, 0x98badcfe, 0x10325476) padded of
        (a, b, c, d) \<Rightarrow> bytes_of_word a @ bytes_of_word b @ bytes_of_word c @ bytes_of_word d)"

definition hex_byte :: "byte \<Rightarrow> string" where
  "hex_byte b = [hex_digit (unat b div 16), hex_digit (unat b mod 16)]"

text \<open>\<open>.hexdigest()\<close>\<close>

definition hexdigest :: "byte list \<Rightarrow> string" where
  "hexdigest bs = concat (map hex_byte bs)"

text \<open>
  \<open>generate_outage_id\<close>. An outage is a dictionary with string values; reading a key
  that is absent raises \<open>KeyError\<close>.
\<close>

definition generate_outage_id :: "outage_data \<Rightarrow> error + string" where
  "generate_outage_id outage =
     (case outage ''date'' of
        None \<Rightarrow> Inl KeyError
      | Some date \<Rightarrow>
          (case outage ''locality'' of
             None \<Rightarrow> Inl KeyError
           | Some locality' \<Rightarrow>
               (case outage ''streets'' of
                  None \<Rightarrow> Inl KeyError
                | Some streets' \<Rightarrow>
                    (case outage ''district'' of
                       None \<Rightarrow> Inl KeyError
                     | Some district' \<Rightarrow>
                         Inr (hexdigest (md5 (utf8_encode
                                (json_dumps date locality' streets' district'))))))))"


text \<open>Two digests of the test suite of RFC 1321.\<close>

lemma md5_test_suite:
  "hexdigest (md5 []) = ''d41d8cd98f00b204e9800998ecf8427e''"
  "hexdigest (md5 (utf8_encode ''abc'')) = ''900150983cd24fb0d6963f7d28e17f72''"
  by code_simp+

section \<open>The HTML source (bot/ceb\_parser.py)\<close>

text \<open>
  The answer to one GET request: the request fails in transport (network, timeout), or
  a response arrives with a status code and a body.
\<close>

datatype 'a http_reply = Transport_error | Response nat 'a

text \<open>\<open>fetch_ceb_page\<close>: \<open>raise_for_status\<close> raises for every status outside 2xx, and
  both failures are \<open>httpx.HTTPError\<close>.\<close>

definition fetch_ceb_page :: "string http_reply \<Rightarrow> error + string" where
  "fetch_ceb_page reply =
     (case reply of
        Transport_error \<Rightarrow> Inl HTTPError
      | Response status body \<Rightarrow>
          if 200 \<le> status \<and> status < 300 then Inr body else Inl HTTPError)"

text \<open>
  \<open>re.search(r'var arDistrictLocations = ({.+});', html)\<close>. The dot matches every
  character but the line feed, and \<open>.+\<close> is greedy: in the rest of the line after the
  opening brace, the group ends at the last \<open>};\<close> that has at least one character in
  front of it. \<open>find_close n rest\<close> is the greatest such position up to \<open>n\<close>. When the
  line has none, the search goes on to the right.
\<close>

fun find_close :: "nat \<Rightarrow> string \<Rightarrow> nat option" where
  "find_close 0 rest = None"
| "find_close (Suc j) rest =
     (if take 2 (drop (Suc j) rest) = ''};'' then Some (Suc j) else find_close j rest)"

fun search_assignment :: "string \<Rightarrow> string option" where
  "search_assignment [] = None"
| "search_assignment (c # cs) =
     (if startswith (c # cs) ''var arDistrictLocations = {''
      then (let rest = takeWhile (\<lambda>x. x \<noteq> CHR 0x0A) (drop 27 (c # cs)) in
            case find_close (length rest - 2) rest of
              Some j \<Rightarrow> Some (''{'' @ take j rest @ ''}'')
            | None \<Rightarrow> search_assignment cs)
      else search_assignment cs)"

text \<open>
  \<open>extract_district_data\<close>. The JSON decoder is a parameter: \<open>json_loads s\<close> is the
  list of the items of the decoded dictionary, or \<open>None\<close> for \<open>JSONDecodeError\<close>. A
  dictionary is a list of items with distinct keys, in insertion order.
\<close>

type_synonym json_decoder = "string \<Rightarrow> (string \<times> string) list option"

definition extract_district_data :: "json_decoder \<Rightarrow> string \<Rightarrow> (string \<times> string) list" where
  "extract_district_data json_loads html =
     (case search_assignment html of
        None \<Rightarrow> []
      | Some group1 \<Rightarrow>
          (case json_loads group1 of
             None \<Rightarrow> []
           | Some district_data \<Rightarrow> district_data))"

text \<open>
  \<open>parse_table_html\<close>. The HTML parser is a parameter: \<open>table_rows html\<close> lists, for
  every \<open>tr\<close> in the \<open>tbody\<close> of every table whose id starts with
  \<open>table-mauritius\<close>, the stripped texts of its \<open>td\<close> cells.
\<close>

type_synonym html_parser = "string \<Rightarrow> string list list"

definition parse_table_html :: "html_parser \<Rightarrow> string \<Rightarrow> string \<Rightarrow> outage_data list" where
  "parse_table_html table_rows html district' =
     [ [''date'' \<mapsto> cells ! 0, ''locality'' \<mapsto> cells ! 1, ''streets'' \<mapsto> cells ! 2,
       ''district'' \<mapsto> district'].
        cells \<leftarrow> table_rows html, 3 \<le> length cells, cells ! 0 \<noteq> [] ]"

text \<open>\<open>remove_duplicates\<close>; \<open>seen\<close> is a dictionary in insertion order.\<close>

fun remove_duplicates_loop :: "outage_data list \<Rightarrow> (string \<times> outage_data) list \<Rightarrow> (string \<times> outage_data) list" where
  "remove_duplicates_loop [] seen = seen"
| "remove_duplicates_loop (outage # rest) seen =
     (case outage ''date'' of
        None \<Rightarrow> remove_duplicates_loop rest seen
      | Some date \<Rightarrow>
          if date = [] then remove_duplicates_loop rest seen
          else (case outage ''id'' of
                  None \<Rightarrow> remove_duplicates_loop rest seen
                | Some k \<Rightarrow>
                    if k \<noteq> [] \<and> map_of seen k = None
                    then remove_duplicates_loop rest (seen @ [(k, outage)])
                    else remove_duplicates_loop rest seen))"

definition remove_duplicates :: "outage_data list \<Rightarrow> outage_data list" where
  "remove_duplicates outages' = map snd (remove_duplicates_loop outages' [])"

text \<open>
  \<open>categorize_outages\<close>. The end of today is the reading 23:59:59.999999 on the day
  of \<open>datetime.now(MAURITIUS_TZ)\<close>. The two values compared in the loop carry the
  same zone, so their readings are compared. A \<open>from\<close> value that the decoder rejects
  raises \<open>ValueError\<close>, which nothing catches.
\<close>

definition end_of_today :: "int \<Rightarrow> int" where
  "end_of_today now_local = now_local div usec_per_day * usec_per_day + usec_per_day - 1"

fun categorize_loop :: "isoparser \<Rightarrow> int \<Rightarrow> outage_data list \<Rightarrow> outage_data list \<times> outage_data list \<Rightarrow> error + outage_data list \<times> outage_data list" where
  "categorize_loop fromisoformat eot [] acc = Inr acc"
| "categorize_loop fromisoformat eot (outage # rest) acc =
     (case outage ''from'' of
        None \<Rightarrow> categorize_loop fromisoformat eot rest acc
      | Some from_str \<Rightarrow>
          if from_str = [] then categorize_loop fromisoformat eot rest acc
          else (case fromisoformat (replace_Z from_str) of
                  None \<Rightarrow> Inl ValueError
                | Some from_time \<Rightarrow>
                    (case astimezone_mauritius from_time of
                       Inl e \<Rightarrow> Inl e
                     | Inr from_time_local \<Rightarrow>
                         if from_time_local \<le> eot
                         then categorize_loop fromisoformat eot rest (fst acc @ [outage], snd acc)
                         else categorize_loop fromisoformat eot rest (fst acc, snd acc @ [outage]))))"

text \<open>The result is the pair of the lists \<open>today\<close> and \<open>future\<close>.\<close>

definition categorize_outages :: "isoparser \<Rightarrow> instant \<Rightarrow> (string \<times> outage_data list) list \<Rightarrow> error + outage_data list \<times> outage_data list" where
  "categorize_outages fromisoformat now outages_by_district =
     (case datetime_now MAURITIUS_TZ now of
        Inl e \<Rightarrow> Inl e
      | Inr now_local \<Rightarrow>
          categorize_loop fromisoformat (end_of_today now_local)
            (concat (map snd outages_by_district)) ([], []))"

text \<open>
  The body of the loop over the raw outages of \<open>fetch_and_parse_outages\<close>: the id is
  generated before the date is parsed; \<open>Inr None\<close> is a row skipped for its
  unparseable date.
\<close>

definition process_raw_outage :: "outage_data \<Rightarrow> error + outage_data option" where
  "process_raw_outage outage =
     (case generate_outage_id outage of
        Inl e \<Rightarrow> Inl e
      | Inr outage_id' \<Rightarrow>
          (case outage ''date'' of
             None \<Rightarrow> Inl KeyError
           | Some date \<Rightarrow>
               (case parse_french_date date of
                  Inl e \<Rightarrow> Inl e
                | Inr None \<Rightarrow> Inr None
                | Inr (Some (from_time', to_time')) \<Rightarrow>
                    Inr (Some [''id'' \<mapsto> outage_id',
                               ''date'' \<mapsto> date,
                               ''locality'' \<mapsto> get_or outage ''locality'' [],
                               ''streets'' \<mapsto> get_or outage ''streets'' [],
                               ''district'' \<mapsto> get_or outage ''district'' [],
                               ''from'' \<mapsto> isoformat from_time',
                               ''to'' \<mapsto> isoformat to_time']))))"

fun process_raw_outages :: "outage_data list \<Rightarrow> error + outage_data list" where
  "process_raw_outages [] = Inr []"
| "process_raw_outages (outage # rest) =
     (case process_raw_outage outage of
        Inl e \<Rightarrow> Inl e
      | Inr r \<Rightarrow>
          (case process_raw_outages rest of
             Inl e \<Rightarrow> Inl e
           | Inr processed \<Rightarrow> Inr ((case r of None \<Rightarrow> [] | Some p \<Rightarrow> [p]) @ processed)))"

text \<open>The loop over \<open>district_data.items()\<close>, building \<open>outages_by_district\<close>.\<close>

fun process_districts :: "html_parser \<Rightarrow> (string \<times> string) list \<Rightarrow> error + (string \<times> outage_data list) list" where
  "process_districts table_rows [] = Inr []"
| "process_districts table_rows ((district', district_html) # rest) =
     (case process_raw_outages (parse_table_html table_rows district_html district') of
        Inl e \<Rightarrow> Inl e
      | Inr processed \<Rightarrow>
          (case process_districts table_rows rest of
             Inl e \<Rightarrow> Inl e
           | Inr by_district \<Rightarrow> Inr ((district', remove_duplicates processed) # by_district)))"

text \<open>\<open>fetch_and_parse_outages\<close>, from the reply to the request for the page.\<close>

definition fetch_and_parse_outages :: "json_decoder \<Rightarrow> html_parser \<Rightarrow> isoparser \<Rightarrow> instant \<Rightarrow> string http_reply \<Rightarrow> error + outage_data list \<times> outage_data list" where
  "fetch_and_parse_outages json_loads table_rows fromisoformat now reply =
     (case fetch_ceb_page reply of
        Inl e \<Rightarrow> Inl e
      | Inr html \<Rightarrow>
          (let district_data = extract_district_data json_loads html in
           if district_data = [] then Inl ValueError
           else (case process_districts table_rows district_data of
                   Inl e \<Rightarrow> Inl e
                 | Inr outages_by_district \<Rightarrow>
                     categorize_outages fromisoformat now outages_by_district)))"

section \<open>Storage (bot/database.py)\<close>

record outage_row =
  outage_id :: string
  locality :: string
  district :: string
  streets :: string
  date_description :: string
  from_time :: instant
  to_time :: instant
  first_seen :: instant
  last_checked :: instant

record user_row =
  telegram_id :: int
  username :: "string option"
  language :: "string option"
  is_active :: bool

record locality_row =
  loc_id :: int
  loc_name :: string
  loc_district_id :: int

record subscription_row =
  sub_user_id :: int
  sub_locality_id :: int

record notification_row =
  ns_user_id :: int
  ns_outage_id :: string
  sent_at :: instant

record database =
  outages :: "outage_row list"
  users :: "user_row list"
  localities :: "locality_row list"
  subscriptions :: "subscription_row list"
  notifications_sent :: "notification_row list"

text \<open>\<open>db.query(Outage).filter(Outage.id == outage_id).first()\<close>\<close>

definition query_outage :: "database \<Rightarrow> string \<Rightarrow> outage_row option" where
  "query_outage db k = find (\<lambda>r. outage_id r = k) (outages db)"

text \<open>
  \<open>db.query(NotificationSent).filter(user_id == ..., outage_id == ...).first()\<close>
\<close>

definition query_notification :: "database \<Rightarrow> int \<Rightarrow> string \<Rightarrow> notification_row option" where
  "query_notification db u k =
     find (\<lambda>n. ns_user_id n = u \<and> ns_outage_id n = k) (notifications_sent db)"

text \<open>
  The join of users, subscriptions and localities filtered on the locality name and on
  \<open>is_active\<close>; one result row per matching subscription. A missing or empty language
  is reported as \<open>en\<close>. The query fixes no order of its rows; the model lists them in
  the order of the tables, and no theorem depends on that order.
\<close>

definition get_users_with_language_for_locality :: "database \<Rightarrow> string \<Rightarrow> (int \<times> string) list" where
  "get_users_with_language_for_locality db locality_name =
     [(telegram_id u, (case language u of None \<Rightarrow> ''en'' | Some l \<Rightarrow> if l = [] then ''en'' else l)).
        u \<leftarrow> users db, s \<leftarrow> subscriptions db, sub_user_id s = telegram_id u,
        l \<leftarrow> localities db, loc_id l = sub_locality_id s,
        loc_name l = locality_name, is_active u]"

section \<open>Change detection (bot/monitor.py, \<open>_process_outages\<close>)\<close>

text \<open>
  The feed document is a dictionary that maps \<open>today\<close> and \<open>future\<close> to lists of
  items; it is a list of its items.
\<close>

type_synonym feed = "(string \<times> outage_data list) list"

text \<open>
  The construction \<open>Outage(id=..., ..., from_time=fromisoformat(...), ...)\<close>. It is
  \<open>None\<close> when the source raises inside the inner \<open>try\<close>: \<open>outage_data["from"]\<close> or
  \<open>outage_data["to"]\<close> is absent, or a value is not an ISO instant. The columns
  \<open>first_seen\<close> and \<open>last_checked\<close> take their default, the clock reading \<open>now\<close>.
\<close>

definition new_outage :: "isoparser \<Rightarrow> instant \<Rightarrow> string \<Rightarrow> outage_data \<Rightarrow> outage_row option" where
  "new_outage fromisoformat now k d =
     (case d ''from'' of
        None \<Rightarrow> None
      | Some f \<Rightarrow>
          (case fromisoformat (replace_Z f) of
             None \<Rightarrow> None
           | Some ft \<Rightarrow>
               (case d ''to'' of
                  None \<Rightarrow> None
                | Some t \<Rightarrow>
                    (case fromisoformat (replace_Z t) of
                       None \<Rightarrow> None
                     | Some tt \<Rightarrow>
                         Some \<lparr>outage_id = k,
                               locality = get_or d ''locality'' [],
                               district = get_or d ''district'' [],
                               streets = get_or d ''streets'' [],
                               date_description = get_or d ''date'' [],
                               from_time = ft, to_time = tt,
                               first_seen = now, last_checked = now\<rparr>))))"

text \<open>\<open>existing.last_checked = datetime.utcnow()\<close> on the row that \<open>first()\<close> returned.\<close>

fun touch_last_checked :: "instant \<Rightarrow> string \<Rightarrow> outage_row list \<Rightarrow> outage_row list" where
  "touch_last_checked now k [] = []"
| "touch_last_checked now k (r # rs) =
     (if outage_id r = k then r\<lparr>last_checked := now\<rparr> # rs
      else r # touch_last_checked now k rs)"

text \<open>
  How one item of the snapshot is handled: dropped for want of an id, stored as a new
  outage, dropped because its creation raised, or found in storage.
\<close>

datatype classification = Missing_id | New | Creation_failed | Known

definition classify :: "isoparser \<Rightarrow> instant \<Rightarrow> database \<Rightarrow> outage_data \<Rightarrow> classification" where
  "classify fromisoformat now db d =
     (case d ''id'' of
        None \<Rightarrow> Missing_id
      | Some k \<Rightarrow>
          if k = [] then Missing_id
          else (case query_outage db k of
                  Some existing \<Rightarrow> Known
                | None \<Rightarrow>
                    (case new_outage fromisoformat now k d of
                       None \<Rightarrow> Creation_failed
                     | Some r \<Rightarrow> New)))"

text \<open>One iteration of the loop over \<open>all_outages\<close>; the state is the database and
  the list \<open>new_outage_ids\<close>. Storage itself is taken to work: a query, an insert and
  a commit of well-formed rows do not raise.\<close>

definition process_outage :: "isoparser \<Rightarrow> instant \<Rightarrow> outage_data \<Rightarrow> database \<times> string list \<Rightarrow> database \<times> string list" where
  "process_outage fromisoformat now d st =
     (case st of (db, new_outage_ids) \<Rightarrow>
        (case d ''id'' of
           None \<Rightarrow> (db, new_outage_ids)
         | Some k \<Rightarrow>
             if k = [] then (db, new_outage_ids)
             else (case query_outage db k of
                     None \<Rightarrow>
                       (case new_outage fromisoformat now k d of
                          None \<Rightarrow> (db, new_outage_ids)
                        | Some r \<Rightarrow> (db\<lparr>outages := outages db @ [r]\<rparr>, new_outage_ids @ [k]))
                   | Some existing \<Rightarrow>
                       (db\<lparr>outages := touch_last_checked now k (outages db)\<rparr>, new_outage_ids))))"

fun process_loop :: "isoparser \<Rightarrow> instant \<Rightarrow> outage_data list \<Rightarrow> database \<times> string list \<Rightarrow> database \<times> string list" where
  "process_loop fromisoformat now [] st = st"
| "process_loop fromisoformat now (d # ds) st = process_loop fromisoformat now ds (process_outage fromisoformat now d st)"

definition all_outages :: "feed \<Rightarrow> outage_data list" where
  "all_outages data = get_or (map_of data) ''today'' [] @ get_or (map_of data) ''future'' []"

text \<open>\<open>_process_outages\<close>: the updated database and the ids of the new outages.\<close>

definition process_outages :: "isoparser \<Rightarrow> instant \<Rightarrow> feed \<Rightarrow> database \<Rightarrow> database \<times> string list" where
  "process_outages fromisoformat now data db = process_loop fromisoformat now (all_outages data) (db, [])"

section \<open>Notification dispatch (bot/monitor.py)\<close>

text \<open>
  What \<open>bot.send_message\<close> does is outside the program: it returns, raises a
  \<open>TelegramError\<close> with a description, or raises something else. A gateway gives the
  outcome of each call from the number of calls made before it, the chat id, the outage
  and the language of the message. Every call is appended to a log, the trace of
  delivery attempts that the theorems speak about.
\<close>

datatype send_outcome = Delivered | Telegram_error string | Other_exception

type_synonym gateway = "nat \<Rightarrow> int \<Rightarrow> outage_row \<Rightarrow> string \<Rightarrow> send_outcome"

record attempt =
  att_user :: int
  att_outage :: string
  att_outcome :: send_outcome

type_synonym world = "database \<times> attempt list"

definition permanently_unreachable :: "string \<Rightarrow> bool" where
  "permanently_unreachable e =
     (contains (lower e) ''blocked'' \<or> contains (lower e) ''deactivated'')"

text \<open>\<open>user = db.query(User).filter(User.telegram_id == user_id).first();
  if user: user.is_active = False\<close>\<close>

fun mark_inactive :: "int \<Rightarrow> user_row list \<Rightarrow> user_row list" where
  "mark_inactive u [] = []"
| "mark_inactive u (r # rs) =
     (if telegram_id r = u then r\<lparr>is_active := False\<rparr> # rs else r # mark_inactive u rs)"

definition send_notification_to_user :: "gateway \<Rightarrow> int \<Rightarrow> outage_row \<Rightarrow> string \<Rightarrow> world \<Rightarrow> bool \<times> world" where
  "send_notification_to_user gw user_id outage lang w =
     (case w of (db, log) \<Rightarrow>
        (let outcome = gw (length log) user_id outage lang;
             log' = log @ [\<lparr>att_user = user_id, att_outage = outage_id outage, att_outcome = outcome\<rparr>]
         in case outcome of
              Delivered \<Rightarrow> (True, (db, log'))
            | Telegram_error e \<Rightarrow>
                (False,
                 (if permanently_unreachable e
                  then db\<lparr>users := mark_inactive user_id (users db)\<rparr> else db, log'))
            | Other_exception \<Rightarrow> (False, (db, log'))))"

text \<open>The body of the loop over \<open>users_with_lang\<close>, for one subscriber.\<close>

definition notify_user :: "gateway \<Rightarrow> instant \<Rightarrow> outage_row \<Rightarrow> int \<times> string \<Rightarrow> world \<Rightarrow> world" where
  "notify_user gw now outage ul w =
     (case ul of (user_id, user_lang) \<Rightarrow>
        (case query_notification (fst w) user_id (outage_id outage) of
           Some already_sent \<Rightarrow> w
         | None \<Rightarrow>
             (case send_notification_to_user gw user_id outage user_lang w of
                (success, (db, log)) \<Rightarrow>
                  if success
                  then (db\<lparr>notifications_sent := notifications_sent db @
                             [\<lparr>ns_user_id = user_id, ns_outage_id = outage_id outage,
                               sent_at = now\<rparr>]\<rparr>, log)
                  else (db, log))))"

fun notify_users :: "gateway \<Rightarrow> instant \<Rightarrow> outage_row \<Rightarrow> (int \<times> string) list \<Rightarrow> world \<Rightarrow> world" where
  "notify_users gw now outage [] w = w"
| "notify_users gw now outage (ul # uls) w =
     notify_users gw now outage uls (notify_user gw now outage ul w)"

text \<open>\<open>_send_notifications\<close>: the loop over the outage ids.\<close>

fun send_notifications :: "gateway \<Rightarrow> instant \<Rightarrow> string list \<Rightarrow> world \<Rightarrow> world" where
  "send_notifications gw now [] w = w"
| "send_notifications gw now (k # ks) w =
     (case query_outage (fst w) k of
        None \<Rightarrow> send_notifications gw now ks w
      | Some outage \<Rightarrow>
          send_notifications gw now ks
            (notify_users gw now outage
               (get_users_with_language_for_locality (fst w) (locality outage)) w))"



section \<open>The scheduled run (bot/monitor.py, \<open>check_for_outages\<close>)\<close>

text \<open>
  \<open>_fetch_outages\<close>. The body of the response is given as \<open>response.json()\<close>
  decodes it, \<open>None\<close> when that raises. Every failure is logged and answered with the
  empty dictionary.
\<close>

definition fetch_outages :: "feed option http_reply \<Rightarrow> feed" where
  "fetch_outages reply =
     (case reply of
        Transport_error \<Rightarrow> []
      | Response status body \<Rightarrow>
          if 200 \<le> status \<and> status < 300
          then (case body of None \<Rightarrow> [] | Some data \<Rightarrow> data)
          else [])"

definition check_for_outages :: "isoparser \<Rightarrow> gateway \<Rightarrow> instant \<Rightarrow> feed option http_reply \<Rightarrow> world \<Rightarrow> world" where
  "check_for_outages fromisoformat gw now reply w =
     (let outages_data = fetch_outages reply in
      if outages_data = [] then w
      else (case process_outages fromisoformat now outages_data (fst w) of
              (db, new_outages) \<Rightarrow>
                if new_outages = [] then (db, snd w)
                else send_notifications gw now new_outages (db, snd w)))"

section \<open>At-most-once notification\<close>


definition recorded :: "database \<Rightarrow> int \<Rightarrow> string \<Rightarrow> bool" where
  "recorded db u k = (query_notification db u k \<noteq> None)"

definition attempts_to :: "int \<Rightarrow> string \<Rightarrow> attempt list \<Rightarrow> attempt list" where
  "attempts_to u k log = filter (\<lambda>a. att_user a = u \<and> att_outage a = k) log"

definition deliveries_to :: "int \<Rightarrow> string \<Rightarrow> attempt list \<Rightarrow> attempt list" where
  "deliveries_to u k log =
     filter (\<lambda>a. att_user a = u \<and> att_outage a = k \<and> att_outcome a = Delivered) log"

fun dispatch_runs :: "(gateway \<times> instant \<times> string list) list \<Rightarrow> world \<Rightarrow> world" where
  "dispatch_runs [] w = w"
| "dispatch_runs ((gw, now, ks) # rs) w = dispatch_runs rs (send_notifications gw now ks w)"

definition inactive :: "database \<Rightarrow> int \<Rightarrow> bool" where
  "inactive db u = (\<forall>r \<in> set (users db). telegram_id r = u \<longrightarrow> \<not> is_active r)"

lemma recorded_iff:
  "recorded db u k \<longleftrightarrow> (\<exists>n \<in> set (notifications_sent db). ns_user_id n = u \<and> ns_outage_id n = k)"
  by (auto simp: recorded_def query_notification_def find_None_iff)

lemma notify_user_cases:
  "notify_user gw now outage (v, lang) (db, log) =
     (if recorded db v (outage_id outage) then (db, log)
      else (case gw (length log) v outage lang of
              Delivered \<Rightarrow>
                (db\<lparr>notifications_sent := notifications_sent db @
                      [\<lparr>ns_user_id = v, ns_outage_id = outage_id outage, sent_at = now\<rparr>]\<rparr>,
                 log @ [\<lparr>att_user = v, att_outage = outage_id outage, att_outcome = Delivered\<rparr>])
            | Telegram_error e \<Rightarrow>
                (if permanently_unreachable e
                 then db\<lparr>users := mark_inactive v (users db)\<rparr> else db,
                 log @ [\<lparr>att_user = v, att_outage = outage_id outage,
                         att_outcome = Telegram_error e\<rparr>])
            | Other_exception \<Rightarrow>
                (db, log @ [\<lparr>att_user = v, att_outage = outage_id outage,
                             att_outcome = Other_exception\<rparr>])))"
  by (auto simp: notify_user_def send_notification_to_user_def recorded_def Let_def
           split: option.splits send_outcome.splits)

text \<open>Lifting a reflexive and transitive relation between worlds through the loops.\<close>

lemma lift_notify_users:
  assumes step: "\<And>ul w. R w (notify_user gw now outage ul w)"
    and refl: "\<And>w. R w w"
    and trans: "\<And>a b c. R a b \<Longrightarrow> R b c \<Longrightarrow> R a c"
  shows "R w (notify_users gw now outage uls w)"
proof (induction uls arbitrary: w)
  case Nil
  show ?case by (simp add: refl)
next
  case (Cons ul uls)
  have "R w (notify_user gw now outage ul w)" by (rule step)
  moreover have "R (notify_user gw now outage ul w)
                   (notify_users gw now outage uls (notify_user gw now outage ul w))"
    by (rule Cons.IH)
  ultimately show ?case by (simp add: trans)
qed

lemma lift_send_notifications:
  assumes step: "\<And>outage w.
      R w (notify_users gw now outage
             (get_users_with_language_for_locality (fst w) (locality outage)) w)"
    and refl: "\<And>w. R w w"
    and trans: "\<And>a b c. R a b \<Longrightarrow> R b c \<Longrightarrow> R a c"
  shows "R w (send_notifications gw now ks w)"
proof (induction ks arbitrary: w)
  case Nil
  show ?case by (simp add: refl)
next
  case (Cons k ks)
  show ?case
  proof (cases "query_outage (fst w) k")
    case None
    then show ?thesis using Cons.IH by simp
  next
    case (Some outage)
    let ?w1 = "notify_users gw now outage
                 (get_users_with_language_for_locality (fst w) (locality outage)) w"
    have "R w ?w1" by (rule step)
    moreover have "R ?w1 (send_notifications gw now ks ?w1)" by (rule Cons.IH)
    ultimately show ?thesis using Some by (simp add: trans)
  qed
qed

lemma lift_dispatch_runs:
  assumes step: "\<And>gw now ks w. R w (send_notifications gw now ks w)"
    and refl: "\<And>w. R w w"
    and trans: "\<And>a b c. R a b \<Longrightarrow> R b c \<Longrightarrow> R a c"
  shows "R w (dispatch_runs runs w)"
proof (induction runs arbitrary: w)
  case Nil
  show ?case by (simp add: refl)
next
  case (Cons r rs)
  obtain gw now ks where r: "r = (gw, now, ks)" by (cases r)
  have "R w (send_notifications gw now ks w)" by (rule step)
  moreover have "R (send_notifications gw now ks w)
                   (dispatch_runs rs (send_notifications gw now ks w))"
    by (rule Cons.IH)
  ultimately show ?case by (simp add: r trans)
qed

lemma lift_all:
  assumes step: "\<And>gw now outage ul w. R w (notify_user gw now outage ul w)"
    and refl: "\<And>w. R w w"
    and trans: "\<And>a b c. R a b \<Longrightarrow> R b c \<Longrightarrow> R a c"
  shows "R w (dispatch_runs runs w)"
  by (rule lift_dispatch_runs, rule lift_send_notifications, rule lift_notify_users)
     (fact step refl trans)+

text \<open>The guard: a recorded pair is skipped and stays recorded.\<close>

definition guard_rel :: "int \<Rightarrow> string \<Rightarrow> world \<Rightarrow> world \<Rightarrow> bool" where
  "guard_rel u k w w' =
     (recorded (fst w) u k \<longrightarrow>
        recorded (fst w') u k \<and> attempts_to u k (snd w') = attempts_to u k (snd w))"

lemma guard_step: "guard_rel u k w (notify_user gw now outage ul w)"
proof -
  obtain db log where w: "w = (db, log)" by (cases w)
  obtain v lang where ul: "ul = (v, lang)" by (cases ul)
  show ?thesis
    unfolding w ul guard_rel_def notify_user_cases
    by (auto simp: recorded_iff attempts_to_def split: send_outcome.splits)
qed

lemma guard_runs: "guard_rel u k w (dispatch_runs runs w)"
  by (rule lift_all) (auto simp: guard_step, auto simp: guard_rel_def)

text \<open>The budget of successful deliveries of a pair: one while no record exists, none after.\<close>

definition budget :: "int \<Rightarrow> string \<Rightarrow> world \<Rightarrow> nat" where
  "budget u k w =
     length (deliveries_to u k (snd w)) + (if recorded (fst w) u k then 0 else 1)"

lemma budget_step: "budget u k (notify_user gw now outage ul w) \<le> budget u k w"
proof -
  obtain db log where w: "w = (db, log)" by (cases w)
  obtain v lang where ul: "ul = (v, lang)" by (cases ul)
  show ?thesis
    unfolding w ul budget_def notify_user_cases
    by (auto simp: recorded_iff deliveries_to_def split: send_outcome.splits)
qed

lemma budget_runs: "budget u k (dispatch_runs runs w) \<le> budget u k w"
  by (rule lift_all[where R = "\<lambda>w w'. budget u k w' \<le> budget u k w"])
     (auto simp: budget_step)

text \<open>Records come after deliveries.\<close>

definition after_delivery :: "world \<Rightarrow> world \<Rightarrow> bool" where
  "after_delivery w w' =
     (\<exists>ext. snd w' = snd w @ ext \<and>
        (\<forall>n \<in> set (notifications_sent (fst w')).
           n \<in> set (notifications_sent (fst w)) \<or>
           \<lparr>att_user = ns_user_id n, att_outage = ns_outage_id n, att_outcome = Delivered\<rparr>
             \<in> set ext))"

lemma after_delivery_step: "after_delivery w (notify_user gw now outage ul w)"
proof -
  obtain db log where w: "w = (db, log)" by (cases w)
  obtain v lang where ul: "ul = (v, lang)" by (cases ul)
  show ?thesis
    unfolding w ul after_delivery_def notify_user_cases
    by (auto split: send_outcome.splits)
qed

lemma after_delivery_trans:
  assumes "after_delivery a b" "after_delivery b c"
  shows "after_delivery a c"
proof -
  from assms(1) obtain e1 where e1: "snd b = snd a @ e1"
    and n1: "\<forall>n \<in> set (notifications_sent (fst b)).
           n \<in> set (notifications_sent (fst a)) \<or>
           \<lparr>att_user = ns_user_id n, att_outage = ns_outage_id n, att_outcome = Delivered\<rparr> \<in> set e1"
    unfolding after_delivery_def by blast
  from assms(2) obtain e2 where e2: "snd c = snd b @ e2"
    and n2: "\<forall>n \<in> set (notifications_sent (fst c)).
           n \<in> set (notifications_sent (fst b)) \<or>
           \<lparr>att_user = ns_user_id n, att_outage = ns_outage_id n, att_outcome = Delivered\<rparr> \<in> set e2"
    unfolding after_delivery_def by blast
  have "snd c = snd a @ (e1 @ e2)" using e1 e2 by simp
  moreover have "\<forall>n \<in> set (notifications_sent (fst c)).
           n \<in> set (notifications_sent (fst a)) \<or>
           \<lparr>att_user = ns_user_id n, att_outage = ns_outage_id n, att_outcome = Delivered\<rparr>
             \<in> set (e1 @ e2)"
    using n1 n2 by auto
  ultimately show ?thesis unfolding after_delivery_def by blast
qed

lemma after_delivery_runs: "after_delivery w (dispatch_runs runs w)"
proof (rule lift_all)
  show "\<And>gw now outage ul w. after_delivery w (notify_user gw now outage ul w)"
    by (rule after_delivery_step)
  show "\<And>w. after_delivery w w" by (simp add: after_delivery_def)
  show "\<And>a b c. after_delivery a b \<Longrightarrow> after_delivery b c \<Longrightarrow> after_delivery a c"
    by (rule after_delivery_trans)
qed


section \<open>The clock of Mauritius\<close>

text \<open>The offsets of the zone, read off its table, on its own clock and on UTC.\<close>

lemma utcoffset_mauritius:
  "utcoffset MAURITIUS_TZ t =
     (if t div 1000000 < - 1988149800 then 13800
      else if t div 1000000 < 403059600 then 14400
      else if t div 1000000 < 417052800 then 18000
      else if t div 1000000 < 1224990000 then 14400
      else if t div 1000000 < 1238292000 then 18000 else 14400) * 1000000"
  by (simp add: utcoffset_def MAURITIUS_TZ_def)

lemma wall_clock_mauritius:
  "wall_clock MAURITIUS_TZ u =
     u + (if u div 1000000 < - 1988164200 then 13800
          else if u div 1000000 < 403041600 then 14400
          else if u div 1000000 < 417034800 then 18000
          else if u div 1000000 < 1224972000 then 14400
          else if u div 1000000 < 1238274000 then 18000 else 14400) * 1000000"
  by (simp add: wall_clock_def MAURITIUS_TZ_def)

lemma wall_clock_utc: "wall_clock UTC_TZ u = u"
  by (simp add: wall_clock_def UTC_TZ_def)

text \<open>
  The conversions agree with the library at readings around every transition of the
  zone and at the ends of the range of \<open>datetime\<close>: from readings of the Mauritius
  clock to UTC, and from instants to readings of the Mauritius clock.
\<close>

lemma mauritius_to_utc_suite:
  "map (\<lambda>(y, m, d, hh, mm, ss).
          map_option (astimezone MAURITIUS_TZ UTC_TZ) (datetime y m d hh mm ss))
     [(2022, 3, 13, 9, 30, 0), (2009, 1, 1, 9, 30, 0),
      (2008, 10, 26, 2, 30, 0), (2008, 10, 26, 3, 0, 0),
      (2009, 3, 29, 1, 30, 0), (2009, 3, 29, 2, 0, 0),
      (1982, 10, 10, 0, 30, 0), (1982, 10, 10, 1, 0, 0),
      (1983, 3, 20, 23, 30, 0), (1983, 3, 21, 0, 0, 0),
      (1906, 12, 31, 23, 59, 0), (1907, 1, 1, 0, 5, 0), (1907, 1, 1, 0, 10, 0),
      (1, 1, 1, 3, 50, 0), (1, 1, 1, 3, 49, 59)]
   = [Some (Inr 1647149400000000), Some (Inr 1230784200000000),
      Some (Inr 1224973800000000), Some (Inr 1224972000000000),
      Some (Inr 1238272200000000), Some (Inr 1238277600000000),
      Some (Inr 403043400000000), Some (Inr 403041600000000),
      Some (Inr 417033000000000), Some (Inr 417038400000000),
      Some (Inr (- 1988164260000000)), Some (Inr (- 1988163900000000)),
      Some (Inr (- 1988164200000000)),
      Some (Inr (- 62135596800000000)), Some (Inl OverflowError)]"
  by code_simp

lemma utc_to_mauritius_suite:
  "map astimezone_mauritius
     [1647165600000000, 1224971999000000, 1224972000000000, 1238273999000000,
      1238274000000000, - 1988164201000000, - 1988164200000000,
      253402286399000000, 253402286400000000]
   = [Inr 1647180000000000, Inr 1224986399000000, Inr 1224990000000000,
      Inr 1238291999000000, Inr 1238288400000000, Inr (- 1988150401000000),
      Inr (- 1988149800000000), Inr 253402300799000000, Inl OverflowError]"
  by code_simp

text \<open>What evaluates a categorization at a given clock reading.\<close>

lemmas categorize_simps =
  categorize_outages_def datetime_now_def end_of_today_def astimezone_mauritius_def
  fromutc_def wall_clock_mauritius datetime_min_def datetime_max_def ymd2ord_def
  days_before_year_def days_before_month_def is_leap_def usec_per_day_def

text \<open>
  A reading at second \<open>l\<close> of day \<open>k\<close>, before noon, that lies between a reading on
  day \<open>d\<close> and a reading earlier in the day on the day after it, is more than
  \<open>l\<close> seconds before the second of them.
\<close>

lemma overnight_crossing:
  fixes a b d k l :: int
  assumes "0 \<le> b" "b < a" "a < 86400" "0 \<le> l" "l < 43200"
    and "d * 86400 + a < k * 86400 + l" "k * 86400 + l \<le> (d + 1) * 86400 + b"
  shows "l < 86400 + b - a"
proof -
  consider "d < k - 1" | "d = k - 1" | "d = k" | "k < d" by linarith
  then show ?thesis
  proof cases
    case 1
    then have "(d + 1) * 86400 \<le> (k - 1) * 86400" by simp
    with assms show ?thesis by simp
  next
    case 2
    with assms show ?thesis by simp
  next
    case 3
    with assms show ?thesis by simp
  next
    case 4
    then have "(k + 1) * 86400 \<le> d * 86400" by simp
    with assms show ?thesis by simp
  qed
qed

text \<open>
  From a reading to a reading earlier in the day on the following day the instants
  increase, the forward jumps of the Mauritius clock included: each jump is over at most
  as many seconds as the day is old at its end.
\<close>

lemma overnight_order:
  fixes a b d :: int
  assumes "0 \<le> b" "b < a" "a < 86400"
  shows "(d * 86400 + a) * 1000000 - utcoffset MAURITIUS_TZ ((d * 86400 + a) * 1000000)
       < ((d + 1) * 86400 + b) * 1000000 - utcoffset MAURITIUS_TZ (((d + 1) * 86400 + b) * 1000000)"
proof -
  define x where "x = d * 86400 + a"
  define y where "y = (d + 1) * 86400 + b"
  have xy: "y - x = 86400 + b - a" by (simp add: x_def y_def)
  have c0: "x < - 1988149800 \<Longrightarrow> - 1988149800 \<le> y \<Longrightarrow> 600 < y - x"
    using overnight_crossing[of b a 600 d "- 23011"] assms unfolding xy x_def y_def by simp
  have c1: "x < 403059600 \<Longrightarrow> 403059600 \<le> y \<Longrightarrow> 3600 < y - x"
    using overnight_crossing[of b a 3600 d 4665] assms unfolding xy x_def y_def by simp
  have c2: "x < 1224990000 \<Longrightarrow> 1224990000 \<le> y \<Longrightarrow> 3600 < y - x"
    using overnight_crossing[of b a 10800 d 14178] assms unfolding xy x_def y_def by simp
  have pos: "0 < y - x" "y - x < 86400" using assms unfolding xy by simp_all
  have "x * 1000000 - utcoffset MAURITIUS_TZ (x * 1000000)
      < y * 1000000 - utcoffset MAURITIUS_TZ (y * 1000000)"
    unfolding utcoffset_mauritius nonzero_mult_div_cancel_right
    using c0 c1 c2 pos by (auto split: if_splits)
  then show ?thesis unfolding x_def y_def .
qed


section \<open>Change detection: frame and idempotence\<close>


definition stored_fields :: "outage_row \<Rightarrow> string \<times> string \<times> string \<times> string \<times> string \<times> instant \<times> instant \<times> instant" where
  "stored_fields r =
     (outage_id r, locality r, district r, streets r, date_description r,
      from_time r, to_time r, first_seen r)"

lemma touch_stored_fields:
  "map stored_fields (touch_last_checked now k rs) = map stored_fields rs"
  by (induction rs) (simp_all add: stored_fields_def)

lemma touch_length: "length (touch_last_checked now k rs) = length rs"
  by (induction rs) simp_all

lemma touch_find:
  "find (\<lambda>r. outage_id r = k) rs = Some r \<Longrightarrow>
   find (\<lambda>r. outage_id r = k) (touch_last_checked now k rs) = Some (r\<lparr>last_checked := now\<rparr>)"
  by (induction rs) (auto split: if_splits)

lemma touch_ids: "map outage_id (touch_last_checked now k rs) = map outage_id rs"
  by (induction rs) simp_all

lemma process_outage_known:
  assumes "d ''id'' = Some k" "k \<noteq> []" "query_outage db k = Some r"
  shows "process_outage f now d (db, new) =
           (db\<lparr>outages := touch_last_checked now k (outages db)\<rparr>, new)"
  using assms by (simp add: process_outage_def)

lemma process_outage_frame:
  "map stored_fields (take (length (outages db)) (outages (fst (process_outage f now d (db, new)))))
     = map stored_fields (outages db)"
  by (auto simp: process_outage_def touch_stored_fields touch_length split: option.splits)

lemma process_outage_length:
  "length (outages db) \<le> length (outages (fst (process_outage f now d (db, new))))"
  by (auto simp: process_outage_def touch_length split: option.splits)

lemma process_outage_others:
  "users (fst (process_outage f now d (db, new))) = users db \<and>
   localities (fst (process_outage f now d (db, new))) = localities db \<and>
   subscriptions (fst (process_outage f now d (db, new))) = subscriptions db \<and>
   notifications_sent (fst (process_outage f now d (db, new))) = notifications_sent db"
  by (auto simp: process_outage_def split: option.splits)

lemma process_loop_frame:
  "map stored_fields (take (length (outages (fst st))) (outages (fst (process_loop f now ds st))))
     = map stored_fields (outages (fst st)) \<and>
   length (outages (fst st)) \<le> length (outages (fst (process_loop f now ds st)))"
proof (induction ds arbitrary: st)
  case Nil
  then show ?case by simp
next
  case (Cons d ds)
  obtain db new where st: "st = (db, new)" by (cases st)
  let ?st1 = "process_outage f now d (db, new)"
  have l1: "length (outages db) \<le> length (outages (fst ?st1))"
    by (rule process_outage_length)
  have f1: "map stored_fields (take (length (outages db)) (outages (fst ?st1))) = map stored_fields (outages db)"
    by (rule process_outage_frame)
  from Cons.IH[of ?st1]
  have ih: "map stored_fields (take (length (outages (fst ?st1))) (outages (fst (process_loop f now ds ?st1))))
     = map stored_fields (outages (fst ?st1))"
    and l2: "length (outages (fst ?st1)) \<le> length (outages (fst (process_loop f now ds ?st1)))"
    by simp_all
  have "map stored_fields (take (length (outages db)) (outages (fst (process_loop f now ds ?st1))))
      = take (length (outages db)) (map stored_fields (take (length (outages (fst ?st1))) (outages (fst (process_loop f now ds ?st1)))))"
    using l1 by (simp add: take_map min_def)
  also have "\<dots> = take (length (outages db)) (map stored_fields (outages (fst ?st1)))"
    by (simp only: ih)
  also have "\<dots> = map stored_fields (outages db)"
    using f1 by (simp add: take_map)
  finally show ?case using l1 l2 by (simp add: st)
qed


definition stored_ids :: "database \<Rightarrow> string set" where
  "stored_ids db = outage_id ` set (outages db)"

lemma query_outage_None: "query_outage db k = None \<longleftrightarrow> k \<notin> stored_ids db"
  by (auto simp: query_outage_def stored_ids_def find_None_iff)

lemma new_outage_clock:
  "new_outage f now k d = None \<Longrightarrow> new_outage f now' k d = None"
  by (auto simp: new_outage_def split: option.splits)

definition settled :: "isoparser \<Rightarrow> database \<Rightarrow> outage_data \<Rightarrow> bool" where
  "settled f db d =
     (case d ''id'' of None \<Rightarrow> True
      | Some k \<Rightarrow> k = [] \<or> k \<in> stored_ids db \<or> new_outage f 0 k d = None)"

lemma stored_ids_step:
  "stored_ids db \<subseteq> stored_ids (fst (process_outage f now d (db, new)))"
proof -
  have "outage_id ` set (touch_last_checked now k rs) = outage_id ` set rs" for k rs
    using touch_ids[of now k rs] by (metis set_map)
  then show ?thesis
    by (auto simp: process_outage_def stored_ids_def split: option.splits)
qed

lemma step_settles: "settled f (fst (process_outage f now d (db, new))) d"
proof (cases "d ''id''")
  case None
  then show ?thesis by (simp add: settled_def)
next
  case (Some k)
  show ?thesis
  proof (cases "k = []")
    case True
    with Some show ?thesis by (simp add: settled_def)
  next
    case False
    show ?thesis
    proof (cases "query_outage db k")
      case None
      show ?thesis
      proof (cases "new_outage f now k d")
        case None
        then have "new_outage f 0 k d = None" by (rule new_outage_clock)
        with Some show ?thesis by (simp add: settled_def)
      next
        case (Some r)
        then have "outage_id r = k"
          by (auto simp: new_outage_def split: option.splits)
        with Some \<open>d ''id'' = Some k\<close> False None show ?thesis
          by (simp add: settled_def process_outage_def stored_ids_def)
      qed
    next
      case (Some r)
      then have "k \<in> stored_ids db" using query_outage_None[of db k] by simp
      then have "k \<in> stored_ids (fst (process_outage f now d (db, new)))"
        using stored_ids_step by blast
      with \<open>d ''id'' = Some k\<close> show ?thesis by (simp add: settled_def)
    qed
  qed
qed

lemma step_keeps_settled:
  "settled f db d' \<Longrightarrow> settled f (fst (process_outage f now d (db, new))) d'"
  using stored_ids_step[of db f now d new]
  by (auto simp: settled_def split: option.splits)

lemma settled_no_new:
  "settled f db d \<Longrightarrow> snd (process_outage f now d (db, new)) = new"
  using query_outage_None[of db]
  by (auto simp: settled_def process_outage_def split: option.splits
           dest: new_outage_clock[where now' = now])

lemma loop_keeps_settled:
  "settled f (fst st) d' \<Longrightarrow> settled f (fst (process_loop f now ds st)) d'"
proof (induction ds arbitrary: st)
  case Nil
  then show ?case by simp
next
  case (Cons d ds)
  obtain db new where st: "st = (db, new)" by (cases st)
  from Cons.prems have "settled f (fst (process_outage f now d (db, new))) d'"
    by (simp add: st step_keeps_settled)
  then show ?case using Cons.IH by (simp add: st)
qed

lemma loop_settles:
  "d \<in> set ds \<Longrightarrow> settled f (fst (process_loop f now ds st)) d"
proof (induction ds arbitrary: st)
  case Nil
  then show ?case by simp
next
  case (Cons x xs)
  obtain db new where st: "st = (db, new)" by (cases st)
  show ?case
  proof (cases "d = x")
    case True
    have "settled f (fst (process_outage f now x (db, new))) d"
      unfolding True by (rule step_settles)
    then show ?thesis using loop_keeps_settled by (simp add: st)
  next
    case False
    with Cons.prems have "d \<in> set xs" by simp
    then show ?thesis using Cons.IH by (simp add: st)
  qed
qed

lemma loop_no_new:
  "(\<forall>d \<in> set ds. settled f (fst st) d) \<Longrightarrow> snd (process_loop f now ds st) = snd st"
proof (induction ds arbitrary: st)
  case Nil
  then show ?case by simp
next
  case (Cons x xs)
  obtain db new where st: "st = (db, new)" by (cases st)
  let ?st1 = "process_outage f now x (db, new)"
  have a: "snd ?st1 = new" using Cons.prems by (simp add: st settled_no_new)
  have "\<forall>d \<in> set xs. settled f (fst ?st1) d"
    using Cons.prems by (simp add: st step_keeps_settled)
  from Cons.IH[OF this] a show ?case by (simp add: st)
qed

lemma second_run_no_new:
  "snd (process_outages f now' data (fst (process_outages f now data db))) = []"
proof -
  have "\<forall>d \<in> set (all_outages data). settled f (fst (process_outages f now data db)) d"
    by (simp add: process_outages_def loop_settles)
  then show ?thesis
    using loop_no_new[of "all_outages data" f "(fst (process_outages f now data db), [])" now']
    by (simp add: process_outages_def)
qed

lemma classify_settled:
  "settled f db d \<Longrightarrow> classify f now db d \<noteq> New"
  by (auto simp: settled_def classify_def query_outage_None split: option.splits
           dest: new_outage_clock[where now' = now])

lemma classify_known:
  "settled f db d \<Longrightarrow> d ''id'' = Some k \<Longrightarrow> k \<noteq> [] \<Longrightarrow> new_outage f now0 k d \<noteq> None \<Longrightarrow>
   classify f now db d = Known"
  using query_outage_None[of db k]
  by (auto simp: settled_def classify_def split: option.splits
           dest: new_outage_clock[where now' = now0])


text \<open>\<open>classify\<close> names the branch that \<open>process_outage\<close> takes.\<close>

lemma process_outage_classify:
  "process_outage f now d (db, new) =
     (case classify f now db d of
        Missing_id \<Rightarrow> (db, new)
      | Creation_failed \<Rightarrow> (db, new)
      | Known \<Rightarrow>
          (db\<lparr>outages := touch_last_checked now (the (d ''id'')) (outages db)\<rparr>, new)
      | New \<Rightarrow>
          (db\<lparr>outages := outages db @ [the (new_outage f now (the (d ''id'')) d)]\<rparr>,
           new @ [the (d ''id'')]))"
  by (simp add: process_outage_def classify_def split: option.splits)

section \<open>Delivery failures: supporting facts\<close>


lemma mark_inactive_ids: "map telegram_id (mark_inactive u rs) = map telegram_id rs"
  by (induction rs) simp_all

lemma mark_inactive_elem:
  "r \<in> set (mark_inactive u rs) \<Longrightarrow> r \<in> set rs \<or> \<not> is_active r"
  by (induction rs) (auto split: if_splits)

lemma mark_inactive_done:
  "distinct (map telegram_id rs) \<Longrightarrow> r \<in> set (mark_inactive u rs) \<Longrightarrow>
   telegram_id r = u \<Longrightarrow> \<not> is_active r"
proof (induction rs)
  case Nil
  then show ?case by simp
next
  case (Cons x xs)
  show ?case
  proof (cases "telegram_id x = u")
    case True
    with Cons.prems show ?thesis by (auto simp: image_iff)
  next
    case False
    with Cons show ?thesis by auto
  qed
qed

lemma inactive_mark: "inactive db u \<Longrightarrow> inactive (db\<lparr>users := mark_inactive v (users db)\<rparr>) u"
  using mark_inactive_elem by (fastforce simp: inactive_def)

lemma inactive_not_selected:
  "inactive db u \<Longrightarrow> u \<notin> fst ` set (get_users_with_language_for_locality db name)"
  by (auto simp: inactive_def get_users_with_language_for_locality_def)

definition attempts_of_user :: "int \<Rightarrow> attempt list \<Rightarrow> attempt list" where
  "attempts_of_user u log = filter (\<lambda>a. att_user a = u) log"

definition excluded_rel :: "int \<Rightarrow> world \<Rightarrow> world \<Rightarrow> bool" where
  "excluded_rel u w w' =
     (inactive (fst w) u \<longrightarrow>
        inactive (fst w') u \<and> attempts_of_user u (snd w') = attempts_of_user u (snd w) \<and>
        (\<forall>k. recorded (fst w') u k = recorded (fst w) u k))"

lemma excluded_other_step:
  "fst ul \<noteq> u \<Longrightarrow> excluded_rel u w (notify_user gw now outage ul w)"
proof -
  assume ne: "fst ul \<noteq> u"
  obtain db log where w: "w = (db, log)" by (cases w)
  obtain v lang where ul: "ul = (v, lang)" by (cases ul)
  from ne have v: "v \<noteq> u" by (simp add: ul)
  have keep: "inactive db u \<Longrightarrow>
      inactive (db\<lparr>notifications_sent := notifications_sent db @ ns\<rparr>) u" for ns
    by (simp add: inactive_def)
  show ?thesis
    unfolding w ul excluded_rel_def notify_user_cases
    using v
    by (auto simp: attempts_of_user_def inactive_mark keep recorded_iff
        split: send_outcome.splits)
qed

lemma excluded_users:
  "u \<notin> fst ` set uls \<Longrightarrow> excluded_rel u w (notify_users gw now outage uls w)"
proof (induction uls arbitrary: w)
  case Nil
  show ?case by (simp add: excluded_rel_def)
next
  case (Cons ul uls)
  from Cons.prems have a: "excluded_rel u w (notify_user gw now outage ul w)"
    by (simp add: excluded_other_step)
  from Cons.prems have
    b: "excluded_rel u (notify_user gw now outage ul w)
          (notify_users gw now outage uls (notify_user gw now outage ul w))"
    by (simp add: Cons.IH)
  from a b show ?case by (simp add: excluded_rel_def)
qed

lemma excluded_outage:
  "excluded_rel u w
     (notify_users gw now outage
        (get_users_with_language_for_locality (fst w) (locality outage)) w)"
proof (cases "inactive (fst w) u")
  case True
  then show ?thesis by (simp add: excluded_users inactive_not_selected)
next
  case False
  then show ?thesis by (simp add: excluded_rel_def)
qed

lemma excluded_runs: "excluded_rel u w (dispatch_runs runs w)"
proof (rule lift_dispatch_runs)
  show "\<And>w. excluded_rel u w w" by (simp add: excluded_rel_def)
  show tr: "\<And>a b c. excluded_rel u a b \<Longrightarrow> excluded_rel u b c \<Longrightarrow> excluded_rel u a c"
    by (simp add: excluded_rel_def)
  show "\<And>gw now ks w. excluded_rel u w (send_notifications gw now ks w)"
  proof (rule lift_send_notifications)
    show "\<And>gw now outage w. excluded_rel u w
            (notify_users gw now outage
               (get_users_with_language_for_locality (fst w) (locality outage)) w)"
      by (rule excluded_outage)
    show "\<And>w. excluded_rel u w w" by (simp add: excluded_rel_def)
    show "\<And>a b c. excluded_rel u a b \<Longrightarrow> excluded_rel u b c \<Longrightarrow> excluded_rel u a c"
      by (rule tr)
  qed
qed

text \<open>
  After a permanent failure, the rest of the loop over targets that do not list the
  subscriber again, the rest of the invocation and every later invocation add nothing for
  the subscriber.
\<close>

lemma permanent_failure_rest:
  assumes unrec: "\<not> recorded db u (outage_id outage)"
    and fails: "gw (length log) u outage lang = Telegram_error e"
    and perm: "permanently_unreachable e"
    and ids: "distinct (map telegram_id (users db))"
    and once: "u \<notin> fst ` set rest"
  shows "attempts_of_user u
           (snd (dispatch_runs runs (send_notifications gw now ks
                   (notify_users gw now outage ((u, lang) # rest) (db, log)))))
         = attempts_of_user u log @
             [\<lparr>att_user = u, att_outage = outage_id outage, att_outcome = Telegram_error e\<rparr>]"
    and "inactive
           (fst (dispatch_runs runs (send_notifications gw now ks
                   (notify_users gw now outage ((u, lang) # rest) (db, log))))) u"
    and "\<not> recorded
           (fst (dispatch_runs runs (send_notifications gw now ks
                   (notify_users gw now outage ((u, lang) # rest) (db, log)))))
           u (outage_id outage)"
proof -
  let ?a = "\<lparr>att_user = u, att_outage = outage_id outage, att_outcome = Telegram_error e\<rparr>"
  let ?w1 = "(db\<lparr>users := mark_inactive u (users db)\<rparr>, log @ [?a])"
  let ?w2 = "notify_users gw now outage rest ?w1"
  let ?w3 = "dispatch_runs ((gw, now, ks) # runs) ?w2"
  have step: "notify_user gw now outage (u, lang) (db, log) = ?w1"
    unfolding notify_user_cases using unrec fails perm by simp
  have i1: "inactive (fst ?w1) u"
    using mark_inactive_done[OF ids] by (auto simp: inactive_def)
  have r1: "\<not> recorded (fst ?w1) u (outage_id outage)"
    using unrec by (simp add: recorded_iff)
  have a1: "attempts_of_user u (snd ?w1) = attempts_of_user u log @ [?a]"
    by (simp add: attempts_of_user_def)
  have e2: "excluded_rel u ?w1 ?w2"
    using once by (rule excluded_users)
  have e3: "excluded_rel u ?w2 ?w3"
    by (rule excluded_runs)
  from i1 e2 e3 have all: "inactive (fst ?w3) u"
    "attempts_of_user u (snd ?w3) = attempts_of_user u (snd ?w1)"
    "recorded (fst ?w3) u (outage_id outage) = recorded (fst ?w1) u (outage_id outage)"
    unfolding excluded_rel_def by simp_all
  have w3: "dispatch_runs runs (send_notifications gw now ks
              (notify_users gw now outage ((u, lang) # rest) (db, log))) = ?w3"
    by (simp add: step)
  show "attempts_of_user u
           (snd (dispatch_runs runs (send_notifications gw now ks
                   (notify_users gw now outage ((u, lang) # rest) (db, log)))))
         = attempts_of_user u log @ [?a]"
    unfolding w3 using all(2) a1 by simp
  show "inactive
           (fst (dispatch_runs runs (send_notifications gw now ks
                   (notify_users gw now outage ((u, lang) # rest) (db, log))))) u"
    unfolding w3 by (rule all(1))
  show "\<not> recorded
           (fst (dispatch_runs runs (send_notifications gw now ks
                   (notify_users gw now outage ((u, lang) # rest) (db, log)))))
           u (outage_id outage)"
    unfolding w3 using all(3) r1 by simp
qed

text \<open>Progress for a selected subscriber.\<close>

definition progress_rel :: "int \<Rightarrow> string \<Rightarrow> world \<Rightarrow> world \<Rightarrow> bool" where
  "progress_rel v k w w' =
     (length (attempts_to v k (snd w)) \<le> length (attempts_to v k (snd w')) \<and>
      length (deliveries_to v k (snd w)) \<le> length (deliveries_to v k (snd w')) \<and>
      (recorded (fst w) v k \<longrightarrow> recorded (fst w') v k) \<and>
      (recorded (fst w') v k \<longrightarrow>
         recorded (fst w) v k \<or>
         (length (attempts_to v k (snd w)) < length (attempts_to v k (snd w')) \<and>
          length (deliveries_to v k (snd w)) < length (deliveries_to v k (snd w')))))"

lemma progress_refl: "progress_rel v k w w"
  by (simp add: progress_rel_def)

lemma progress_trans:
  "progress_rel v k a b \<Longrightarrow> progress_rel v k b c \<Longrightarrow> progress_rel v k a c"
  unfolding progress_rel_def by (elim conjE, intro conjI) (linarith, linarith, blast, force)

lemma progress_step: "progress_rel v k w (notify_user gw now outage ul w)"
proof -
  obtain db log where w: "w = (db, log)" by (cases w)
  obtain x lang where ul: "ul = (x, lang)" by (cases ul)
  show ?thesis
    unfolding w ul progress_rel_def notify_user_cases
    by (auto simp: recorded_iff attempts_to_def deliveries_to_def split: send_outcome.splits)
qed

lemma progress_users: "progress_rel v k w (notify_users gw now outage uls w)"
  by (rule lift_notify_users) (auto simp: progress_step progress_refl intro: progress_trans)

lemma target_step:
  "recorded (fst (notify_user gw now outage (v, lang) w)) v (outage_id outage) \<or>
   length (attempts_to v (outage_id outage) (snd w))
     < length (attempts_to v (outage_id outage) (snd (notify_user gw now outage (v, lang) w)))"
proof -
  obtain db log where w: "w = (db, log)" by (cases w)
  show ?thesis
    unfolding w notify_user_cases
    by (auto simp: recorded_iff attempts_to_def split: send_outcome.splits)
qed

lemma target_attempted:
  "(v, lang) \<in> set uls \<Longrightarrow>
   recorded (fst (notify_users gw now outage uls w)) v (outage_id outage) \<or>
   length (attempts_to v (outage_id outage) (snd w))
     < length (attempts_to v (outage_id outage) (snd (notify_users gw now outage uls w)))"
proof (induction uls arbitrary: w)
  case Nil
  then show ?case by simp
next
  case (Cons ul uls)
  let ?w1 = "notify_user gw now outage ul w"
  have p1: "progress_rel v (outage_id outage) w ?w1" by (rule progress_step)
  have p2: "progress_rel v (outage_id outage) ?w1 (notify_users gw now outage uls ?w1)"
    by (rule progress_users)
  show ?case
  proof (cases "ul = (v, lang)")
    case True
    from target_step[of gw now outage v lang w] p2 show ?thesis
      unfolding True progress_rel_def by auto
  next
    case False
    with Cons.prems have "(v, lang) \<in> set uls" by simp
    from Cons.IH[OF this, of ?w1] p1 show ?thesis
      unfolding progress_rel_def by auto
  qed
qed

lemma others_attempted:
  assumes "(v, lang) \<in> set uls" and "\<not> recorded (fst w) v (outage_id outage)"
  shows "length (attempts_to v (outage_id outage) (snd w))
     < length (attempts_to v (outage_id outage) (snd (notify_users gw now outage uls w)))"
  using target_attempted[OF assms(1), of gw now outage w] assms(2)
    progress_users[of v "outage_id outage" w gw now outage uls]
  unfolding progress_rel_def by auto

lemma target_recorded_step:
  "gw (length (snd w)) v outage lang = Delivered \<Longrightarrow>
   recorded (fst (notify_user gw now outage (v, lang) w)) v (outage_id outage)"
proof -
  assume g: "gw (length (snd w)) v outage lang = Delivered"
  obtain db log where w: "w = (db, log)" by (cases w)
  from g show ?thesis
    unfolding w notify_user_cases by (auto simp: recorded_iff)
qed

lemma target_recorded:
  "(\<forall>n l. gw n v outage l = Delivered) \<Longrightarrow> (v, lang) \<in> set uls \<Longrightarrow>
   recorded (fst (notify_users gw now outage uls w)) v (outage_id outage)"
proof (induction uls arbitrary: w)
  case Nil
  then show ?case by simp
next
  case (Cons ul uls)
  let ?w1 = "notify_user gw now outage ul w"
  have p2: "progress_rel v (outage_id outage) ?w1 (notify_users gw now outage uls ?w1)"
    by (rule progress_users)
  show ?case
  proof (cases "ul = (v, lang)")
    case True
    from Cons.prems(1) have "recorded (fst ?w1) v (outage_id outage)"
      unfolding True by (simp add: target_recorded_step)
    with p2 show ?thesis unfolding progress_rel_def by simp
  next
    case False
    with Cons.prems have "(v, lang) \<in> set uls" by simp
    from Cons.IH[OF Cons.prems(1) this, of ?w1] show ?thesis by simp
  qed
qed

lemma budget_users:
  "budget u k (notify_users gw now outage uls w) \<le> budget u k w"
  by (rule lift_notify_users[where R = "\<lambda>w w'. budget u k w' \<le> budget u k w"])
     (auto simp: budget_step)

lemma others_delivered:
  assumes "\<forall>n l. gw n v outage l = Delivered" and "(v, lang) \<in> set uls"
    and "\<not> recorded (fst w) v (outage_id outage)"
  shows "recorded (fst (notify_users gw now outage uls w)) v (outage_id outage) \<and>
         length (deliveries_to v (outage_id outage) (snd (notify_users gw now outage uls w)))
           = length (deliveries_to v (outage_id outage) (snd w)) + 1"
proof -
  let ?w' = "notify_users gw now outage uls w"
  have r: "recorded (fst ?w') v (outage_id outage)"
    using assms(1,2) by (rule target_recorded)
  have "progress_rel v (outage_id outage) w ?w'" by (rule progress_users)
  with r assms(3) have lo: "length (deliveries_to v (outage_id outage) (snd w))
      < length (deliveries_to v (outage_id outage) (snd ?w'))"
    unfolding progress_rel_def by auto
  have "budget v (outage_id outage) ?w' \<le> budget v (outage_id outage) w"
    by (rule budget_users)
  with r assms(3) have hi: "length (deliveries_to v (outage_id outage) (snd ?w'))
      \<le> length (deliveries_to v (outage_id outage) (snd w)) + 1"
    by (simp add: budget_def)
  from r lo hi show ?thesis by simp
qed

text \<open>Dispatch leaves the table of outages alone, so a second run finds nothing new.\<close>

lemma outages_step: "outages (fst (notify_user gw now outage ul w)) = outages (fst w)"
proof -
  obtain db log where w: "w = (db, log)" by (cases w)
  obtain x lang where ul: "ul = (x, lang)" by (cases ul)
  show ?thesis
    unfolding w ul notify_user_cases by (auto split: send_outcome.splits)
qed

lemma outages_send:
  "outages (fst (send_notifications gw now ks w)) = outages (fst w)"
proof (rule lift_send_notifications[where R = "\<lambda>w w'. outages (fst w') = outages (fst w)"])
  show "\<And>outage w. outages (fst (notify_users gw now outage
           (get_users_with_language_for_locality (fst w) (locality outage)) w)) = outages (fst w)"
    by (rule lift_notify_users[where R = "\<lambda>w w'. outages (fst w') = outages (fst w)"])
       (auto simp: outages_step)
qed auto

lemma settled_cong: "outages db' = outages db \<Longrightarrow> settled f db' d = settled f db d"
proof -
  assume "outages db' = outages db"
  then have "stored_ids db' = stored_ids db" by (simp add: stored_ids_def)
  then show ?thesis by (simp add: settled_def split: option.splits)
qed

lemma second_check_silent:
  "snd (check_for_outages f gw' now' reply (check_for_outages f gw now reply w))
     = snd (check_for_outages f gw now reply w)"
proof (cases "fetch_outages reply = []")
  case True
  then show ?thesis by (simp add: check_for_outages_def)
next
  case False
  let ?data = "fetch_outages reply"
  let ?w1 = "check_for_outages f gw now reply w"
  have o: "outages (fst ?w1) = outages (fst (process_outages f now ?data (fst w)))"
    using False
    by (auto simp: check_for_outages_def Let_def outages_send split: prod.splits)
  have "\<forall>d \<in> set (all_outages ?data). settled f (fst (process_outages f now ?data (fst w))) d"
    by (simp add: process_outages_def loop_settles)
  then have "\<forall>d \<in> set (all_outages ?data). settled f (fst ?w1) d"
    using settled_cong[OF o] by simp
  then have "snd (process_outages f now' ?data (fst ?w1)) = []"
    using loop_no_new[of "all_outages ?data" f "(fst ?w1, [])" now']
    by (simp add: process_outages_def)
  then show ?thesis
    using False by (auto simp: check_for_outages_def Let_def split: prod.splits)
qed


section \<open>Serialization and digests decode uniquely\<close>


text \<open>Codes in which no code word is the beginning of another decode uniquely.\<close>

lemma concat_map_inj:
  assumes pc: "\<And>c c' r r'. enc c @ r = enc c' @ r' \<Longrightarrow> c = c' \<and> r = r'"
    and ne: "\<And>c. enc c \<noteq> []"
  shows "concat (map enc xs) = concat (map enc ys) \<Longrightarrow> xs = ys"
proof (induction xs arbitrary: ys)
  case Nil
  then show ?case using ne by (cases ys) auto
next
  case (Cons x xs)
  show ?case
  proof (cases ys)
    case Nil
    with Cons.prems show ?thesis using ne by auto
  next
    case (Cons y ys')
    with Cons.prems have "enc x @ concat (map enc xs) = enc y @ concat (map enc ys')" by simp
    from pc[OF this] Cons.IH[of ys'] Cons show ?thesis by simp
  qed
qed

lemma delimited_inj:
  assumes pc: "\<And>c c' r r'. enc c @ r = enc c' @ r' \<Longrightarrow> c = c' \<and> r = r'"
    and ne: "\<And>c. enc c \<noteq> [] \<and> hd (enc c) \<noteq> q"
  shows "concat (map enc xs) @ q # r = concat (map enc ys) @ q # r' \<Longrightarrow> xs = ys \<and> r = r'"
proof (induction xs arbitrary: ys)
  case Nil
  show ?case
  proof (cases ys)
    case Nil
    with Nil.prems show ?thesis by simp
  next
    case (Cons y ys')
    with Nil.prems have "q # r = enc y @ (concat (map enc ys') @ q # r')" by simp
    then have "hd (enc y) = q" using ne[of y] by (cases "enc y") auto
    with ne[of y] show ?thesis by simp
  qed
next
  case (Cons x xs)
  show ?case
  proof (cases ys)
    case Nil
    with Cons.prems have "enc x @ (concat (map enc xs) @ q # r) = q # r'" by simp
    then have "hd (enc x) = q" using ne[of x] by (cases "enc x") auto
    with ne[of x] show ?thesis by simp
  next
    case (Cons y ys')
    with Cons.prems
    have "enc x @ (concat (map enc xs) @ q # r) = enc y @ (concat (map enc ys') @ q # r')"
      by simp
    from pc[OF this] Cons.IH[of ys'] Cons show ?thesis by simp
  qed
qed

lemma of_char_hex_digit:
  "n < 16 \<Longrightarrow> (of_char (hex_digit n) :: nat) = (if n < 10 then 48 + n else 87 + n)"
  by (simp add: hex_digit_def)

lemma hex_digit_inj: "m < 16 \<Longrightarrow> n < 16 \<Longrightarrow> hex_digit m = hex_digit n \<Longrightarrow> m = n"
proof -
  assume m: "m < 16" and n: "n < 16" and e: "hex_digit m = hex_digit n"
  from e have "(of_char (hex_digit m) :: nat) = of_char (hex_digit n)" by simp
  with m n show ?thesis by (simp add: of_char_hex_digit split: if_splits)
qed

lemma hex_byte_inj: "hex_byte b = hex_byte b' \<Longrightarrow> b = b'"
proof -
  assume e: "hex_byte b = hex_byte b'"
  have lt: "unat x div 16 < 16" "unat x mod 16 < 16" for x :: byte
    using unsigned_less[of x, where 'a = nat] by simp_all
  from e have "unat b div 16 = unat b' div 16" "unat b mod 16 = unat b' mod 16"
    using hex_digit_inj lt by (auto simp: hex_byte_def)
  then have "unat b = unat b'"
    by (metis div_mult_mod_eq)
  then show ?thesis by (simp add: word_unat_eq_iff)
qed

lemma hexdigest_inj: "hexdigest bs = hexdigest bs' \<Longrightarrow> bs = bs'"
  unfolding hexdigest_def
proof (rule concat_map_inj[where enc = hex_byte])
  fix c c' :: byte and r r' :: string
  assume "hex_byte c @ r = hex_byte c' @ r'"
  then have "hex_byte c = hex_byte c' \<and> r = r'" by (simp add: hex_byte_def)
  then show "c = c' \<and> r = r'" using hex_byte_inj by blast
next
  fix c :: byte
  show "hex_byte c \<noteq> []" by (simp add: hex_byte_def)
qed

lemma byte_of_nat_inj:
  "m < 256 \<Longrightarrow> n < 256 \<Longrightarrow> (of_nat m :: byte) = of_nat n \<Longrightarrow> m = n"
proof -
  assume m: "m < 256" and n: "n < 256" and e: "(of_nat m :: byte) = of_nat n"
  from e have "unat (of_nat m :: byte) = unat (of_nat n :: byte)" by simp
  with m n show ?thesis by (simp add: unat_of_nat)
qed

lemma utf8_char_small:
  "(of_char c :: nat) < 128 \<Longrightarrow> utf8_char c = [of_nat (of_char c)]"
  by (simp add: utf8_char_def Let_def)

lemma utf8_char_big:
  "\<not> (of_char c :: nat) < 128 \<Longrightarrow>
   utf8_char c = [of_nat (192 + of_char c div 64), of_nat (128 + of_char c mod 64)]"
  by (simp add: utf8_char_def Let_def)

lemma utf8_char_prefix:
  "utf8_char c @ r = utf8_char c' @ r' \<Longrightarrow> c = c' \<and> r = r'"
proof -
  assume e: "utf8_char c @ r = utf8_char c' @ r'"
  let ?n = "of_char c :: nat" and ?n' = "of_char c' :: nat"
  have b: "?n < 256" "?n' < 256" by simp_all
  have d: "192 + ?n div 64 < 256" "128 + ?n mod 64 < 256"
          "192 + ?n' div 64 < 256" "128 + ?n' mod 64 < 256"
  proof -
    have "?n div 64 < 4" "?n' div 64 < 4"
      using b by (simp_all add: less_mult_imp_div_less)
    moreover have "?n mod 64 < 64" "?n' mod 64 < 64" by simp_all
    ultimately show "192 + ?n div 64 < 256" "128 + ?n mod 64 < 256"
          "192 + ?n' div 64 < 256" "128 + ?n' mod 64 < 256"
      by linarith+
  qed
  have "?n = ?n' \<and> r = r'"
  proof (cases "?n < 128")
    case True
    note small = True
    show ?thesis
    proof (cases "?n' < 128")
      case True
      from e have "[of_nat ?n :: byte] @ r = [of_nat ?n'] @ r'"
        by (simp only: utf8_char_small[OF small] utf8_char_small[OF True])
      then have "(of_nat ?n :: byte) = of_nat ?n'" and "r = r'"
        by (simp_all only: append.simps list.inject)
      with b show ?thesis using byte_of_nat_inj by blast
    next
      case False
      from e have "[of_nat ?n :: byte] @ r
          = [of_nat (192 + ?n' div 64), of_nat (128 + ?n' mod 64)] @ r'"
        by (simp only: utf8_char_small[OF small] utf8_char_big[OF False])
      then have "(of_nat ?n :: byte) = of_nat (192 + ?n' div 64)"
        by (simp only: append.simps list.inject)
      from byte_of_nat_inj[OF b(1) d(3) this] small show ?thesis by simp
    qed
  next
    case False
    note big = False
    show ?thesis
    proof (cases "?n' < 128")
      case True
      from e have "[of_nat (192 + ?n div 64), of_nat (128 + ?n mod 64)] @ r
          = [of_nat ?n' :: byte] @ r'"
        by (simp only: utf8_char_small[OF True] utf8_char_big[OF big])
      then have "(of_nat (192 + ?n div 64) :: byte) = of_nat ?n'"
        by (simp only: append.simps list.inject)
      from byte_of_nat_inj[OF d(1) b(2) this] True show ?thesis by simp
    next
      case False
      from e have "[of_nat (192 + ?n div 64), of_nat (128 + ?n mod 64)] @ r
          = [of_nat (192 + ?n' div 64), of_nat (128 + ?n' mod 64) :: byte] @ r'"
        by (simp only: utf8_char_big[OF False] utf8_char_big[OF big])
      then have "(of_nat (192 + ?n div 64) :: byte) = of_nat (192 + ?n' div 64)"
        and "(of_nat (128 + ?n mod 64) :: byte) = of_nat (128 + ?n' mod 64)" and rr: "r = r'"
        by (simp_all only: append.simps list.inject)
      then have "192 + ?n div 64 = 192 + ?n' div 64" "128 + ?n mod 64 = 128 + ?n' mod 64"
        using byte_of_nat_inj d by blast+
      then have "?n div 64 = ?n' div 64" "?n mod 64 = ?n' mod 64" by simp_all
      then have "?n = ?n'" by (metis div_mult_mod_eq)
      with rr show ?thesis by simp
    qed
  qed
  then show ?thesis by simp
qed

lemma utf8_encode_inj: "utf8_encode s = utf8_encode s' \<Longrightarrow> s = s'"
  unfolding utf8_encode_def
proof (rule concat_map_inj[where enc = utf8_char])
  show "\<And>c c' r r'. utf8_char c @ r = utf8_char c' @ r' \<Longrightarrow> c = c' \<and> r = r'"
    by (rule utf8_char_prefix)
  show "\<And>c. utf8_char c \<noteq> []" by (simp add: utf8_char_def Let_def)
qed

text \<open>The escapes of JSON strings.\<close>

definition escaped :: "char \<Rightarrow> bool" where
  "escaped c = (let n = (of_char c :: nat) in n = 34 \<or> n = 92 \<or> n < 32)"

lemma unescaped_char: "\<not> escaped c \<Longrightarrow> json_escape_char c = [c] \<and> c \<noteq> CHR 0x5C \<and> c \<noteq> CHR 0x22"
  by (auto simp: escaped_def json_escape_char_def Let_def)

text \<open>What follows the backslash, as code points.\<close>

definition escape_tail :: "nat \<Rightarrow> nat list" where
  "escape_tail n =
     (if n = 34 then [34] else if n = 92 then [92] else if n = 10 then [110]
      else if n = 13 then [114] else if n = 9 then [116] else if n = 8 then [98]
      else if n = 12 then [102]
      else [117, 48, 48, of_char (hex_digit (n div 16)), of_char (hex_digit (n mod 16))])"

lemma escaped_char:
  "escaped c \<Longrightarrow> map of_char (json_escape_char c) = 92 # escape_tail (of_char c)"
  by (auto simp: escaped_def json_escape_char_def escape_tail_def Let_def)

lemma escape_tail_prefix:
  assumes "m < 32 \<or> m = 34 \<or> m = 92" and "n < 32 \<or> n = 34 \<or> n = 92"
    and "escape_tail m @ r = escape_tail n @ r'"
  shows "m = n \<and> r = r'"
proof -
  have h: "(of_char (hex_digit (k div 16)) :: nat) = 48 + k div 16"
    "(of_char (hex_digit (k mod 16)) :: nat) = (if k mod 16 < 10 then 48 + k mod 16 else 87 + k mod 16)"
    if "k < 32" for k
    using that by (simp_all add: of_char_hex_digit)
  consider (named) "m \<in> {34, 92, 10, 13, 9, 8, 12}" | (hex) "m < 32" "m \<notin> {10, 13, 9, 8, 12}"
    using assms(1) by auto
  then show ?thesis
  proof cases
    case named
    consider (named') "n \<in> {34, 92, 10, 13, 9, 8, 12}" | (hex') "n < 32" "n \<notin> {10, 13, 9, 8, 12}"
      using assms(2) by auto
    then show ?thesis
    proof cases
      case named'
      with named assms(3) show ?thesis
        by (auto simp: escape_tail_def)
    next
      case hex'
      with named assms(3) show ?thesis
        by (auto simp: escape_tail_def split: if_splits)
    qed
  next
    case hex
    consider (named') "n \<in> {34, 92, 10, 13, 9, 8, 12}" | (hex') "n < 32" "n \<notin> {10, 13, 9, 8, 12}"
      using assms(2) by auto
    then show ?thesis
    proof cases
      case named'
      with hex assms(3) show ?thesis
        by (auto simp: escape_tail_def split: if_splits)
    next
      case hex'
      with hex assms(3) have e: "48 + m div 16 = 48 + n div 16"
        "(if m mod 16 < 10 then 48 + m mod 16 else 87 + m mod 16)
          = (if n mod 16 < 10 then 48 + n mod 16 else 87 + n mod 16)" and rr: "r = r'"
        by (auto simp: escape_tail_def h split: if_splits)
      from e(2) have "m mod 16 = n mod 16" by (auto split: if_splits)
      moreover from e(1) have "m div 16 = n div 16" by simp
      ultimately have "m = n" by (metis div_mult_mod_eq)
      with rr show ?thesis by simp
    qed
  qed
qed

lemma json_escape_char_prefix:
  assumes e: "json_escape_char c @ r = json_escape_char c' @ r'"
  shows "c = c' \<and> r = r'"
proof (cases "escaped c")
  case False
  note uc = unescaped_char[OF False]
  show ?thesis
  proof (cases "escaped c'")
    case False
    with uc e unescaped_char[OF False] show ?thesis by simp
  next
    case True
    from escaped_char[OF True] obtain t where "json_escape_char c' = CHR 0x5C # t"
      by (cases "json_escape_char c'") (auto simp: of_char_eq_iff[where 'a = nat, symmetric])
    with uc e show ?thesis by simp
  qed
next
  case True
  note ec = escaped_char[OF True]
  show ?thesis
  proof (cases "escaped c'")
    case False
    note uc = unescaped_char[OF False]
    from ec obtain t where "json_escape_char c = CHR 0x5C # t"
      by (cases "json_escape_char c") (auto simp: of_char_eq_iff[where 'a = nat, symmetric])
    with uc e show ?thesis by simp
  next
    case ec': True
    from e have "map of_char (json_escape_char c) @ map of_char r
        = map of_char (json_escape_char c') @ (map of_char r' :: nat list)"
      by (metis map_append)
    then have "escape_tail (of_char c) @ map of_char r
        = escape_tail (of_char c') @ (map of_char r' :: nat list)"
      by (simp add: ec escaped_char[OF ec'])
    moreover have "(of_char c :: nat) < 32 \<or> (of_char c :: nat) = 34 \<or> (of_char c :: nat) = 92"
      "(of_char c' :: nat) < 32 \<or> (of_char c' :: nat) = 34 \<or> (of_char c' :: nat) = 92"
      using True ec' by (auto simp: escaped_def Let_def)
    ultimately have "(of_char c :: nat) = of_char c' \<and> (map of_char r :: nat list) = map of_char r'"
      using escape_tail_prefix by blast
    then show ?thesis
      by (simp add: inj_on_def inj_map_eq_map[where f = "of_char :: char \<Rightarrow> nat"])
  qed
qed



lemma json_escape_char_head:
  "json_escape_char c \<noteq> [] \<and> hd (json_escape_char c) \<noteq> CHR 0x22"
  by (auto simp: json_escape_char_def Let_def)

lemma json_string_prefix:
  "json_string a @ r = json_string b @ r' \<Longrightarrow> a = b \<and> r = r'"
proof -
  assume "json_string a @ r = json_string b @ r'"
  then have "concat (map json_escape_char a) @ CHR 0x22 # r
      = concat (map json_escape_char b) @ CHR 0x22 # r'"
    by (simp add: json_string_def)
  then show ?thesis
    by (rule delimited_inj[where enc = json_escape_char, rotated 2])
       (auto simp: json_escape_char_head dest: json_escape_char_prefix)
qed

lemma json_dumps_inj:
  assumes "json_dumps d l s di = json_dumps d' l' s' di'"
  shows "d = d' \<and> l = l' \<and> s = s' \<and> di = di'"
proof -
  from assms have 1: "json_string d @ ('','' @ json_string ''locality'' @ '':'' @ json_string l @
       '','' @ json_string ''streets'' @ '':'' @ json_string s @
       '','' @ json_string ''district'' @ '':'' @ json_string di @ ''}'')
     = json_string d' @ ('','' @ json_string ''locality'' @ '':'' @ json_string l' @
       '','' @ json_string ''streets'' @ '':'' @ json_string s' @
       '','' @ json_string ''district'' @ '':'' @ json_string di' @ ''}'')"
    by (simp add: json_dumps_def)
  from json_string_prefix[OF 1] have dd: "d = d'"
    and 2: "json_string l @ ('','' @ json_string ''streets'' @ '':'' @ json_string s @
       '','' @ json_string ''district'' @ '':'' @ json_string di @ ''}'')
     = json_string l' @ ('','' @ json_string ''streets'' @ '':'' @ json_string s' @
       '','' @ json_string ''district'' @ '':'' @ json_string di' @ ''}'')"
    by simp_all
  from json_string_prefix[OF 2] have ll: "l = l'"
    and 3: "json_string s @ ('','' @ json_string ''district'' @ '':'' @ json_string di @ ''}'')
     = json_string s' @ ('','' @ json_string ''district'' @ '':'' @ json_string di' @ ''}'')"
    by simp_all
  from json_string_prefix[OF 3] have ss: "s = s'"
    and 4: "json_string di @ ''}'' = json_string di' @ ''}''"
    by simp_all
  from json_string_prefix[OF 4] dd ll ss show ?thesis by simp
qed

lemma serialization_inj:
  "utf8_encode (json_dumps d l s di) = utf8_encode (json_dumps d' l' s' di') \<Longrightarrow>
   d = d' \<and> l = l' \<and> s = s' \<and> di = di'"
  using json_dumps_inj utf8_encode_inj by blast

lemma md5_length: "length (md5 msg) = 16"
  by (simp add: md5_def bytes_of_word_def Let_def split: prod.splits)

lemma hex_digits: "map hex_digit [0..<16] = ''0123456789abcdef''"
  by code_simp

lemma hex_digit_range: "n < 16 \<Longrightarrow> hex_digit n \<in> set ''0123456789abcdef''"
proof -
  assume "n < 16"
  then have "hex_digit n \<in> set (map hex_digit [0..<16])" by simp
  then show ?thesis by (simp only: hex_digits)
qed

lemma hexdigest_shape:
  "length (hexdigest bs) = 2 * length bs \<and> set (hexdigest bs) \<subseteq> set ''0123456789abcdef''"
proof (induction bs)
  case Nil
  show ?case by (simp add: hexdigest_def)
next
  case (Cons b bs)
  have "unat b div 16 < 16" "unat b mod 16 < 16"
    using unsigned_less[of b, where 'a = nat] by simp_all
  then have "set (hex_byte b) \<subseteq> set ''0123456789abcdef''"
    using hex_digit_range by (simp add: hex_byte_def)
  moreover have "length (hex_byte b) = 2" by (simp add: hex_byte_def)
  ultimately show ?case using Cons by (simp add: hexdigest_def)
qed



text \<open>Infinitely many texts share finitely many digests.\<close>

lemma digest_collision:
  fixes g :: "string \<Rightarrow> byte list"
  shows "\<exists>s s'. s \<noteq> s' \<and> hexdigest (md5 (g s)) = hexdigest (md5 (g s'))"
proof (rule ccontr)
  assume "\<not> ?thesis"
  then have i: "inj (\<lambda>s. md5 (g s))" by (metis (mono_tags, lifting) injI)
  have "range (\<lambda>s. md5 (g s)) \<subseteq> {bs. set bs \<subseteq> (UNIV :: byte set) \<and> length bs = 16}"
    by (auto simp: md5_length)
  moreover have "finite {bs. set bs \<subseteq> (UNIV :: byte set) \<and> length bs = 16}"
    by (rule finite_lists_length_eq) simp
  ultimately have "finite (range (\<lambda>s. md5 (g s)))" by (rule finite_subset)
  with i have "finite (UNIV :: string set)" using finite_imageD by blast
  then show False using infinite_UNIV_listI by blast
qed

lemma escape_tail_range:
  assumes "n < 32" and "y \<in> set (escape_tail n)"
  shows "34 \<le> y \<and> y \<le> 117"
proof -
  have h: "(of_char (hex_digit k) :: nat) \<in> {48..102}" if "k < 16" for k
    using that by (auto simp: of_char_hex_digit)
  have "n div 16 < 16" "n mod 16 < 16" using assms(1) by simp_all
  then have "(of_char (hex_digit (n div 16)) :: nat) \<in> {48..102}"
    "(of_char (hex_digit (n mod 16)) :: nat) \<in> {48..102}"
    using h by blast+
  with assms(2) show ?thesis
    by (auto simp: escape_tail_def split: if_splits)
qed

lemma not_space_code: "34 \<le> (of_char x :: nat) \<Longrightarrow> (of_char x :: nat) \<le> 117 \<Longrightarrow> \<not> is_space x"
  by (simp add: is_space_def Let_def)

lemma json_escape_space:
  assumes "x \<in> set (json_escape_char c)" and "is_space x"
  shows "x = c"
proof (cases "escaped c")
  case False
  with assms(1) show ?thesis by (simp add: unescaped_char)
next
  case True
  from assms(1) have "(of_char x :: nat) \<in> set (map of_char (json_escape_char c))" by simp
  then have "(of_char x :: nat) = 92 \<or> (of_char x :: nat) \<in> set (escape_tail (of_char c))"
    by (simp add: escaped_char[OF True])
  moreover have "34 \<le> y \<and> y \<le> 117" if "y \<in> set (escape_tail (of_char c))" for y
  proof (cases "(of_char c :: nat) < 32")
    case True
    then show ?thesis using that by (rule escape_tail_range)
  next
    case False
    with \<open>escaped c\<close> have "(of_char c :: nat) = 34 \<or> (of_char c :: nat) = 92"
      by (auto simp: escaped_def Let_def)
    with that show ?thesis by (auto simp: escape_tail_def)
  qed
  ultimately have "34 \<le> (of_char x :: nat) \<and> (of_char x :: nat) \<le> 117" by auto
  with assms(2) show ?thesis using not_space_code by blast
qed

lemma json_string_space:
  assumes "x \<in> set (json_string v)" and "is_space x"
  shows "x \<in> set v"
proof -
  have "\<not> is_space (CHR 0x22)" by (simp add: is_space_def)
  with assms have "x \<in> set (concat (map json_escape_char v))"
    by (auto simp: json_string_def)
  then obtain c where "c \<in> set v" "x \<in> set (json_escape_char c)" by auto
  with assms(2) show ?thesis using json_escape_space by blast
qed

lemma json_dumps_space:
  assumes "x \<in> set (json_dumps d l s di)" and "is_space x"
  shows "x \<in> set d \<union> set l \<union> set s \<union> set di"
proof -
  have k: "y \<notin> set ''date'' \<and> y \<notin> set ''locality'' \<and> y \<notin> set ''streets'' \<and>
           y \<notin> set ''district'' \<and> y \<notin> set ''{},:''" if "is_space y" for y
  proof -
    from that have "(of_char y :: nat) \<le> 32 \<or> 133 \<le> (of_char y :: nat)"
      by (auto simp: is_space_def Let_def)
    then have "(of_char y :: nat) \<notin> of_char ` set ''datelocalityrsrc{},:''"
      by auto
    then show ?thesis by auto
  qed
  from assms(1) have "x \<in> set ''{},:'' \<or> x \<in> set (json_string ''date'')
      \<or> x \<in> set (json_string ''locality'') \<or> x \<in> set (json_string ''streets'')
      \<or> x \<in> set (json_string ''district'')
      \<or> x \<in> set (json_string d) \<or> x \<in> set (json_string l)
      \<or> x \<in> set (json_string s) \<or> x \<in> set (json_string di)"
    unfolding json_dumps_def set_append by auto
  with k[OF assms(2)] assms(2) json_string_space show ?thesis by blast
qed

section \<open>Example data\<close>

text \<open>The date of the spec's example; U+00E0 is the letter a with grave accent.\<close>

definition example_date :: string where
  "example_date = ''Le dimanche 13 mars 2022 de 09:30:00 '' @ [char_of (224 :: nat)] @ '' 13:00:00''"

lemma example_date_parsed:
  "parse_french_date example_date = Inr (Some (1647149400000000, 1647162000000000))"
  by code_simp

text \<open>A date whose end time of day is before its start.\<close>

definition overnight_date :: string where
  "overnight_date = ''Le jeudi 1 fevrier 2024 de 23:00:00 a 01:30:00''"

lemma overnight_date_fields:
  "parse_fields overnight_date = Some (2024, 2, 1, (23, 0, 0), (1, 30, 0))"
  by code_simp

lemma overnight_date_parsed:
  "parse_french_date overnight_date = Inr (Some (1706814000000000, 1706823000000000))"
  by code_simp

text \<open>A stored state with one outage and two subscribers of its locality.\<close>


definition example_outage :: outage_row where
  "example_outage =
     \<lparr>outage_id = ''af756731b35c3f72e68becc9840cdf0b'', locality = ''TAMARIN'',
      district = ''blackriver'', streets = ''AVE DES MARLINS'',
      date_description = example_date,
      from_time = 1647149400000000, to_time = 1647162000000000,
      first_seen = 0, last_checked = 0\<rparr>"

definition example_db :: database where
  "example_db =
     \<lparr>outages = [example_outage],
      users = [\<lparr>telegram_id = 7, username = None, language = Some ''fr'', is_active = True\<rparr>,
               \<lparr>telegram_id = 8, username = None, language = None, is_active = True\<rparr>],
      localities = [\<lparr>loc_id = 1, loc_name = ''TAMARIN'', loc_district_id = 1\<rparr>],
      subscriptions = [\<lparr>sub_user_id = 7, sub_locality_id = 1\<rparr>,
                       \<lparr>sub_user_id = 8, sub_locality_id = 1\<rparr>],
      notifications_sent = []\<rparr>"

definition always_delivered :: gateway where
  "always_delivered n u outage lang = Delivered"

lemmas example_simps =
  example_db_def example_outage_def always_delivered_def query_outage_def
  query_notification_def get_users_with_language_for_locality_def notify_user_def
  send_notification_to_user_def recorded_def attempts_to_def deliveries_to_def




text \<open>Items of the JSON feed: the example outage, and two items that cannot be stored.\<close>


definition example_item :: outage_data where
  "example_item =
     [''id'' \<mapsto> ''af756731b35c3f72e68becc9840cdf0b'',
      ''date'' \<mapsto> example_date,
      ''locality'' \<mapsto> ''TAMARIN'',
      ''streets'' \<mapsto> ''AVE DES MARLINS'',
      ''district'' \<mapsto> ''blackriver'',
      ''from'' \<mapsto> ''2022-03-13T05:30:00Z'',
      ''to'' \<mapsto> ''2022-03-13T09:00:00Z'']"

definition item_without_id :: outage_data where
  "item_without_id =
     [''date'' \<mapsto> example_date,
      ''locality'' \<mapsto> ''TAMARIN'',
      ''streets'' \<mapsto> ''AVE DES MARLINS'',
      ''district'' \<mapsto> ''blackriver'',
      ''from'' \<mapsto> ''2022-03-13T05:30:00Z'',
      ''to'' \<mapsto> ''2022-03-13T09:00:00Z'']"

definition item_without_from :: outage_data where
  "item_without_from =
     [''id'' \<mapsto> ''0123456789abcdef0123456789abcdef'',
      ''date'' \<mapsto> example_date,
      ''locality'' \<mapsto> ''TAMARIN'',
      ''streets'' \<mapsto> [],
      ''district'' \<mapsto> ''blackriver'']"

definition empty_db :: database where
  "empty_db = \<lparr>outages = [], users = [], localities = [], subscriptions = [],
               notifications_sent = []\<rparr>"

lemma iso_example:
  "fromisoformat_basic (replace_Z ''2022-03-13T05:30:00Z'') = Some 1647149400000000"
  "fromisoformat_basic (replace_Z ''2022-03-13T09:00:00Z'') = Some 1647162000000000"
  by code_simp+


text \<open>A scheduled run: the reply of the feed, the state before the outage is known,
  and gateways that fail once or for one subscriber.\<close>


definition subscribers_db :: database where
  "subscribers_db = example_db\<lparr>outages := []\<rparr>"

definition example_reply :: "feed option http_reply" where
  "example_reply = Response 200 (Some [(''today'', [example_item]), (''future'', [])])"

definition timeout_first :: gateway where
  "timeout_first n u outage lang = (if n = 0 then Telegram_error ''Timed out'' else Delivered)"

definition blocked_for_7 :: gateway where
  "blocked_for_7 n u outage lang =
     (if u = 7 then Telegram_error ''Forbidden: bot was blocked by the user'' else Delivered)"

lemma blocked_is_permanent:
  "permanently_unreachable ''Forbidden: bot was blocked by the user''"
  by code_simp

lemma timeout_is_transient: "\<not> permanently_unreachable ''Timed out''"
  by code_simp

lemma example_targets:
  "get_users_with_language_for_locality example_db ''TAMARIN'' = [(7, ''fr''), (8, ''en'')]"
  by (simp add: get_users_with_language_for_locality_def example_db_def)

lemma first_run:
  "check_for_outages fromisoformat_basic timeout_first 0 example_reply (subscribers_db, [])
     = (example_db\<lparr>notifications_sent :=
           [\<lparr>ns_user_id = 8, ns_outage_id = ''af756731b35c3f72e68becc9840cdf0b'', sent_at = 0\<rparr>]\<rparr>,
        [\<lparr>att_user = 7, att_outage = ''af756731b35c3f72e68becc9840cdf0b'',
           att_outcome = Telegram_error ''Timed out''\<rparr>,
         \<lparr>att_user = 8, att_outage = ''af756731b35c3f72e68becc9840cdf0b'',
           att_outcome = Delivered\<rparr>])"
  by (simp add: check_for_outages_def fetch_outages_def example_reply_def process_outages_def
      all_outages_def get_or_def process_outage_def example_item_def subscribers_db_def
      example_db_def example_outage_def query_outage_def new_outage_def iso_example
      get_users_with_language_for_locality_def notify_user_def send_notification_to_user_def
      query_notification_def timeout_first_def timeout_is_transient)


definition blocked_attempt :: attempt where
  "blocked_attempt =
     \<lparr>att_user = 7, att_outage = outage_id example_outage,
      att_outcome = Telegram_error ''Forbidden: bot was blocked by the user''\<rparr>"

definition deactivated_db :: database where
  "deactivated_db = example_db\<lparr>users := mark_inactive 7 (users example_db)\<rparr>"


text \<open>The raw record of the spec's fingerprint example, and its fingerprint.\<close>

definition example_raw :: outage_data where
  "example_raw =
     [''date'' \<mapsto> example_date, ''locality'' \<mapsto> ''TAMARIN'',
      ''streets'' \<mapsto> ''AVE DES MARLINS'', ''district'' \<mapsto> ''blackriver'']"

lemma example_fingerprint:
  "generate_outage_id example_raw = Inr ''af756731b35c3f72e68becc9840cdf0b''"
  by code_simp

lemma other_fingerprint:
  "generate_outage_id (example_raw(''streets'' \<mapsto> ''AVE DES DAUPHINS''))
     = Inr ''0416c24c9e96bcda80a31dcc3bc37484''"
  by code_simp


text \<open>
  Claim C1. For every pair of a subscriber \<open>u\<close> and an outage \<open>k\<close>, and every sequence
  of dispatch invocations (each with its own gateway behaviour and list of outage ids)
  started in any stored state: if a notification record for the pair exists, it
  still exists afterwards and no delivery to the pair is even attempted; the number of
  successful deliveries to the pair grows by at most one, and by none when the record
  exists; every record that the invocations add stands after a successful delivery to its
  pair in the trace; and a single pass of the loop body writes the record exactly when
  the delivery it has just attempted succeeded.
\<close>

theorem at_most_once_notification:
  "(recorded db u k \<longrightarrow>
      recorded (fst (dispatch_runs runs (db, log))) u k \<and>
      attempts_to u k (snd (dispatch_runs runs (db, log))) = attempts_to u k log) \<and>
   length (deliveries_to u k (snd (dispatch_runs runs (db, log))))
     \<le> length (deliveries_to u k log) + (if recorded db u k then 0 else 1) \<and>
   after_delivery (db, log) (dispatch_runs runs (db, log)) \<and>
   (\<not> recorded db u (outage_id outage) \<longrightarrow>
      (recorded (fst (notify_user gw now outage (u, lang) (db, log))) u (outage_id outage)
         \<longleftrightarrow> gw (length log) u outage lang = Delivered))"
proof -
  have a: "guard_rel u k (db, log) (dispatch_runs runs (db, log))"
    by (rule guard_runs)
  have b: "budget u k (dispatch_runs runs (db, log)) \<le> budget u k (db, log)"
    by (rule budget_runs)
  have c: "after_delivery (db, log) (dispatch_runs runs (db, log))"
    by (rule after_delivery_runs)
  have d: "\<not> recorded db u (outage_id outage) \<longrightarrow>
      (recorded (fst (notify_user gw now outage (u, lang) (db, log))) u (outage_id outage)
         \<longleftrightarrow> gw (length log) u outage lang = Delivered)"
    unfolding notify_user_cases
    by (auto simp: recorded_iff split: send_outcome.splits)
  from a b c d show ?thesis
    by (auto simp: guard_rel_def budget_def split: if_splits)
qed

theorem at_most_once_notification_witness:
  "recorded (fst (send_notifications always_delivered 0 [outage_id example_outage] (example_db, [])))
     7 (outage_id example_outage) \<and>
   attempts_to 7 (outage_id example_outage)
     (snd (dispatch_runs
        [(always_delivered, 1, [outage_id example_outage]),
         (always_delivered, 2, [outage_id example_outage])]
        (send_notifications always_delivered 0 [outage_id example_outage] (example_db, []))))
   = [\<lparr>att_user = 7, att_outage = outage_id example_outage, att_outcome = Delivered\<rparr>]"
  using at_most_once_notification
    [of "fst (send_notifications always_delivered 0 [outage_id example_outage] (example_db, []))"
        7 "outage_id example_outage"
        "[(always_delivered, 1, [outage_id example_outage]),
          (always_delivered, 2, [outage_id example_outage])]"
        "snd (send_notifications always_delivered 0 [outage_id example_outage] (example_db, []))"
        example_outage always_delivered 0 "''fr''"]
  by (simp add: example_simps)


section \<open>Date parsing: the example and overnight spans\<close>


definition seconds_of_day :: "int \<times> int \<times> int \<Rightarrow> int" where
  "seconds_of_day hms = (case hms of (h, m, s) \<Rightarrow> h * 3600 + m * 60 + s)"

text \<open>The reading of a time of day on the day with ordinal \<open>n\<close>.\<close>

definition reading :: "int \<Rightarrow> int \<times> int \<times> int \<Rightarrow> int" where
  "reading n hms = ((n - 719163) * 86400 + seconds_of_day hms) * 1000000"

definition dst_overnight_date :: string where
  "dst_overnight_date = ''Le mercredi 31 decembre 2008 de 22:00:00 a 02:00:00''"

lemma parse_fields_example:
  "parse_fields example_date = Some (2022, 3, 13, (9, 30, 0), (13, 0, 0))"
  by code_simp

text \<open>
  Claim C7. Parsing \<open>Le dimanche 13 mars 2022 de 09:30:00 a 13:00:00\<close> (its \<open>a\<close> before the
  end time carries a grave accent) returns the
  instants 1647149400 and 1647162000 seconds after the epoch, which are
  2022-03-13T05:30:00Z and 2022-03-13T09:00:00Z.
\<close>

theorem date_parsing_example:
  "parse_french_date example_date = Inr (Some (1647149400000000, 1647162000000000)) \<and>
   datetime 2022 3 13 5 30 0 = Some 1647149400000000 \<and>
   datetime 2022 3 13 9 0 0 = Some 1647162000000000"
  by code_simp

lemma datetime_decompose:
  assumes "datetime y m d hh mm ss = Some w"
  shows "w = reading (ymd2ord y m d) (hh, mm, ss)"
    and "0 \<le> seconds_of_day (hh, mm, ss)" and "seconds_of_day (hh, mm, ss) < 86400"
  using assms by (auto simp: datetime_def seconds_of_day_def reading_def split: if_splits)

text \<open>
  Claim C8, as stated, fails in the zone it names: the readings are converted with the
  offset that the zone \<open>Indian/Mauritius\<close> has at each of them, which is not always
  four hours. The span from 22:00 on 31 December 2008 to 02:00 lies in a season of
  daylight saving time; it is returned as 17:00Z to 21:00Z, five hours before the
  readings.
\<close>

theorem overnight_span_counterexample:
  "parse_french_date dst_overnight_date
     = Inr (Some (1230742800000000, 1230757200000000)) \<and>
   datetime 2008 12 31 17 0 0 = Some 1230742800000000 \<and>
   datetime 2008 12 31 21 0 0 = Some 1230757200000000 \<and>
   datetime 2008 12 31 22 0 0 = Some (1230742800000000 + 5 * 3600 * 1000000) \<and>
   datetime 2009 1 1 2 0 0 = Some (1230757200000000 + 5 * 3600 * 1000000)"
  unfolding dst_overnight_date_def by code_simp

text \<open>
  Claim C8, amended. When \<open>parse_french_date\<close> returns a pair of instants for a string
  whose fields are year, month, day and the two times of day, the start is the reading of
  the start time on that date, less the offset of the zone \<open>Indian/Mauritius\<close> at that
  reading. When the end time of day is less than the start time of day, the end is the
  reading of the end time on the following day, less the offset of the zone at that
  reading, and the end is after the start. (When it is not less, the end is the
  reading of the end time on the same date, converted alike.)
\<close>

theorem overnight_span:
  assumes fields: "parse_fields s = Some (year, month, day, from_hms, to_hms)"
    and result: "parse_french_date s = Inr (Some (f, t))"
  shows "f = reading (ymd2ord year month day) from_hms
               - utcoffset MAURITIUS_TZ (reading (ymd2ord year month day) from_hms) \<and>
         (seconds_of_day to_hms < seconds_of_day from_hms \<longrightarrow>
            t = reading (ymd2ord year month day + 1) to_hms
                  - utcoffset MAURITIUS_TZ (reading (ymd2ord year month day + 1) to_hms) \<and>
            reading (ymd2ord year month day + 1) to_hms
              = reading (ymd2ord year month day) to_hms + usec_per_day \<and>
            f < t) \<and>
         (\<not> seconds_of_day to_hms < seconds_of_day from_hms \<longrightarrow>
            t = reading (ymd2ord year month day) to_hms
                  - utcoffset MAURITIUS_TZ (reading (ymd2ord year month day) to_hms))"
proof -
  obtain fh fm fs where fhms: "from_hms = (fh, fm, fs)" by (cases from_hms)
  obtain th tm ts where thms: "to_hms = (th, tm, ts)" by (cases to_hms)
  define n where "n = ymd2ord year month day"
  from result fields obtain ft tt where
    ft: "datetime year month day fh fm fs = Some ft" and
    tt: "datetime year month day th tm ts = Some tt"
    by (auto simp: parse_french_date_def fhms thms split: option.splits)
  note dft = datetime_decompose[OF ft, folded n_def fhms]
    and dtt = datetime_decompose[OF tt, folded n_def thms]
  have lt: "tt < ft \<longleftrightarrow> seconds_of_day to_hms < seconds_of_day from_hms"
    unfolding dft(1) dtt(1) by (simp add: reading_def)
  have next_day: "reading (n + 1) to_hms = reading n to_hms + usec_per_day"
    by (simp add: reading_def usec_per_day_def algebra_simps)
  from result fields ft tt have f: "f = ft - utcoffset MAURITIUS_TZ ft"
    and t: "t = (if tt < ft then tt + usec_per_day else tt)
                 - utcoffset MAURITIUS_TZ (if tt < ft then tt + usec_per_day else tt)"
    by (auto simp: parse_french_date_def fhms thms add_one_day_def astimezone_def fromutc_def
          wall_clock_utc Let_def split: option.splits if_splits sum.splits)
  have order: "f < t" if "seconds_of_day to_hms < seconds_of_day from_hms"
  proof -
    from that lt have o: "tt < ft" by simp
    have "(((n - 719163) * 86400 + seconds_of_day from_hms) * 1000000)
             - utcoffset MAURITIUS_TZ (((n - 719163) * 86400 + seconds_of_day from_hms) * 1000000)
        < (((n - 719163 + 1) * 86400 + seconds_of_day to_hms) * 1000000)
             - utcoffset MAURITIUS_TZ (((n - 719163 + 1) * 86400 + seconds_of_day to_hms) * 1000000)"
      using dtt(2) that dft(3) by (rule overnight_order)
    moreover have "tt + usec_per_day = ((n - 719163 + 1) * 86400 + seconds_of_day to_hms) * 1000000"
      unfolding dtt(1) by (simp add: reading_def usec_per_day_def algebra_simps)
    moreover have "ft = ((n - 719163) * 86400 + seconds_of_day from_hms) * 1000000"
      unfolding dft(1) by (simp add: reading_def)
    ultimately show ?thesis unfolding f t using o by simp
  qed
  from f t lt order next_day dft(1) dtt(1) show ?thesis
    unfolding n_def[symmetric] by auto
qed

theorem overnight_span_witness:
  "parse_fields overnight_date = Some (2024, 2, 1, (23, 0, 0), (1, 30, 0)) \<and>
   parse_french_date overnight_date = Inr (Some (1706814000000000, 1706823000000000)) \<and>
   seconds_of_day (1, 30, 0) < seconds_of_day (23, 0, 0) \<and>
   ymd2ord 2024 2 1 = 738917 \<and>
   reading 738917 (23, 0, 0) = 1706828400000000 \<and>
   reading (738917 + 1) (1, 30, 0) = 1706837400000000 \<and>
   utcoffset MAURITIUS_TZ 1706828400000000 = 4 * 3600 * 1000000 \<and>
   utcoffset MAURITIUS_TZ 1706837400000000 = 4 * 3600 * 1000000 \<and>
   (1706814000000000 :: int)
     = reading (ymd2ord 2024 2 1) (23, 0, 0)
         - utcoffset MAURITIUS_TZ (reading (ymd2ord 2024 2 1) (23, 0, 0)) \<and>
   (1706823000000000 :: int)
     = reading (ymd2ord 2024 2 1 + 1) (1, 30, 0)
         - utcoffset MAURITIUS_TZ (reading (ymd2ord 2024 2 1 + 1) (1, 30, 0)) \<and>
   (1706814000000000 :: int) < 1706823000000000"
proof -
  have s: "seconds_of_day (1, 30, 0) < seconds_of_day (23, 0, 0)"
    by (simp add: seconds_of_day_def)
  have o: "ymd2ord 2024 2 1 = 738917"
    by (simp add: ymd2ord_def days_before_year_def days_before_month_def is_leap_def)
  have r: "reading 738917 (23, 0, 0) = 1706828400000000"
    "reading (738917 + 1) (1, 30, 0) = 1706837400000000"
    by (simp_all add: reading_def seconds_of_day_def)
  have u: "utcoffset MAURITIUS_TZ 1706828400000000 = 4 * 3600 * 1000000"
    "utcoffset MAURITIUS_TZ 1706837400000000 = 4 * 3600 * 1000000"
    by (simp_all add: utcoffset_mauritius)
  from overnight_span[OF overnight_date_fields overnight_date_parsed] s o r u
    overnight_date_fields overnight_date_parsed
  show ?thesis by simp
qed

section \<open>Known records are only touched\<close>

text \<open>
  Claim C4. When an item of the snapshot carries an id that storage already holds, the
  detection step returns the same list of new ids and changes the database in one
  place: the row found for the id gets the clock reading as its \<open>last_checked\<close>. The id,
  locality, district, streets, date description, start, end and first-seen fields of
  every row are as before, rows with another id are untouched, and no other table
  changes. Over a whole snapshot, every row that storage held before the step keeps
  those fields.
\<close>

theorem known_record_frame:
  assumes "d ''id'' = Some k" and "k \<noteq> []" and "query_outage db k = Some r"
  shows "process_outage f now d (db, new)
           = (db\<lparr>outages := touch_last_checked now k (outages db)\<rparr>, new) \<and>
         query_outage (db\<lparr>outages := touch_last_checked now k (outages db)\<rparr>) k
           = Some (r\<lparr>last_checked := now\<rparr>) \<and>
         map stored_fields (touch_last_checked now k (outages db))
           = map stored_fields (outages db) \<and>
         filter (\<lambda>x. outage_id x \<noteq> k) (touch_last_checked now k (outages db))
           = filter (\<lambda>x. outage_id x \<noteq> k) (outages db) \<and>
         map stored_fields
           (take (length (outages db)) (outages (fst (process_outages f now data db))))
           = map stored_fields (outages db)"
proof -
  have a: "process_outage f now d (db, new)
           = (db\<lparr>outages := touch_last_checked now k (outages db)\<rparr>, new)"
    using assms by (rule process_outage_known)
  have b: "query_outage (db\<lparr>outages := touch_last_checked now k (outages db)\<rparr>) k
           = Some (r\<lparr>last_checked := now\<rparr>)"
    using assms(3) touch_find[of k "outages db" r now] by (simp add: query_outage_def)
  have c: "filter (\<lambda>x. outage_id x \<noteq> k) (touch_last_checked now k rs)
           = filter (\<lambda>x. outage_id x \<noteq> k) rs" for rs
    by (induction rs) simp_all
  have e: "map stored_fields
           (take (length (outages db)) (outages (fst (process_outages f now data db))))
           = map stored_fields (outages db)"
    using process_loop_frame[of "(db, [])" f now "all_outages data"]
    by (simp add: process_outages_def)
  from a b c e show ?thesis by (simp add: touch_stored_fields)
qed

theorem known_record_frame_witness:
  "example_item ''id'' = Some (outage_id example_outage) \<and>
   outage_id example_outage \<noteq> [] \<and>
   query_outage example_db (outage_id example_outage) = Some example_outage \<and>
   process_outage fromisoformat_basic 5 example_item (example_db, [])
     = (example_db\<lparr>outages := [example_outage\<lparr>last_checked := 5\<rparr>]\<rparr>, [])"
proof -
  have a: "example_item ''id'' = Some (outage_id example_outage)"
    by (simp add: example_item_def example_outage_def)
  have b: "outage_id example_outage \<noteq> []" by (simp add: example_outage_def)
  have c: "query_outage example_db (outage_id example_outage) = Some example_outage"
    by (simp add: query_outage_def example_db_def)
  from known_record_frame[where d = example_item and k = "outage_id example_outage"
      and db = example_db and r = example_outage and f = fromisoformat_basic and now = 5
      and new = "[]" and data = "[]"] a b c
  show ?thesis by (simp add: example_db_def)
qed


section \<open>Detection is idempotent\<close>

text \<open>
  Claim C3, as stated, fails: an item without an id, or one whose creation raises, is
  not classified as already known by the second run.
\<close>

theorem detection_idempotence_counterexample:
  "classify fromisoformat_basic 1
      (fst (process_outages fromisoformat_basic 0
              [(''today'', [item_without_id, item_without_from]), (''future'', [])] empty_db))
      item_without_id = Missing_id \<and>
   classify fromisoformat_basic 1
      (fst (process_outages fromisoformat_basic 0
              [(''today'', [item_without_id, item_without_from]), (''future'', [])] empty_db))
      item_without_from = Creation_failed"
  by (simp add: classify_def process_outages_def all_outages_def get_or_def
      process_outage_def item_without_id_def item_without_from_def empty_db_def
      query_outage_def new_outage_def)

text \<open>
  Claim C3, amended. For every snapshot, stored state and pair of clock readings, the
  detection step run a second time on the snapshot, against the state the first run
  left, returns no new id, and classifies no item as new; it classifies as already known
  every item that carries a non-empty id and whose creation does not raise. (The
  remaining items, without an id or with a creation that raises, are covered by the
  first part: they are not classified as new.)
\<close>

theorem detection_idempotence:
  "snd (process_outages f now' data (fst (process_outages f now data db))) = [] \<and>
   (\<forall>d \<in> set (all_outages data).
      classify f now' (fst (process_outages f now data db)) d \<noteq> New \<and>
      (\<forall>k. d ''id'' = Some k \<and> k \<noteq> [] \<and> new_outage f now k d \<noteq> None \<longrightarrow>
           classify f now' (fst (process_outages f now data db)) d = Known))"
proof -
  have s: "\<forall>d \<in> set (all_outages data). settled f (fst (process_outages f now data db)) d"
    by (simp add: process_outages_def loop_settles)
  show ?thesis
    using s second_run_no_new[of f now' data now db]
    by (auto simp: classify_settled intro: classify_known)
qed

theorem detection_idempotence_witness:
  "example_item \<in> set (all_outages [(''today'', [example_item, item_without_id]), (''future'', [])]) \<and>
   example_item ''id'' = Some ''af756731b35c3f72e68becc9840cdf0b'' \<and>
   new_outage fromisoformat_basic 0 ''af756731b35c3f72e68becc9840cdf0b'' example_item \<noteq> None \<and>
   snd (process_outages fromisoformat_basic 0
          [(''today'', [example_item, item_without_id]), (''future'', [])] empty_db)
     = [''af756731b35c3f72e68becc9840cdf0b''] \<and>
   snd (process_outages fromisoformat_basic 1
          [(''today'', [example_item, item_without_id]), (''future'', [])]
          (fst (process_outages fromisoformat_basic 0
                  [(''today'', [example_item, item_without_id]), (''future'', [])] empty_db)))
     = [] \<and>
   classify fromisoformat_basic 1
     (fst (process_outages fromisoformat_basic 0
             [(''today'', [example_item, item_without_id]), (''future'', [])] empty_db))
     example_item = Known"
proof -
  let ?data = "[(''today'', [example_item, item_without_id]), (''future'', [])]"
  have a: "example_item \<in> set (all_outages ?data)"
    by (simp add: all_outages_def get_or_def)
  have b: "example_item ''id'' = Some ''af756731b35c3f72e68becc9840cdf0b''"
    by (simp add: example_item_def)
  have c: "new_outage fromisoformat_basic 0 ''af756731b35c3f72e68becc9840cdf0b'' example_item \<noteq> None"
    by (simp add: new_outage_def example_item_def iso_example)
  have d: "snd (process_outages fromisoformat_basic 0 ?data empty_db)
             = [''af756731b35c3f72e68becc9840cdf0b'']"
    using c
    by (auto simp: process_outages_def all_outages_def get_or_def process_outage_def b
        item_without_id_def empty_db_def query_outage_def split: option.splits)
  from detection_idempotence[of fromisoformat_basic 1 ?data 0 empty_db] a b c d
  show ?thesis by auto
qed


section \<open>Delivery failures\<close>

text \<open>
  A subscriber of two localities that share their name, in two districts: the selection
  for an outage of that name has one row per subscription and lists the subscriber twice.
\<close>

definition twice_subscribed_db :: database where
  "twice_subscribed_db =
     example_db\<lparr>localities := localities example_db @
                    [\<lparr>loc_id = 2, loc_name = ''TAMARIN'', loc_district_id = 2\<rparr>],
                 subscriptions := subscriptions example_db @
                    [\<lparr>sub_user_id = 7, sub_locality_id = 2\<rparr>]\<rparr>"

text \<open>
  Claim C5, as stated, fails twice.
  \<^item> After a transient failure the next run over the same snapshot makes no attempt,
    because the outage is then already stored and only the ids of new outages are
    dispatched. Here the first attempt to subscriber 7 times out; the subscriber stays
    active and unrecorded, and the second run adds nothing to the trace.
  \<^item> After a permanent failure the loop goes on over the targets that were selected
    before it. Subscriber 7, listed twice, is blocked, marked inactive, and attempted a
    second time in the same loop.
\<close>

theorem permanent_failure_counterexample:
  "snd (check_for_outages fromisoformat_basic timeout_first 0 example_reply (subscribers_db, []))
     = [\<lparr>att_user = 7, att_outage = ''af756731b35c3f72e68becc9840cdf0b'',
          att_outcome = Telegram_error ''Timed out''\<rparr>,
        \<lparr>att_user = 8, att_outage = ''af756731b35c3f72e68becc9840cdf0b'',
          att_outcome = Delivered\<rparr>] \<and>
   \<not> permanently_unreachable ''Timed out'' \<and>
   users (fst (check_for_outages fromisoformat_basic timeout_first 0 example_reply
                 (subscribers_db, []))) = users subscribers_db \<and>
   \<not> recorded (fst (check_for_outages fromisoformat_basic timeout_first 0 example_reply
                      (subscribers_db, []))) 7 ''af756731b35c3f72e68becc9840cdf0b'' \<and>
   snd (check_for_outages fromisoformat_basic always_delivered 1 example_reply
          (check_for_outages fromisoformat_basic timeout_first 0 example_reply
             (subscribers_db, [])))
     = snd (check_for_outages fromisoformat_basic timeout_first 0 example_reply
              (subscribers_db, [])) \<and>
   get_users_with_language_for_locality twice_subscribed_db ''TAMARIN''
     = [(7, ''fr''), (7, ''fr''), (8, ''en'')] \<and>
   permanently_unreachable ''Forbidden: bot was blocked by the user'' \<and>
   send_notifications blocked_for_7 0 [''af756731b35c3f72e68becc9840cdf0b'']
       (twice_subscribed_db, [])
     = (twice_subscribed_db\<lparr>users := mark_inactive 7 (users twice_subscribed_db),
          notifications_sent :=
            [\<lparr>ns_user_id = 8, ns_outage_id = ''af756731b35c3f72e68becc9840cdf0b'',
              sent_at = 0\<rparr>]\<rparr>,
        [blocked_attempt, blocked_attempt,
         \<lparr>att_user = 8, att_outage = ''af756731b35c3f72e68becc9840cdf0b'',
           att_outcome = Delivered\<rparr>])"
proof -
  have transient:
    "snd (check_for_outages fromisoformat_basic timeout_first 0 example_reply (subscribers_db, []))
       = [\<lparr>att_user = 7, att_outage = ''af756731b35c3f72e68becc9840cdf0b'',
            att_outcome = Telegram_error ''Timed out''\<rparr>,
          \<lparr>att_user = 8, att_outage = ''af756731b35c3f72e68becc9840cdf0b'',
            att_outcome = Delivered\<rparr>] \<and>
     \<not> permanently_unreachable ''Timed out'' \<and>
     users (fst (check_for_outages fromisoformat_basic timeout_first 0 example_reply
                   (subscribers_db, []))) = users subscribers_db \<and>
     \<not> recorded (fst (check_for_outages fromisoformat_basic timeout_first 0 example_reply
                        (subscribers_db, []))) 7 ''af756731b35c3f72e68becc9840cdf0b'' \<and>
     snd (check_for_outages fromisoformat_basic always_delivered 1 example_reply
            (check_for_outages fromisoformat_basic timeout_first 0 example_reply
               (subscribers_db, [])))
       = snd (check_for_outages fromisoformat_basic timeout_first 0 example_reply
                (subscribers_db, []))"
    unfolding first_run
    by (simp add: timeout_is_transient recorded_def query_notification_def subscribers_db_def
        example_db_def check_for_outages_def fetch_outages_def example_reply_def
        process_outages_def all_outages_def get_or_def process_outage_def example_item_def
        example_outage_def query_outage_def)
  have targets: "get_users_with_language_for_locality twice_subscribed_db ''TAMARIN''
     = [(7, ''fr''), (7, ''fr''), (8, ''en'')]"
    by (simp add: get_users_with_language_for_locality_def twice_subscribed_db_def
        example_db_def)
  have q: "query_outage twice_subscribed_db ''af756731b35c3f72e68becc9840cdf0b''
      = Some example_outage"
    by (simp add: query_outage_def twice_subscribed_db_def example_db_def example_outage_def)
  have loc: "locality example_outage = ''TAMARIN''"
    and oid: "outage_id example_outage = ''af756731b35c3f72e68becc9840cdf0b''"
    by (simp_all add: example_outage_def)
  have unrec: "\<not> recorded twice_subscribed_db u ''af756731b35c3f72e68becc9840cdf0b''"
    "\<not> recorded (twice_subscribed_db\<lparr>users := us\<rparr>) u ''af756731b35c3f72e68becc9840cdf0b''"
    for u us
    by (simp_all add: recorded_iff twice_subscribed_db_def example_db_def)
  have slip: "send_notifications blocked_for_7 0 [''af756731b35c3f72e68becc9840cdf0b'']
       (twice_subscribed_db, [])
     = (twice_subscribed_db\<lparr>users := mark_inactive 7 (users twice_subscribed_db),
          notifications_sent :=
            [\<lparr>ns_user_id = 8, ns_outage_id = ''af756731b35c3f72e68becc9840cdf0b'',
              sent_at = 0\<rparr>]\<rparr>,
        [blocked_attempt, blocked_attempt,
         \<lparr>att_user = 8, att_outage = ''af756731b35c3f72e68becc9840cdf0b'',
           att_outcome = Delivered\<rparr>])"
    by (simp add: q loc targets notify_user_cases oid unrec blocked_for_7_def
        blocked_is_permanent blocked_attempt_def)
       (simp add: twice_subscribed_db_def example_db_def)
  from transient targets blocked_is_permanent slip show ?thesis by simp
qed

text \<open>
  Claim C5, amended.
  \<^item> A delivery attempt that fails with an error whose description contains \<open>blocked\<close>
    or \<open>deactivated\<close> adds one attempt to the trace, writes no notification record
    and marks the subscriber inactive (telegram ids being unique, every row of the
    subscriber is then inactive).
  \<^item> There is no retry: when the remaining targets of the loop do not list the
    subscriber again, the rest of the loop, the rest of the invocation and all later
    invocations add no attempt to that one failed attempt, leave the subscriber inactive
    and write no record.
  \<^item> A subscriber who is inactive is in no target selection; dispatch invocations
    started from such a state make no delivery attempt to that subscriber and leave them
    inactive.
  \<^item> Whatever happens to others, every selected subscriber without a record for the
    outage gets a delivery attempt in the loop over the targets, and when the gateway
    delivers to that subscriber the outcome is one delivery and a record.
  \<^item> Any other failure adds one attempt to the trace and changes nothing in the
    database: the subscriber stays as active as before and no record is written, so a
    later dispatch of the outage attempts again.
  \<^item> A second scheduled run over the same reply makes no delivery attempt.
\<close>

theorem permanent_failure_handling:
  "(\<not> recorded db1 u1 (outage_id o1) \<and> gw1 (length log1) u1 o1 lang1 = Telegram_error e1 \<and>
    permanently_unreachable e1 \<longrightarrow>
      notify_user gw1 now1 o1 (u1, lang1) (db1, log1)
        = (db1\<lparr>users := mark_inactive u1 (users db1)\<rparr>,
           log1 @ [\<lparr>att_user = u1, att_outage = outage_id o1,
                     att_outcome = Telegram_error e1\<rparr>]) \<and>
      (distinct (map telegram_id (users db1)) \<longrightarrow>
         inactive (db1\<lparr>users := mark_inactive u1 (users db1)\<rparr>) u1)) \<and>
   (\<not> recorded db1 u1 (outage_id o1) \<and> gw1 (length log1) u1 o1 lang1 = Telegram_error e1 \<and>
    permanently_unreachable e1 \<and> distinct (map telegram_id (users db1)) \<and>
    u1 \<notin> fst ` set rest1 \<longrightarrow>
      attempts_of_user u1
        (snd (dispatch_runs runs1 (send_notifications gw1 now1 ks1
                (notify_users gw1 now1 o1 ((u1, lang1) # rest1) (db1, log1)))))
        = attempts_of_user u1 log1 @
            [\<lparr>att_user = u1, att_outage = outage_id o1, att_outcome = Telegram_error e1\<rparr>] \<and>
      inactive
        (fst (dispatch_runs runs1 (send_notifications gw1 now1 ks1
                (notify_users gw1 now1 o1 ((u1, lang1) # rest1) (db1, log1))))) u1 \<and>
      \<not> recorded
          (fst (dispatch_runs runs1 (send_notifications gw1 now1 ks1
                  (notify_users gw1 now1 o1 ((u1, lang1) # rest1) (db1, log1)))))
          u1 (outage_id o1)) \<and>
   (inactive db2 u2 \<longrightarrow>
      u2 \<notin> fst ` set (get_users_with_language_for_locality db2 name2) \<and>
      inactive (fst (dispatch_runs runs2 (db2, log2))) u2 \<and>
      attempts_of_user u2 (snd (dispatch_runs runs2 (db2, log2))) = attempts_of_user u2 log2) \<and>
   ((u3, lang3) \<in> set uls3 \<and> \<not> recorded db3 u3 (outage_id o3) \<longrightarrow>
      length (attempts_to u3 (outage_id o3) log3)
        < length (attempts_to u3 (outage_id o3)
                    (snd (notify_users gw3 now3 o3 uls3 (db3, log3)))) \<and>
      ((\<forall>n l. gw3 n u3 o3 l = Delivered) \<longrightarrow>
         recorded (fst (notify_users gw3 now3 o3 uls3 (db3, log3))) u3 (outage_id o3) \<and>
         length (deliveries_to u3 (outage_id o3)
                   (snd (notify_users gw3 now3 o3 uls3 (db3, log3))))
           = length (deliveries_to u3 (outage_id o3) log3) + 1)) \<and>
   (\<not> recorded db4 u4 (outage_id o4) \<and>
    (gw4 (length log4) u4 o4 lang4 = Other_exception \<or>
     (gw4 (length log4) u4 o4 lang4 = Telegram_error e4 \<and> \<not> permanently_unreachable e4)) \<longrightarrow>
      notify_user gw4 now4 o4 (u4, lang4) (db4, log4)
        = (db4, log4 @ [\<lparr>att_user = u4, att_outage = outage_id o4,
                          att_outcome = gw4 (length log4) u4 o4 lang4\<rparr>])) \<and>
   snd (check_for_outages f gw6 now6 reply (check_for_outages f gw5 now5 reply (db5, log5)))
     = snd (check_for_outages f gw5 now5 reply (db5, log5))"
proof -
  have a: "\<not> recorded db1 u1 (outage_id o1) \<and> gw1 (length log1) u1 o1 lang1 = Telegram_error e1 \<and>
    permanently_unreachable e1 \<longrightarrow>
      notify_user gw1 now1 o1 (u1, lang1) (db1, log1)
        = (db1\<lparr>users := mark_inactive u1 (users db1)\<rparr>,
           log1 @ [\<lparr>att_user = u1, att_outage = outage_id o1,
                     att_outcome = Telegram_error e1\<rparr>])"
    unfolding notify_user_cases by simp
  have a': "distinct (map telegram_id (users db1)) \<longrightarrow>
         inactive (db1\<lparr>users := mark_inactive u1 (users db1)\<rparr>) u1"
    using mark_inactive_done[of "users db1" _ u1] by (auto simp: inactive_def)
  have r: "\<not> recorded db1 u1 (outage_id o1) \<and>
    gw1 (length log1) u1 o1 lang1 = Telegram_error e1 \<and>
    permanently_unreachable e1 \<and> distinct (map telegram_id (users db1)) \<and>
    u1 \<notin> fst ` set rest1 \<longrightarrow>
      attempts_of_user u1
        (snd (dispatch_runs runs1 (send_notifications gw1 now1 ks1
                (notify_users gw1 now1 o1 ((u1, lang1) # rest1) (db1, log1)))))
        = attempts_of_user u1 log1 @
            [\<lparr>att_user = u1, att_outage = outage_id o1, att_outcome = Telegram_error e1\<rparr>] \<and>
      inactive
        (fst (dispatch_runs runs1 (send_notifications gw1 now1 ks1
                (notify_users gw1 now1 o1 ((u1, lang1) # rest1) (db1, log1))))) u1 \<and>
      \<not> recorded
          (fst (dispatch_runs runs1 (send_notifications gw1 now1 ks1
                  (notify_users gw1 now1 o1 ((u1, lang1) # rest1) (db1, log1)))))
          u1 (outage_id o1)"
    using permanent_failure_rest[of db1 u1 o1 gw1 log1 lang1 e1 rest1 runs1 now1 ks1]
    by blast
  have b: "inactive db2 u2 \<longrightarrow>
      u2 \<notin> fst ` set (get_users_with_language_for_locality db2 name2) \<and>
      inactive (fst (dispatch_runs runs2 (db2, log2))) u2 \<and>
      attempts_of_user u2 (snd (dispatch_runs runs2 (db2, log2))) = attempts_of_user u2 log2"
    using excluded_runs[of u2 "(db2, log2)" runs2] inactive_not_selected[of db2 u2 name2]
    by (simp add: excluded_rel_def)
  have c: "(u3, lang3) \<in> set uls3 \<and> \<not> recorded db3 u3 (outage_id o3) \<longrightarrow>
      length (attempts_to u3 (outage_id o3) log3)
        < length (attempts_to u3 (outage_id o3)
                    (snd (notify_users gw3 now3 o3 uls3 (db3, log3)))) \<and>
      ((\<forall>n l. gw3 n u3 o3 l = Delivered) \<longrightarrow>
         recorded (fst (notify_users gw3 now3 o3 uls3 (db3, log3))) u3 (outage_id o3) \<and>
         length (deliveries_to u3 (outage_id o3)
                   (snd (notify_users gw3 now3 o3 uls3 (db3, log3))))
           = length (deliveries_to u3 (outage_id o3) log3) + 1)"
    using others_attempted[of u3 lang3 uls3 "(db3, log3)" o3 gw3 now3]
      others_delivered[of gw3 u3 o3 lang3 uls3 "(db3, log3)" now3]
    by simp
  have d: "\<not> recorded db4 u4 (outage_id o4) \<and>
    (gw4 (length log4) u4 o4 lang4 = Other_exception \<or>
     (gw4 (length log4) u4 o4 lang4 = Telegram_error e4 \<and> \<not> permanently_unreachable e4)) \<longrightarrow>
      notify_user gw4 now4 o4 (u4, lang4) (db4, log4)
        = (db4, log4 @ [\<lparr>att_user = u4, att_outage = outage_id o4,
                          att_outcome = gw4 (length log4) u4 o4 lang4\<rparr>])"
    unfolding notify_user_cases by auto
  have e: "snd (check_for_outages f gw6 now6 reply (check_for_outages f gw5 now5 reply (db5, log5)))
     = snd (check_for_outages f gw5 now5 reply (db5, log5))"
    by (rule second_check_silent)
  from a a' r b c d e show ?thesis by blast
qed


theorem permanent_failure_handling_witness:
  "\<not> recorded example_db 7 (outage_id example_outage) \<and>
   blocked_for_7 (length ([] :: attempt list)) 7 example_outage ''fr''
     = Telegram_error ''Forbidden: bot was blocked by the user'' \<and>
   permanently_unreachable ''Forbidden: bot was blocked by the user'' \<and>
   distinct (map telegram_id (users example_db)) \<and>
   notify_user blocked_for_7 0 example_outage (7, ''fr'') (example_db, [])
     = (deactivated_db, [blocked_attempt]) \<and>
   inactive deactivated_db 7 \<and>
   7 \<notin> fst ` set [(8 :: int, ''en'')] \<and>
   attempts_of_user 7
     (snd (dispatch_runs [(always_delivered, 1, [outage_id example_outage])]
             (send_notifications blocked_for_7 0 []
                (notify_users blocked_for_7 0 example_outage ((7, ''fr'') # [(8, ''en'')])
                   (example_db, [])))))
     = attempts_of_user 7 [] @ [blocked_attempt] \<and>
   inactive
     (fst (dispatch_runs [(always_delivered, 1, [outage_id example_outage])]
             (send_notifications blocked_for_7 0 []
                (notify_users blocked_for_7 0 example_outage ((7, ''fr'') # [(8, ''en'')])
                   (example_db, []))))) 7 \<and>
   \<not> recorded
       (fst (dispatch_runs [(always_delivered, 1, [outage_id example_outage])]
               (send_notifications blocked_for_7 0 []
                  (notify_users blocked_for_7 0 example_outage ((7, ''fr'') # [(8, ''en'')])
                     (example_db, []))))) 7 (outage_id example_outage) \<and>
   7 \<notin> fst ` set (get_users_with_language_for_locality deactivated_db ''TAMARIN'') \<and>
   attempts_of_user 7
     (snd (dispatch_runs [(always_delivered, 1, [outage_id example_outage])]
             (deactivated_db, [blocked_attempt])))
     = attempts_of_user 7 [blocked_attempt] \<and>
   (8, ''en'') \<in> set (get_users_with_language_for_locality example_db ''TAMARIN'') \<and>
   \<not> recorded example_db 8 (outage_id example_outage) \<and>
   (\<forall>n l. blocked_for_7 n 8 example_outage l = Delivered) \<and>
   recorded
     (fst (notify_users blocked_for_7 0 example_outage
             (get_users_with_language_for_locality example_db ''TAMARIN'') (example_db, [])))
     8 (outage_id example_outage) \<and>
   length (deliveries_to 8 (outage_id example_outage)
     (snd (notify_users blocked_for_7 0 example_outage
             (get_users_with_language_for_locality example_db ''TAMARIN'') (example_db, []))))
     = length (deliveries_to 8 (outage_id example_outage) []) + 1 \<and>
   timeout_first (length ([] :: attempt list)) 7 example_outage ''fr''
     = Telegram_error ''Timed out'' \<and>
   \<not> permanently_unreachable ''Timed out'' \<and>
   notify_user timeout_first 0 example_outage (7, ''fr'') (example_db, [])
     = (example_db,
        [] @ [\<lparr>att_user = 7, att_outage = outage_id example_outage,
               att_outcome = timeout_first (length ([] :: attempt list)) 7 example_outage ''fr''\<rparr>])"
proof -
  have h1: "\<not> recorded example_db 7 (outage_id example_outage)"
    and h3: "\<not> recorded example_db 8 (outage_id example_outage)"
    by (simp_all add: recorded_def query_notification_def example_db_def)
  have h2: "blocked_for_7 (length ([] :: attempt list)) 7 example_outage ''fr''
     = Telegram_error ''Forbidden: bot was blocked by the user''"
    and h5: "\<forall>n l. blocked_for_7 n 8 example_outage l = Delivered"
    by (simp_all add: blocked_for_7_def)
  have h4: "distinct (map telegram_id (users example_db))"
    by (simp add: example_db_def)
  have h6: "(8, ''en'') \<in> set (get_users_with_language_for_locality example_db ''TAMARIN'')"
    by (simp add: example_targets)
  have h7: "timeout_first (length ([] :: attempt list)) 7 example_outage ''fr''
     = Telegram_error ''Timed out''"
    by (simp add: timeout_first_def)
  have i: "inactive deactivated_db 7"
    by (simp add: inactive_def deactivated_db_def example_db_def)
  note t = permanent_failure_handling
    [where ?db1.0 = example_db and ?u1.0 = 7 and ?o1.0 = example_outage
       and ?gw1.0 = blocked_for_7 and ?log1.0 = "[]" and ?lang1.0 = "''fr''"
       and ?e1.0 = "''Forbidden: bot was blocked by the user''" and ?now1.0 = 0
       and ?rest1.0 = "[(8, ''en'')]" and ?ks1.0 = "[]"
       and ?runs1.0 = "[(always_delivered, 1, [outage_id example_outage])]"
       and ?db2.0 = deactivated_db and ?u2.0 = 7 and ?name2.0 = "''TAMARIN''"
       and ?runs2.0 = "[(always_delivered, 1, [outage_id example_outage])]"
       and ?log2.0 = "[blocked_attempt]"
       and ?u3.0 = 8 and ?lang3.0 = "''en''"
       and ?uls3.0 = "get_users_with_language_for_locality example_db ''TAMARIN''"
       and ?db3.0 = example_db and ?o3.0 = example_outage and ?gw3.0 = blocked_for_7
       and ?now3.0 = 0 and ?log3.0 = "[]"
       and ?db4.0 = example_db and ?u4.0 = 7 and ?o4.0 = example_outage
       and ?gw4.0 = timeout_first and ?log4.0 = "[]" and ?lang4.0 = "''fr''"
       and ?e4.0 = "''Timed out''" and ?now4.0 = 0]
  have h8: "7 \<notin> fst ` set [(8 :: int, ''en'')]" by simp
  from t h1 h2 h3 h4 h5 h6 h7 h8 i blocked_is_permanent timeout_is_transient
  show ?thesis
    by (simp add: deactivated_db_def blocked_attempt_def
        del: dispatch_runs.simps send_notifications.simps notify_users.simps)
qed


section \<open>Categorization\<close>


text \<open>The reading of the Mauritius clock at the start of an outage, when it has one.\<close>

definition local_start :: "isoparser \<Rightarrow> outage_data \<Rightarrow> int option" where
  "local_start fromisoformat outage =
     (case outage ''from'' of
        None \<Rightarrow> None
      | Some from_str \<Rightarrow>
          if from_str = [] then None
          else map_option (wall_clock MAURITIUS_TZ) (fromisoformat (replace_Z from_str)))"

definition starts_by :: "isoparser \<Rightarrow> int \<Rightarrow> outage_data \<Rightarrow> bool" where
  "starts_by fromisoformat bound outage =
     (case local_start fromisoformat outage of None \<Rightarrow> False | Some t \<Rightarrow> t \<le> bound)"

definition starts_after :: "isoparser \<Rightarrow> int \<Rightarrow> outage_data \<Rightarrow> bool" where
  "starts_after fromisoformat bound outage =
     (case local_start fromisoformat outage of None \<Rightarrow> False | Some t \<Rightarrow> bound < t)"

lemma astimezone_mauritius_reading:
  "astimezone_mauritius u = Inr r \<Longrightarrow> r = wall_clock MAURITIUS_TZ u"
  by (auto simp: astimezone_mauritius_def fromutc_def split: if_splits)

lemma categorize_loop_filter:
  "categorize_loop f eot os acc = Inr (today, future) \<Longrightarrow>
   today = fst acc @ filter (starts_by f eot) os \<and>
   future = snd acc @ filter (starts_after f eot) os"
proof (induction os arbitrary: acc)
  case Nil
  then show ?case by auto
next
  case (Cons outage rest)
  show ?case
  proof (cases "local_start f outage")
    case None
    with Cons.prems have "categorize_loop f eot rest acc = Inr (today, future)"
      by (auto simp: local_start_def split: option.splits if_splits sum.splits)
    from Cons.IH[OF this] None show ?thesis
      by (simp add: starts_by_def starts_after_def)
  next
    case (Some t)
    show ?thesis
    proof (cases "t \<le> eot")
      case True
      with Some Cons.prems
      have "categorize_loop f eot rest (fst acc @ [outage], snd acc) = Inr (today, future)"
        by (auto simp: local_start_def dest: astimezone_mauritius_reading
            split: option.splits if_splits sum.splits)
      from Cons.IH[OF this] Some True show ?thesis
        by (simp add: starts_by_def starts_after_def)
    next
      case False
      with Some Cons.prems
      have "categorize_loop f eot rest (fst acc, snd acc @ [outage]) = Inr (today, future)"
        by (auto simp: local_start_def dest: astimezone_mauritius_reading
            split: option.splits if_splits sum.splits)
      from Cons.IH[OF this] Some False show ?thesis
        by (simp add: starts_by_def starts_after_def)
    qed
  qed
qed

definition late_item :: outage_data where
  "late_item =
     [''id'' \<mapsto> ''0123456789abcdef0123456789abcdef'',
      ''from'' \<mapsto> ''2022-03-13T23:59:59.999500+04:00'']"

definition boundary_item :: outage_data where
  "boundary_item =
     [''id'' \<mapsto> ''11111111111111111111111111111111'',
      ''from'' \<mapsto> ''2022-03-13T19:59:59.999Z'']"

definition next_second_item :: outage_data where
  "next_second_item =
     [''id'' \<mapsto> ''22222222222222222222222222222222'',
      ''from'' \<mapsto> ''2022-03-13T20:00:00.999Z'']"

lemma iso_boundary:
  "fromisoformat_basic (replace_Z ''2022-03-13T23:59:59.999500+04:00'') = Some 1647201599999500"
  "fromisoformat_basic (replace_Z ''2022-03-13T19:59:59.999Z'') = Some 1647201599999000"
  "fromisoformat_basic (replace_Z ''2022-03-13T20:00:00.999Z'') = Some 1647201600999000"
  by code_simp+

text \<open>
  Claim C6, as stated, fails. At 10:00 UTC on 13 March 2022 the local day starts at
  reading 1647129600 seconds of the local clock; an outage that starts at 23:59:59.9995 local time is later
  than 23:59:59.999 and is placed in today.
\<close>

theorem categorization_boundary_counterexample:
  "wall_clock MAURITIUS_TZ 1647165600000000 div usec_per_day * usec_per_day
     = 1647129600000000 \<and>
   local_start fromisoformat_basic late_item = Some (1647129600000000 + 86399999500) \<and>
   (1647129600000000 + 86399999000 :: int) < 1647129600000000 + 86399999500 \<and>
   categorize_outages fromisoformat_basic 1647165600000000 [(''blackriver'', [late_item])]
     = Inr ([late_item], [])"
  by (simp add: categorize_simps local_start_def late_item_def iso_boundary)

lemma categorize_outages_filter:
  assumes "categorize_outages f now outages_by_district = Inr (today, future)"
  shows "today = filter (starts_by f (end_of_today (wall_clock MAURITIUS_TZ now)))
                   (concat (map snd outages_by_district))"
    and "future = filter (starts_after f (end_of_today (wall_clock MAURITIUS_TZ now)))
                    (concat (map snd outages_by_district))"
  using assms
    categorize_loop_filter[of f "end_of_today (wall_clock MAURITIUS_TZ now)"
      "concat (map snd outages_by_district)" "([], [])" today future]
  by (auto simp: categorize_outages_def datetime_now_def fromutc_def
      split: sum.splits if_splits)

text \<open>
  Claim C6, amended. The day boundary is the reading 23:59:59.999999 of the clock of
  Mauritius (UTC+4 at every instant since 29 March 2009) on the calendar day of the
  call. Whenever categorization returns, \<open>today\<close> holds, in order, the records whose
  start read on that clock is at or before the boundary, and \<open>future\<close> those whose
  start is later; records without a start are in neither. In particular a record that
  starts at 23:59:59.999 on that day is in \<open>today\<close> and a record that starts one
  second later is in \<open>future\<close>.
\<close>

theorem categorization_boundary:
  assumes "categorize_outages f now outages_by_district = Inr (today, future)"
  shows "datetime_now MAURITIUS_TZ now = Inr (wall_clock MAURITIUS_TZ now) \<and>
         end_of_today (wall_clock MAURITIUS_TZ now)
           = wall_clock MAURITIUS_TZ now div usec_per_day * usec_per_day
               + (23 * 3600 + 59 * 60 + 59) * 1000000 + 999999 \<and>
         today = filter (starts_by f (end_of_today (wall_clock MAURITIUS_TZ now)))
                   (concat (map snd outages_by_district)) \<and>
         future = filter (starts_after f (end_of_today (wall_clock MAURITIUS_TZ now)))
                    (concat (map snd outages_by_district)) \<and>
         (\<forall>outage \<in> set (concat (map snd outages_by_district)).
            (local_start f outage
               = Some (wall_clock MAURITIUS_TZ now div usec_per_day * usec_per_day
                         + (23 * 3600 + 59 * 60 + 59) * 1000000 + 999000)
             \<longrightarrow> outage \<in> set today) \<and>
            (local_start f outage
               = Some (wall_clock MAURITIUS_TZ now div usec_per_day * usec_per_day
                         + (23 * 3600 + 59 * 60 + 59) * 1000000 + 999000 + 1000000)
             \<longrightarrow> outage \<in> set future))"
proof -
  have e: "end_of_today (wall_clock MAURITIUS_TZ now)
           = wall_clock MAURITIUS_TZ now div usec_per_day * usec_per_day
               + (23 * 3600 + 59 * 60 + 59) * 1000000 + 999999"
    by (simp add: end_of_today_def usec_per_day_def)
  have n: "datetime_now MAURITIUS_TZ now = Inr (wall_clock MAURITIUS_TZ now)"
    using assms
    by (auto simp: categorize_outages_def datetime_now_def fromutc_def
        split: sum.splits if_splits)
  note t = categorize_outages_filter(1)[OF assms]
    and u = categorize_outages_filter(2)[OF assms]
  show ?thesis
    unfolding t u
    using e n by (auto simp: starts_by_def starts_after_def)
qed

theorem categorization_boundary_witness:
  "categorize_outages fromisoformat_basic 1647165600000000
     [(''blackriver'', [boundary_item, item_without_from]), (''moka'', [next_second_item])]
     = Inr ([boundary_item], [next_second_item]) \<and>
   [boundary_item]
     = filter (starts_by fromisoformat_basic
                 (end_of_today (wall_clock MAURITIUS_TZ 1647165600000000)))
       (concat (map snd [(''blackriver'', [boundary_item, item_without_from]),
                         (''moka'', [next_second_item])])) \<and>
   local_start fromisoformat_basic boundary_item
     = Some (wall_clock MAURITIUS_TZ 1647165600000000 div usec_per_day * usec_per_day
               + (23 * 3600 + 59 * 60 + 59) * 1000000 + 999000) \<and>
   local_start fromisoformat_basic next_second_item
     = Some (wall_clock MAURITIUS_TZ 1647165600000000 div usec_per_day * usec_per_day
               + (23 * 3600 + 59 * 60 + 59) * 1000000 + 999000 + 1000000) \<and>
   boundary_item \<in> set [boundary_item] \<and> next_second_item \<in> set [next_second_item]"
proof -
  have r: "categorize_outages fromisoformat_basic 1647165600000000
     [(''blackriver'', [boundary_item, item_without_from]), (''moka'', [next_second_item])]
     = Inr ([boundary_item], [next_second_item])"
    by (simp add: categorize_simps boundary_item_def next_second_item_def
        item_without_from_def iso_boundary)
  have l: "local_start fromisoformat_basic boundary_item
     = Some (wall_clock MAURITIUS_TZ 1647165600000000 div usec_per_day * usec_per_day
               + (23 * 3600 + 59 * 60 + 59) * 1000000 + 999000)"
    "local_start fromisoformat_basic next_second_item
     = Some (wall_clock MAURITIUS_TZ 1647165600000000 div usec_per_day * usec_per_day
               + (23 * 3600 + 59 * 60 + 59) * 1000000 + 999000 + 1000000)"
    by (simp_all add: local_start_def boundary_item_def next_second_item_def iso_boundary
        wall_clock_mauritius usec_per_day_def)
  note t = categorization_boundary[OF r]
  from t have f: "[boundary_item]
      = filter (starts_by fromisoformat_basic
                  (end_of_today (wall_clock MAURITIUS_TZ 1647165600000000)))
          (concat (map snd [(''blackriver'', [boundary_item, item_without_from]),
                            (''moka'', [next_second_item])]))"
    by blast
  have m: "boundary_item \<in> set [boundary_item]" "next_second_item \<in> set [next_second_item]"
    by simp_all
  from r f l m show ?thesis by blast
qed


section \<open>The fingerprint\<close>


text \<open>
  Claim C2, as stated, fails in one part: the fingerprint is a digest of 128 bits, so
  among the infinitely many values of \<open>streets\<close> two different ones give the same
  fingerprint for the same date, locality and district.
\<close>

theorem fingerprint_counterexample:
  "\<not> (\<forall>d l di s s'. s \<noteq> s' \<longrightarrow>
        generate_outage_id [''date'' \<mapsto> d, ''locality'' \<mapsto> l, ''streets'' \<mapsto> s, ''district'' \<mapsto> di]
          \<noteq> generate_outage_id
              [''date'' \<mapsto> d, ''locality'' \<mapsto> l, ''streets'' \<mapsto> s', ''district'' \<mapsto> di])"
proof
  assume a: "\<forall>d l di s s'. s \<noteq> s' \<longrightarrow>
        generate_outage_id [''date'' \<mapsto> d, ''locality'' \<mapsto> l, ''streets'' \<mapsto> s, ''district'' \<mapsto> di]
          \<noteq> generate_outage_id
              [''date'' \<mapsto> d, ''locality'' \<mapsto> l, ''streets'' \<mapsto> s', ''district'' \<mapsto> di]"
  obtain s s' where ne: "s \<noteq> s'"
    and eq: "hexdigest (md5 (utf8_encode (json_dumps example_date ''TAMARIN'' s ''blackriver'')))
           = hexdigest (md5 (utf8_encode (json_dumps example_date ''TAMARIN'' s' ''blackriver'')))"
    using digest_collision[of "\<lambda>s. utf8_encode (json_dumps example_date ''TAMARIN'' s ''blackriver'')"]
    by blast
  from a ne have
    "generate_outage_id [''date'' \<mapsto> example_date, ''locality'' \<mapsto> ''TAMARIN'',
                         ''streets'' \<mapsto> s, ''district'' \<mapsto> ''blackriver'']
       \<noteq> generate_outage_id [''date'' \<mapsto> example_date, ''locality'' \<mapsto> ''TAMARIN'',
                              ''streets'' \<mapsto> s', ''district'' \<mapsto> ''blackriver'']"
    by blast
  with eq show False by (simp add: generate_outage_id_def)
qed

text \<open>
  Claim C2, amended. The fingerprint is a function of the four fields date description,
  locality, streets and district: two records that agree on them get the same id, and
  adding, changing or removing \<open>from\<close> and \<open>to\<close> does not change it. The output is
  32 hexadecimal characters, the digest of 128 bits of the UTF-8 text of the
  serialization; the serialization lists the four keys in the fixed order date,
  locality, streets, district and has no white space outside the field values.
  Changing streets alone changes the serialization, and it changes the fingerprint
  whenever the digests of the two serializations differ.
\<close>

theorem fingerprint_function:
  "((\<forall>k \<in> {''date'', ''locality'', ''streets'', ''district''}. a k = b k) \<longrightarrow>
      generate_outage_id a = generate_outage_id b) \<and>
   generate_outage_id (a(''from'' := x, ''to'' := y)) = generate_outage_id a \<and>
   (generate_outage_id a = Inr h \<longrightarrow> length h = 32 \<and> set h \<subseteq> set ''0123456789abcdef'') \<and>
   generate_outage_id [''date'' \<mapsto> d, ''locality'' \<mapsto> l, ''streets'' \<mapsto> s, ''district'' \<mapsto> di]
     = Inr (hexdigest (md5 (utf8_encode (json_dumps d l s di)))) \<and>
   json_dumps d l s di
     = ''{'' @ [CHR 0x22] @ ''date'' @ [CHR 0x22] @ '':'' @ json_string d @
       '','' @ [CHR 0x22] @ ''locality'' @ [CHR 0x22] @ '':'' @ json_string l @
       '','' @ [CHR 0x22] @ ''streets'' @ [CHR 0x22] @ '':'' @ json_string s @
       '','' @ [CHR 0x22] @ ''district'' @ [CHR 0x22] @ '':'' @ json_string di @ ''}'' \<and>
   (\<forall>c \<in> set (json_dumps d l s di). is_space c \<longrightarrow> c \<in> set d \<union> set l \<union> set s \<union> set di) \<and>
   (s \<noteq> s' \<longrightarrow>
      utf8_encode (json_dumps d l s di) \<noteq> utf8_encode (json_dumps d l s' di)) \<and>
   (md5 (utf8_encode (json_dumps d l s di)) \<noteq> md5 (utf8_encode (json_dumps d l s' di)) \<longrightarrow>
      generate_outage_id [''date'' \<mapsto> d, ''locality'' \<mapsto> l, ''streets'' \<mapsto> s, ''district'' \<mapsto> di]
        \<noteq> generate_outage_id
            [''date'' \<mapsto> d, ''locality'' \<mapsto> l, ''streets'' \<mapsto> s', ''district'' \<mapsto> di])"
proof -
  have p1: "(\<forall>k \<in> {''date'', ''locality'', ''streets'', ''district''}. a k = b k) \<longrightarrow>
      generate_outage_id a = generate_outage_id b"
    by (simp add: generate_outage_id_def split: option.splits)
  have p2: "generate_outage_id (a(''from'' := x, ''to'' := y)) = generate_outage_id a"
    by (simp add: generate_outage_id_def split: option.splits)
  have p3: "generate_outage_id a = Inr h \<longrightarrow> length h = 32 \<and> set h \<subseteq> set ''0123456789abcdef''"
  proof
    assume "generate_outage_id a = Inr h"
    then obtain msg where "h = hexdigest (md5 msg)"
      by (auto simp: generate_outage_id_def split: option.splits)
    then show "length h = 32 \<and> set h \<subseteq> set ''0123456789abcdef''"
      using hexdigest_shape[of "md5 msg"] by (simp add: md5_length)
  qed
  have p4: "generate_outage_id [''date'' \<mapsto> d, ''locality'' \<mapsto> l, ''streets'' \<mapsto> s, ''district'' \<mapsto> di]
     = Inr (hexdigest (md5 (utf8_encode (json_dumps d l s di))))" for s
    by (simp add: generate_outage_id_def)
  have p5: "json_dumps d l s di
     = ''{'' @ [CHR 0x22] @ ''date'' @ [CHR 0x22] @ '':'' @ json_string d @
       '','' @ [CHR 0x22] @ ''locality'' @ [CHR 0x22] @ '':'' @ json_string l @
       '','' @ [CHR 0x22] @ ''streets'' @ [CHR 0x22] @ '':'' @ json_string s @
       '','' @ [CHR 0x22] @ ''district'' @ [CHR 0x22] @ '':'' @ json_string di @ ''}''"
  proof -
    have "json_string ''date'' = [CHR 0x22] @ ''date'' @ [CHR 0x22]"
      "json_string ''locality'' = [CHR 0x22] @ ''locality'' @ [CHR 0x22]"
      "json_string ''streets'' = [CHR 0x22] @ ''streets'' @ [CHR 0x22]"
      "json_string ''district'' = [CHR 0x22] @ ''district'' @ [CHR 0x22]"
      by (simp_all add: json_string_def json_escape_char_def)
    then show ?thesis by (simp add: json_dumps_def)
  qed
  have p6: "\<forall>c \<in> set (json_dumps d l s di). is_space c \<longrightarrow> c \<in> set d \<union> set l \<union> set s \<union> set di"
    using json_dumps_space by blast
  have p7: "s \<noteq> s' \<longrightarrow>
      utf8_encode (json_dumps d l s di) \<noteq> utf8_encode (json_dumps d l s' di)"
    using serialization_inj by blast
  have p8: "md5 (utf8_encode (json_dumps d l s di)) \<noteq> md5 (utf8_encode (json_dumps d l s' di)) \<longrightarrow>
      generate_outage_id [''date'' \<mapsto> d, ''locality'' \<mapsto> l, ''streets'' \<mapsto> s, ''district'' \<mapsto> di]
        \<noteq> generate_outage_id
            [''date'' \<mapsto> d, ''locality'' \<mapsto> l, ''streets'' \<mapsto> s', ''district'' \<mapsto> di]"
    unfolding p4 using hexdigest_inj by blast
  from p1 p2 p3 p4[of s] p5 p6 p7 p8 show ?thesis by blast
qed


theorem fingerprint_function_witness:
  "example_item ''date'' = example_raw ''date'' \<and>
   example_item ''locality'' = example_raw ''locality'' \<and>
   example_item ''streets'' = example_raw ''streets'' \<and>
   example_item ''district'' = example_raw ''district'' \<and>
   generate_outage_id example_item = generate_outage_id example_raw \<and>
   generate_outage_id example_item = Inr ''af756731b35c3f72e68becc9840cdf0b'' \<and>
   length ''af756731b35c3f72e68becc9840cdf0b'' = 32 \<and>
   ''AVE DES MARLINS'' \<noteq> ''AVE DES DAUPHINS'' \<and>
   md5 (utf8_encode (json_dumps example_date ''TAMARIN'' ''AVE DES MARLINS'' ''blackriver''))
     \<noteq> md5 (utf8_encode (json_dumps example_date ''TAMARIN'' ''AVE DES DAUPHINS'' ''blackriver'')) \<and>
   generate_outage_id
     [''date'' \<mapsto> example_date, ''locality'' \<mapsto> ''TAMARIN'',
      ''streets'' \<mapsto> ''AVE DES MARLINS'', ''district'' \<mapsto> ''blackriver'']
     \<noteq> generate_outage_id
         [''date'' \<mapsto> example_date, ''locality'' \<mapsto> ''TAMARIN'',
          ''streets'' \<mapsto> ''AVE DES DAUPHINS'', ''district'' \<mapsto> ''blackriver'']"
proof -
  note t = fingerprint_function
    [where a = example_item and b = example_raw and x = None and y = None
       and h = "''af756731b35c3f72e68becc9840cdf0b''" and d = example_date
       and l = "''TAMARIN''" and s = "''AVE DES MARLINS''" and s' = "''AVE DES DAUPHINS''"
       and di = "''blackriver''"]
  have k: "example_item ''date'' = example_raw ''date''"
    "example_item ''locality'' = example_raw ''locality''"
    "example_item ''streets'' = example_raw ''streets''"
    "example_item ''district'' = example_raw ''district''"
    by (simp_all add: example_item_def example_raw_def)
  with t have e: "generate_outage_id example_item = generate_outage_id example_raw"
    by simp
  with example_fingerprint
  have f: "generate_outage_id example_item = Inr ''af756731b35c3f72e68becc9840cdf0b''"
    by simp
  have r: "example_raw = [''date'' \<mapsto> example_date, ''locality'' \<mapsto> ''TAMARIN'',
      ''streets'' \<mapsto> ''AVE DES MARLINS'', ''district'' \<mapsto> ''blackriver'']"
    by (simp add: example_raw_def)
  have r': "example_raw(''streets'' \<mapsto> ''AVE DES DAUPHINS'')
      = [''date'' \<mapsto> example_date, ''locality'' \<mapsto> ''TAMARIN'',
         ''streets'' \<mapsto> ''AVE DES DAUPHINS'', ''district'' \<mapsto> ''blackriver'']"
    by (auto simp: example_raw_def fun_eq_iff)
  from example_fingerprint other_fingerprint
  have "hexdigest (md5 (utf8_encode
          (json_dumps example_date ''TAMARIN'' ''AVE DES MARLINS'' ''blackriver'')))
     \<noteq> hexdigest (md5 (utf8_encode
          (json_dumps example_date ''TAMARIN'' ''AVE DES DAUPHINS'' ''blackriver'')))"
    unfolding r r' by (simp add: generate_outage_id_def)
  then have m: "md5 (utf8_encode
          (json_dumps example_date ''TAMARIN'' ''AVE DES MARLINS'' ''blackriver''))
     \<noteq> md5 (utf8_encode
          (json_dumps example_date ''TAMARIN'' ''AVE DES DAUPHINS'' ''blackriver''))"
    by auto
  have n: "''AVE DES MARLINS'' \<noteq> ''AVE DES DAUPHINS''" by simp
  from t m have g: "generate_outage_id
     [''date'' \<mapsto> example_date, ''locality'' \<mapsto> ''TAMARIN'',
      ''streets'' \<mapsto> ''AVE DES MARLINS'', ''district'' \<mapsto> ''blackriver'']
     \<noteq> generate_outage_id
         [''date'' \<mapsto> example_date, ''locality'' \<mapsto> ''TAMARIN'',
          ''streets'' \<mapsto> ''AVE DES DAUPHINS'', ''district'' \<mapsto> ''blackriver'']"
    by blast
  have len: "length ''af756731b35c3f72e68becc9840cdf0b'' = 32" by simp
  from k e f len n m g show ?thesis by blast
qed


section \<open>Ids in the result of the HTML pipeline\<close>


text \<open>What \<open>remove_duplicates\<close> computes: of the records with a date and an id, the first
  of every id.\<close>

definition kept :: "outage_data \<Rightarrow> bool" where
  "kept outage =
     (case outage ''date'' of
        None \<Rightarrow> False
      | Some date \<Rightarrow> date \<noteq> [] \<and> (case outage ''id'' of None \<Rightarrow> False | Some k \<Rightarrow> k \<noteq> []))"

fun first_by_id :: "outage_data list \<Rightarrow> outage_data list" where
  "first_by_id [] = []"
| "first_by_id (outage # rest) =
     outage # first_by_id (filter (\<lambda>x. x ''id'' \<noteq> outage ''id'') rest)"

lemma first_by_id_subset: "set (first_by_id xs) \<subseteq> set xs"
  by (induction xs rule: first_by_id.induct) auto

lemma first_by_id_distinct: "distinct (map (\<lambda>x. x ''id'') (first_by_id xs))"
proof (induction xs rule: first_by_id.induct)
  case 1
  show ?case by simp
next
  case (2 outage rest)
  have "set (first_by_id (filter (\<lambda>x. x ''id'' \<noteq> outage ''id'') rest))
          \<subseteq> set (filter (\<lambda>x. x ''id'' \<noteq> outage ''id'') rest)"
    by (rule first_by_id_subset)
  then have "outage ''id'' \<notin> (\<lambda>x. x ''id'') ` set (first_by_id (filter (\<lambda>x. x ''id'' \<noteq> outage ''id'') rest))"
    by auto
  with 2 show ?case by simp
qed

lemma remove_duplicates_loop_spec:
  "map snd (remove_duplicates_loop os seen)
     = map snd seen @
       first_by_id (filter (\<lambda>x. kept x \<and> x ''id'' \<notin> Some ` fst ` set seen) os)"
proof (induction os arbitrary: seen)
  case Nil
  show ?case by simp
next
  case (Cons outage rest)
  show ?case
  proof (cases "kept outage \<and> outage ''id'' \<notin> Some ` fst ` set seen")
    case False
    then have "remove_duplicates_loop (outage # rest) seen = remove_duplicates_loop rest seen"
      by (auto simp: kept_def map_of_eq_None_iff split: option.splits)
    moreover from False
    have "filter (\<lambda>x. kept x \<and> x ''id'' \<notin> Some ` fst ` set seen) (outage # rest)
        = filter (\<lambda>x. kept x \<and> x ''id'' \<notin> Some ` fst ` set seen) rest"
      by simp
    ultimately show ?thesis using Cons.IH[of seen] by (simp only:)
  next
    case True
    then obtain k where k: "outage ''id'' = Some k" "k \<noteq> []" "k \<notin> fst ` set seen"
      by (auto simp: kept_def split: option.splits)
    with True have
      "remove_duplicates_loop (outage # rest) seen
         = remove_duplicates_loop rest (seen @ [(k, outage)])"
      by (auto simp: kept_def map_of_eq_None_iff split: option.splits)
    moreover have
      "filter (\<lambda>x. kept x \<and> x ''id'' \<notin> Some ` fst ` set (seen @ [(k, outage)])) rest
         = filter (\<lambda>x. x ''id'' \<noteq> outage ''id'')
             (filter (\<lambda>x. kept x \<and> x ''id'' \<notin> Some ` fst ` set seen) rest)"
      using k(1) by (auto intro: filter_cong)
    moreover from True
    have "filter (\<lambda>x. kept x \<and> x ''id'' \<notin> Some ` fst ` set seen) (outage # rest)
        = outage # filter (\<lambda>x. kept x \<and> x ''id'' \<notin> Some ` fst ` set seen) rest"
      by simp
    ultimately show ?thesis
      using Cons.IH[of "seen @ [(k, outage)]"] by (simp only: first_by_id.simps map_append list.map snd_conv append_assoc append.simps)
  qed
qed

lemma remove_duplicates_spec: "remove_duplicates os = first_by_id (filter kept os)"
  using remove_duplicates_loop_spec[of os "[]"] by (simp add: remove_duplicates_def)


text \<open>The text that is hashed for a raw record, and the raw records of a page.\<close>

definition serialized :: "outage_data \<Rightarrow> byte list" where
  "serialized outage =
     utf8_encode (json_dumps (get_or outage ''date'' []) (get_or outage ''locality'' [])
                    (get_or outage ''streets'' []) (get_or outage ''district'' []))"

definition district_rows :: "html_parser \<Rightarrow> (string \<times> string) list \<Rightarrow> outage_data list" where
  "district_rows table_rows district_data =
     concat (map (\<lambda>(district', district_html). parse_table_html table_rows district_html district')
               district_data)"

definition from_district :: "html_parser \<Rightarrow> (string \<times> string) list \<Rightarrow> string \<Rightarrow> outage_data \<Rightarrow> bool" where
  "from_district table_rows district_data district' p =
     (\<exists>district_html raw.
        (district', district_html) \<in> set district_data \<and>
        raw \<in> set (parse_table_html table_rows district_html district') \<and>
        process_raw_outage raw = Inr (Some p))"

lemma raw_keys:
  assumes "raw \<in> set (parse_table_html tr h dn)"
  shows "raw ''district'' = Some dn \<and> (\<exists>d. raw ''date'' = Some d \<and> d \<noteq> []) \<and>
         (\<exists>l. raw ''locality'' = Some l) \<and> (\<exists>s. raw ''streets'' = Some s)"
  using assms by (auto simp: parse_table_html_def)

lemma processed_fields:
  assumes "process_raw_outage raw = Inr (Some p)"
    and "raw ''district'' = Some dn" and "raw ''date'' = Some d" and "d \<noteq> []"
    and "raw ''locality'' = Some l" and "raw ''streets'' = Some s"
  shows "p ''id'' = Some (hexdigest (md5 (serialized raw))) \<and> p ''district'' = Some dn \<and>
         p ''date'' = Some d \<and> kept p"
proof -
  have g: "generate_outage_id raw = Inr (hexdigest (md5 (serialized raw)))"
    using assms(2,3,5,6) by (simp add: generate_outage_id_def serialized_def get_or_def)
  have "length (hexdigest (md5 (serialized raw))) = 32"
    using hexdigest_shape[of "md5 (serialized raw)"] by (simp add: md5_length)
  then have ne: "hexdigest (md5 (serialized raw)) \<noteq> []" by auto
  from assms(1) g assms(2,3,4) ne show ?thesis
    by (auto simp: process_raw_outage_def get_or_def kept_def
             split: sum.splits option.splits)
qed

lemma processed_from_raw:
  "process_raw_outages raws = Inr processed \<Longrightarrow> p \<in> set processed \<Longrightarrow>
   \<exists>raw \<in> set raws. process_raw_outage raw = Inr (Some p)"
proof (induction raws arbitrary: processed)
  case Nil
  then show ?case by simp
next
  case (Cons raw raws)
  from Cons.prems(1) obtain r rest where r: "process_raw_outage raw = Inr r"
    and rest: "process_raw_outages raws = Inr rest"
    and pr: "processed = (case r of None \<Rightarrow> [] | Some q \<Rightarrow> [q]) @ rest"
    by (auto split: sum.splits)
  show ?case
  proof (cases "p \<in> set rest")
    case True
    from Cons.IH[OF rest True] show ?thesis by auto
  next
    case False
    with Cons.prems(2) pr have "r = Some p" by (auto split: option.splits)
    with r show ?thesis by simp
  qed
qed

lemma districts_processed:
  "process_districts tr dd = Inr obd \<Longrightarrow>
   map fst obd = map fst dd \<and>
   (\<forall>(dn, os) \<in> set obd.
      distinct (map (\<lambda>x. x ''id'') os) \<and>
      (\<forall>p \<in> set os. kept p \<and> from_district tr dd dn p))"
proof (induction dd arbitrary: obd)
  case Nil
  then show ?case by simp
next
  case (Cons a dd)
  obtain dn dh where a: "a = (dn, dh)" by (cases a)
  from Cons.prems obtain processed rest where
    pr: "process_raw_outages (parse_table_html tr dh dn) = Inr processed"
    and rs: "process_districts tr dd = Inr rest"
    and ob: "obd = (dn, remove_duplicates processed) # rest"
    by (auto simp: a split: sum.splits)
  have sub: "from_district tr dd x p \<Longrightarrow> from_district tr (a # dd) x p" for x p
    by (auto simp: from_district_def)
  have hd: "distinct (map (\<lambda>x. x ''id'') (remove_duplicates processed)) \<and>
      (\<forall>p \<in> set (remove_duplicates processed). kept p \<and> from_district tr (a # dd) dn p)"
  proof -
    have "set (remove_duplicates processed) \<subseteq> set (filter kept processed)"
      unfolding remove_duplicates_spec by (rule first_by_id_subset)
    moreover have "from_district tr (a # dd) dn p" if "p \<in> set processed" for p
      using processed_from_raw[OF pr that] by (auto simp: from_district_def a)
    ultimately show ?thesis
      by (auto simp: remove_duplicates_spec first_by_id_distinct)
  qed
  from Cons.IH[OF rs] hd sub show ?case
    unfolding ob a by (auto 4 3)
qed

lemma same_id_same_district:
  assumes nc: "inj_on md5 (serialized ` set (district_rows tr dd))"
    and p: "from_district tr dd dn p" and p': "from_district tr dd dn' p'"
    and eq: "p ''id'' = p' ''id''"
  shows "dn = dn'"
proof -
  from p obtain dh raw where r: "(dn, dh) \<in> set dd" "raw \<in> set (parse_table_html tr dh dn)"
    "process_raw_outage raw = Inr (Some p)"
    by (auto simp: from_district_def)
  from p' obtain dh' raw' where r': "(dn', dh') \<in> set dd"
    "raw' \<in> set (parse_table_html tr dh' dn')" "process_raw_outage raw' = Inr (Some p')"
    by (auto simp: from_district_def)
  from raw_keys[OF r(2)] obtain d l s where k: "raw ''district'' = Some dn"
    "raw ''date'' = Some d" "d \<noteq> []" "raw ''locality'' = Some l" "raw ''streets'' = Some s"
    by blast
  from raw_keys[OF r'(2)] obtain d' l' s' where k': "raw' ''district'' = Some dn'"
    "raw' ''date'' = Some d'" "d' \<noteq> []" "raw' ''locality'' = Some l'" "raw' ''streets'' = Some s'"
    by blast
  from processed_fields[OF r(3) k] processed_fields[OF r'(3) k'] eq
  have "hexdigest (md5 (serialized raw)) = hexdigest (md5 (serialized raw'))" by simp
  then have m: "md5 (serialized raw) = md5 (serialized raw')" by (rule hexdigest_inj)
  have "raw \<in> set (district_rows tr dd)" "raw' \<in> set (district_rows tr dd)"
    using r(1,2) r'(1,2) by (auto simp: district_rows_def)
  with nc m have "serialized raw = serialized raw'" by (auto dest: inj_onD)
  then show ?thesis
    using serialization_inj[of d l s dn d' l' s' dn'] k k'
    by (simp add: serialized_def get_or_def)
qed

lemma distinct_across_districts:
  assumes keys: "distinct (map fst obd)"
    and each: "\<forall>(dn, os) \<in> set obd. distinct (map (\<lambda>x. x ''id'') os) \<and> (\<forall>p \<in> set os. G dn p)"
    and one: "\<And>dn dn' p p'. G dn p \<Longrightarrow> G dn' p' \<Longrightarrow> p ''id'' = p' ''id'' \<Longrightarrow> dn = dn'"
  shows "distinct (map (\<lambda>x. x ''id'') (concat (map snd obd)))"
  using keys each
proof (induction obd)
  case Nil
  show ?case by simp
next
  case (Cons a obd)
  obtain dn os where a: "a = (dn, os)" by (cases a)
  from Cons.prems have ih: "distinct (map (\<lambda>x. x ''id'') (concat (map snd obd)))"
    using Cons.IH by simp
  from Cons.prems a have d: "distinct (map (\<lambda>x. x ''id'') os)" and g: "\<forall>p \<in> set os. G dn p"
    by auto
  have "(\<lambda>x. x ''id'') ` set os \<inter> (\<lambda>x. x ''id'') ` set (concat (map snd obd)) = {}"
  proof (rule ccontr)
    assume "\<not> ?thesis"
    then obtain p p' where pp: "p \<in> set os" "p' \<in> set (concat (map snd obd))"
      "p ''id'' = p' ''id''"
      by (auto simp: image_iff)
    from pp(2) obtain dn' os' where o': "(dn', os') \<in> set obd" "p' \<in> set os'" by auto
    with Cons.prems(2) have "G dn' p'" by auto
    with g pp(1,3) one have "dn = dn'" by blast
    with o'(1) Cons.prems(1) a show False by (auto simp: image_iff)
  qed
  with ih d show ?case by (simp add: a)
qed

lemma distinct_split:
  assumes "distinct (map g xs)" and "\<And>x. \<not> (A x \<and> B x)"
  shows "distinct (map g (filter A xs @ filter B xs))"
proof -
  from assms(1) have i: "inj_on g (set xs)" and dx: "distinct xs"
    by (simp_all add: distinct_map)
  have "distinct (filter A xs @ filter B xs)"
    using dx assms(2) by auto
  moreover have "inj_on g (set (filter A xs @ filter B xs))"
    using i by (auto simp: inj_on_def)
  ultimately show ?thesis by (simp only: distinct_map)
qed


lemma extract_distinct:
  assumes "\<forall>g dd. json_loads g = Some dd \<longrightarrow> distinct (map fst dd)"
  shows "distinct (map fst (extract_district_data json_loads html))"
  using assms by (auto simp: extract_district_data_def split: option.splits)

lemma starts_exclusive: "\<not> (starts_by f b x \<and> starts_after f b x)"
  by (auto simp: starts_by_def starts_after_def split: option.splits)

text \<open>
  Claim C10, as stated, fails in one part: two rows of two different districts can get
  the same id, since the ids are digests of 128 bits, and then the id occurs twice in
  the result. The districts are found among the infinitely many district names that a
  page can give to the one row of the example.
\<close>

theorem id_uniqueness_counterexample:
  "\<exists>json_loads table_rows fromisoformat now reply today future.
      (\<forall>g dd. json_loads g = Some dd \<longrightarrow> distinct (map fst dd)) \<and>
      fetch_and_parse_outages json_loads table_rows fromisoformat now reply
        = Inr (today, future) \<and>
      \<not> distinct (map (\<lambda>x. x ''id'') (today @ future))"
proof -
  obtain d1 d2 where ne: "d1 \<noteq> d2"
    and eq: "hexdigest (md5 (utf8_encode (json_dumps example_date ''TAMARIN'' [] d1)))
           = hexdigest (md5 (utf8_encode (json_dumps example_date ''TAMARIN'' [] d2)))"
    using digest_collision[of "\<lambda>s. utf8_encode (json_dumps example_date ''TAMARIN'' [] s)"]
    by blast
  let ?loads = "\<lambda>g :: string. Some [(d1, ''t''), (d2, ''t'')]"
  let ?rows = "\<lambda>h :: string. [ [example_date, ''TAMARIN'', [] ] ]"
  let ?reply = "Response 200 ''var arDistrictLocations = {x};''"
  let ?p = "\<lambda>dn. [''id'' \<mapsto> hexdigest (md5 (utf8_encode (json_dumps example_date ''TAMARIN'' [] dn))),
                   ''date'' \<mapsto> example_date, ''locality'' \<mapsto> ''TAMARIN'', ''streets'' \<mapsto> [],
                   ''district'' \<mapsto> dn, ''from'' \<mapsto> isoformat 1647149400000000,
                   ''to'' \<mapsto> isoformat 1647162000000000]"
  have dict: "\<forall>g dd. ?loads g = Some dd \<longrightarrow> distinct (map fst dd)"
    using ne by auto
  have srch: "search_assignment ''var arDistrictLocations = {x};'' = Some ''{x}''"
    by code_simp
  have ed: "example_date \<noteq> []" by (simp add: example_date_def)
  have iso: "isoformat 1647149400000000 = ''2022-03-13T05:30:00+00:00''"
    by code_simp
  have dec: "fromisoformat_basic (replace_Z ''2022-03-13T05:30:00+00:00'') = Some 1647149400000000"
    by code_simp
  have praw: "process_raw_outage
       [''date'' \<mapsto> example_date, ''locality'' \<mapsto> ''TAMARIN'', ''streets'' \<mapsto> [],
        ''district'' \<mapsto> dn] = Inr (Some (?p dn))" for dn
    using example_date_parsed
    by (simp add: process_raw_outage_def generate_outage_id_def get_or_def)
  have kp: "kept (?p dn)" for dn
    using hexdigest_shape[of "md5 (utf8_encode (json_dumps example_date ''TAMARIN'' [] dn))"] ed
    by (auto simp: kept_def md5_length)
  have rd: "remove_duplicates [?p dn] = [?p dn]" for dn
    unfolding remove_duplicates_spec using kp[of dn] by simp
  have pd: "process_districts ?rows [(d1, ''t''), (d2, ''t'')]
      = Inr [(d1, [?p d1]), (d2, [?p d2])]"
    using ed by (simp add: parse_table_html_def praw rd del: fun_upd_apply)
  have cat: "categorize_outages fromisoformat_basic 1647165600000000
       [(d1, [?p d1]), (d2, [?p d2])] = Inr ([?p d1, ?p d2], [])"
    by (simp add: categorize_simps iso dec)
  have res: "fetch_and_parse_outages ?loads ?rows fromisoformat_basic 1647165600000000 ?reply
      = Inr ([?p d1, ?p d2], [])"
  proof -
    have fp: "fetch_ceb_page ?reply = Inr ''var arDistrictLocations = {x};''"
      by (simp add: fetch_ceb_page_def)
    have ex: "extract_district_data ?loads ''var arDistrictLocations = {x};''
        = [(d1, ''t''), (d2, ''t'')]"
      by (simp add: extract_district_data_def srch)
    show ?thesis
      by (simp only: fetch_and_parse_outages_def fp sum.case Let_def ex list.distinct
          if_False pd cat)
  qed
  have "\<not> distinct (map (\<lambda>x. x ''id'') ([?p d1, ?p d2] @ []))"
    using eq by simp
  with dict res have c:
    "(\<forall>g dd. ?loads g = Some dd \<longrightarrow> distinct (map fst dd)) \<and>
     fetch_and_parse_outages ?loads ?rows fromisoformat_basic 1647165600000000 ?reply
       = Inr ([?p d1, ?p d2], []) \<and>
     \<not> distinct (map (\<lambda>x. x ''id'') ([?p d1, ?p d2] @ []))"
    by (intro conjI)
  show ?thesis
    apply (rule exI[of _ ?loads])
    apply (rule exI[of _ ?rows])
    apply (rule exI[of _ fromisoformat_basic])
    apply (rule exI[of _ 1647165600000000])
    apply (rule exI[of _ ?reply])
    apply (rule exI[of _ "[?p d1, ?p d2]"])
    apply (rule exI[of _ "[]"])
    apply (rule c)
    done
qed

text \<open>
  Claim C10, amended. Provided that the decoder returns dictionaries (distinct keys) and
  that MD5 does not give one digest to the serializations of two different raw rows of
  the page, every outage id occurs at most once across the combined \<open>today\<close> and
  \<open>future\<close> lists of the result, and every record of the result has a non-empty date
  and a non-empty id. Without any proviso: within a district \<open>remove_duplicates\<close> keeps,
  of the records that have a non-empty date and a non-empty id, the first of every id, in
  order, and omits the others.
\<close>

theorem id_uniqueness:
  assumes dict: "\<forall>g dd. json_loads g = Some dd \<longrightarrow> distinct (map fst dd)"
    and fetched: "fetch_ceb_page reply = Inr html"
    and no_collision:
      "inj_on md5 (serialized ` set (district_rows table_rows
                                      (extract_district_data json_loads html)))"
    and result: "fetch_and_parse_outages json_loads table_rows fromisoformat now reply
                   = Inr (today, future)"
  shows "distinct (map (\<lambda>x. x ''id'') (today @ future)) \<and>
         (\<forall>p \<in> set (today @ future). kept p) \<and>
         remove_duplicates processed = first_by_id (filter kept processed) \<and>
         distinct (map (\<lambda>x. x ''id'') (remove_duplicates processed)) \<and>
         set (remove_duplicates processed) \<subseteq> {p \<in> set processed. kept p}"
proof -
  let ?dd = "extract_district_data json_loads html"
  from result fetched obtain obd where
    pd: "process_districts table_rows ?dd = Inr obd"
    and cat: "categorize_outages fromisoformat now obd = Inr (today, future)"
    by (auto simp: fetch_and_parse_outages_def Let_def split: sum.splits if_splits)
  note dp = districts_processed[OF pd]
  have keys: "distinct (map fst obd)"
    using dp extract_distinct[OF dict, of html] by simp
  have all: "distinct (map (\<lambda>x. x ''id'') (concat (map snd obd)))"
  proof (rule distinct_across_districts[where G = "from_district table_rows ?dd"])
    show "distinct (map fst obd)" by (rule keys)
    show "\<forall>(dn, os) \<in> set obd. distinct (map (\<lambda>x. x ''id'') os) \<and>
            (\<forall>p \<in> set os. from_district table_rows ?dd dn p)"
      using dp by auto
    show "\<And>dn dn' p p'. from_district table_rows ?dd dn p \<Longrightarrow>
            from_district table_rows ?dd dn' p' \<Longrightarrow> p ''id'' = p' ''id'' \<Longrightarrow> dn = dn'"
      using same_id_same_district[OF no_collision] by blast
  qed
  note t = categorize_outages_filter(1)[OF cat] and u = categorize_outages_filter(2)[OF cat]
  have d: "distinct (map (\<lambda>x. x ''id'') (today @ future))"
    unfolding t u using all starts_exclusive by (rule distinct_split)
  have k: "\<forall>p \<in> set (today @ future). kept p"
    using dp unfolding t u by auto
  have r: "set (remove_duplicates processed) \<subseteq> {p \<in> set processed. kept p}"
    unfolding remove_duplicates_spec using first_by_id_subset[of "filter kept processed"] by auto
  from d k r show ?thesis
    by (simp add: remove_duplicates_spec first_by_id_distinct)
qed


text \<open>A page with two districts: a duplicated row, a row with an empty date and a row with
  two cells in the first, an overnight outage in the second.\<close>


definition example_json :: string where
  "example_json =
     ''{'' @ json_string ''blackriver'' @ '':'' @ json_string ''<table id=table-mauritius-1>'' @
     '','' @ json_string ''moka'' @ '':'' @ json_string ''<table id=table-mauritius-2>'' @ ''}''"

definition example_page :: string where
  "example_page = ''<script>var arDistrictLocations = '' @ example_json @ '';</script>''"

definition example_json_loads :: json_decoder where
  "example_json_loads s =
     (if s = example_json
      then Some [(''blackriver'', ''<table id=table-mauritius-1>''),
                 (''moka'', ''<table id=table-mauritius-2>'')]
      else None)"

definition example_table_rows :: html_parser where
  "example_table_rows h =
     (if h = ''<table id=table-mauritius-1>''
      then [ [example_date, ''TAMARIN'', ''AVE DES MARLINS''],
            [example_date, ''TAMARIN'', ''AVE DES MARLINS''],
            [ [], ''TAMARIN'', ''AVE DES DAUPHINS''],
            [example_date, ''TAMARIN''] ]
      else if h = ''<table id=table-mauritius-2>''
      then [ [overnight_date, ''MOKA'', [] ] ]
      else [])"

definition moka_raw :: outage_data where
  "moka_raw =
     [''date'' \<mapsto> overnight_date, ''locality'' \<mapsto> ''MOKA'', ''streets'' \<mapsto> [],
      ''district'' \<mapsto> ''moka'']"

lemma moka_fingerprint:
  "generate_outage_id moka_raw = Inr ''6a777085ea5c8532fcec0cad424d375a''"
  by code_simp

lemma example_search: "search_assignment example_page = Some example_json"
  by code_simp

lemma example_isoformat:
  "isoformat 1647149400000000 = ''2022-03-13T05:30:00+00:00''"
  "isoformat 1647162000000000 = ''2022-03-13T09:00:00+00:00''"
  "isoformat 1706814000000000 = ''2024-02-01T19:00:00+00:00''"
  "isoformat 1706823000000000 = ''2024-02-01T21:30:00+00:00''"
  by code_simp+

lemma example_decode:
  "fromisoformat_basic (replace_Z ''2022-03-13T05:30:00+00:00'') = Some 1647149400000000"
  "fromisoformat_basic (replace_Z ''2024-02-01T19:00:00+00:00'') = Some 1706814000000000"
  by code_simp+


definition example_processed :: outage_data where
  "example_processed =
     [''id'' \<mapsto> ''af756731b35c3f72e68becc9840cdf0b'', ''date'' \<mapsto> example_date,
      ''locality'' \<mapsto> ''TAMARIN'', ''streets'' \<mapsto> ''AVE DES MARLINS'',
      ''district'' \<mapsto> ''blackriver'', ''from'' \<mapsto> ''2022-03-13T05:30:00+00:00'',
      ''to'' \<mapsto> ''2022-03-13T09:00:00+00:00'']"

definition moka_processed :: outage_data where
  "moka_processed =
     [''id'' \<mapsto> ''6a777085ea5c8532fcec0cad424d375a'', ''date'' \<mapsto> overnight_date,
      ''locality'' \<mapsto> ''MOKA'', ''streets'' \<mapsto> [],
      ''district'' \<mapsto> ''moka'', ''from'' \<mapsto> ''2024-02-01T19:00:00+00:00'',
      ''to'' \<mapsto> ''2024-02-01T21:30:00+00:00'']"

lemma example_rows:
  "parse_table_html example_table_rows ''<table id=table-mauritius-1>'' ''blackriver''
     = [example_raw, example_raw]"
  "parse_table_html example_table_rows ''<table id=table-mauritius-2>'' ''moka'' = [moka_raw]"
proof -
  have "example_date \<noteq> []" by (simp add: example_date_def)
  then show "parse_table_html example_table_rows ''<table id=table-mauritius-1>'' ''blackriver''
     = [example_raw, example_raw]"
    by (simp add: parse_table_html_def example_table_rows_def example_raw_def)
  have "overnight_date \<noteq> []" by (simp add: overnight_date_def)
  then show "parse_table_html example_table_rows ''<table id=table-mauritius-2>'' ''moka'' = [moka_raw]"
    by (simp add: parse_table_html_def example_table_rows_def moka_raw_def)
qed

lemma example_raw_processed:
  "process_raw_outage example_raw = Inr (Some example_processed)"
  "process_raw_outage moka_raw = Inr (Some moka_processed)"
proof -
  have a: "parse_french_date example_date = Inr (Some (1647149400000000, 1647162000000000))"
    by (rule example_date_parsed)
  have b: "parse_french_date overnight_date = Inr (Some (1706814000000000, 1706823000000000))"
    by (rule overnight_date_parsed)
  show "process_raw_outage example_raw = Inr (Some example_processed)"
    unfolding process_raw_outage_def example_fingerprint
    by (simp add: example_raw_def a example_isoformat get_or_def example_processed_def)
  show "process_raw_outage moka_raw = Inr (Some moka_processed)"
    unfolding process_raw_outage_def moka_fingerprint
    by (simp add: moka_raw_def b example_isoformat get_or_def moka_processed_def)
qed

lemma example_kept: "kept example_processed" "kept moka_processed"
  by (simp_all add: kept_def example_processed_def moka_processed_def example_date_def
      overnight_date_def)

lemma example_districts:
  "process_districts example_table_rows
     [(''blackriver'', ''<table id=table-mauritius-1>''), (''moka'', ''<table id=table-mauritius-2>'')]
   = Inr [(''blackriver'', [example_processed]), (''moka'', [moka_processed])]"
  by (simp add: example_rows example_raw_processed remove_duplicates_spec example_kept)

lemma example_result:
  "fetch_and_parse_outages example_json_loads example_table_rows fromisoformat_basic
     1647165600000000 (Response 200 example_page)
   = Inr ([example_processed], [moka_processed])"
proof -
  have fp: "fetch_ceb_page (Response 200 example_page) = Inr example_page"
    by (simp add: fetch_ceb_page_def)
  have ex: "extract_district_data example_json_loads example_page
      = [(''blackriver'', ''<table id=table-mauritius-1>''),
         (''moka'', ''<table id=table-mauritius-2>'')]"
    by (simp add: extract_district_data_def example_search example_json_loads_def)
  have cat: "categorize_outages fromisoformat_basic 1647165600000000
       [(''blackriver'', [example_processed]), (''moka'', [moka_processed])]
     = Inr ([example_processed], [moka_processed])"
    by (simp add: categorize_simps example_processed_def moka_processed_def
        example_decode)
  show ?thesis
    by (simp only: fetch_and_parse_outages_def fp sum.case Let_def ex list.distinct
        if_False example_districts cat)
qed

lemma example_no_collision:
  "inj_on md5 (serialized ` set (district_rows example_table_rows
                  (extract_district_data example_json_loads example_page)))"
proof -
  have ex: "extract_district_data example_json_loads example_page
      = [(''blackriver'', ''<table id=table-mauritius-1>''),
         (''moka'', ''<table id=table-mauritius-2>'')]"
    by (simp add: extract_district_data_def example_search example_json_loads_def)
  have g: "generate_outage_id r = Inr (hexdigest (md5 (serialized r)))"
    if "r = example_raw \<or> r = moka_raw" for r
    using that
    by (auto simp: generate_outage_id_def serialized_def get_or_def example_raw_def moka_raw_def)
  from g[of example_raw] example_fingerprint
  have h1: "hexdigest (md5 (serialized example_raw)) = ''af756731b35c3f72e68becc9840cdf0b''"
    by simp
  from g[of moka_raw] moka_fingerprint
  have h2: "hexdigest (md5 (serialized moka_raw)) = ''6a777085ea5c8532fcec0cad424d375a''"
    by simp
  have "md5 (serialized example_raw) \<noteq> md5 (serialized moka_raw)"
  proof
    assume "md5 (serialized example_raw) = md5 (serialized moka_raw)"
    then have "hexdigest (md5 (serialized example_raw)) = hexdigest (md5 (serialized moka_raw))"
      by simp
    then show False unfolding h1 h2 by simp
  qed
  then show ?thesis
    by (auto simp: ex district_rows_def example_rows inj_on_def)
qed

theorem id_uniqueness_witness:
  "fetch_ceb_page (Response 200 example_page) = Inr example_page \<and>
   fetch_and_parse_outages example_json_loads example_table_rows fromisoformat_basic
     1647165600000000 (Response 200 example_page)
     = Inr ([example_processed], [moka_processed]) \<and>
   distinct (map (\<lambda>x. x ''id'') ([example_processed] @ [moka_processed])) \<and>
   remove_duplicates [example_processed, item_without_id, example_processed]
     = first_by_id (filter kept [example_processed, item_without_id, example_processed])"
proof -
  have dict: "\<forall>g dd. example_json_loads g = Some dd \<longrightarrow> distinct (map fst dd)"
    by (auto simp: example_json_loads_def)
  have fp: "fetch_ceb_page (Response 200 example_page) = Inr example_page"
    by (simp add: fetch_ceb_page_def)
  note t = id_uniqueness[OF dict fp example_no_collision example_result,
      of "[example_processed, item_without_id, example_processed]"]
  from t fp example_result show ?thesis by blast
qed


section \<open>Failures of the two sources\<close>


text \<open>
  Claim C9, as stated, fails for the JSON feed: \<open>_fetch_outages\<close> answers a failed
  request and an undecodable body with the same empty dictionary, and the run that
  follows is the same in both cases.
\<close>

theorem error_taxonomy_counterexample:
  "fetch_outages (Transport_error :: feed option http_reply) = fetch_outages (Response 200 None) \<and>
   check_for_outages fromisoformat_basic always_delivered 0 Transport_error (example_db, [])
     = check_for_outages fromisoformat_basic always_delivered 0 (Response 200 None)
         (example_db, [])"
  by (simp add: fetch_outages_def check_for_outages_def)

text \<open>
  Claim C9, amended. The HTML variant raises \<open>httpx.HTTPError\<close> when the request fails
  in transport or the status is not 2xx, and raises \<open>ValueError\<close>, a different
  exception, when the page arrives and the assignment is absent from it or its text is
  not valid JSON. The JSON feed variant raises nothing: for a failed request, a status
  that is not 2xx and a body that is not valid JSON alike it returns the empty
  dictionary, on which the run stops without touching storage or sending anything.
\<close>

theorem error_taxonomy:
  "fetch_and_parse_outages json_loads table_rows fromisoformat now Transport_error
     = Inl HTTPError \<and>
   (\<not> (200 \<le> st1 \<and> st1 < 300) \<longrightarrow>
      fetch_and_parse_outages json_loads table_rows fromisoformat now (Response st1 body1)
        = Inl HTTPError) \<and>
   (200 \<le> st2 \<and> st2 < 300 \<and> search_assignment html2 = None \<longrightarrow>
      fetch_and_parse_outages json_loads table_rows fromisoformat now (Response st2 html2)
        = Inl ValueError) \<and>
   (200 \<le> st3 \<and> st3 < 300 \<and> search_assignment html3 = Some group1 \<and>
    json_loads group1 = None \<longrightarrow>
      fetch_and_parse_outages json_loads table_rows fromisoformat now (Response st3 html3)
        = Inl ValueError) \<and>
   HTTPError \<noteq> ValueError \<and>
   fetch_outages Transport_error = [] \<and>
   (\<not> (200 \<le> st4 \<and> st4 < 300) \<longrightarrow> fetch_outages (Response st4 body4) = []) \<and>
   fetch_outages (Response st5 None) = [] \<and>
   (fetch_outages reply6 = [] \<longrightarrow> check_for_outages fromisoformat gw now reply6 w = w)"
  by (simp add: fetch_and_parse_outages_def fetch_ceb_page_def extract_district_data_def
      fetch_outages_def check_for_outages_def)

lemma search_examples:
  "search_assignment ''<html><body>maintenance</body></html>'' = None"
  "search_assignment ''var arDistrictLocations = {invalid};'' = Some ''{invalid}''"
  by code_simp+

theorem error_taxonomy_witness:
  "\<not> (200 \<le> (503 :: nat) \<and> (503 :: nat) < 300) \<and>
   fetch_and_parse_outages example_json_loads example_table_rows fromisoformat_basic 0
     (Response 503 []) = Inl HTTPError \<and>
   (200 :: nat) \<le> 200 \<and> (200 :: nat) < 300 \<and>
   search_assignment ''<html><body>maintenance</body></html>'' = None \<and>
   fetch_and_parse_outages example_json_loads example_table_rows fromisoformat_basic 0
     (Response 200 ''<html><body>maintenance</body></html>'') = Inl ValueError \<and>
   search_assignment ''var arDistrictLocations = {invalid};'' = Some ''{invalid}'' \<and>
   example_json_loads ''{invalid}'' = None \<and>
   fetch_and_parse_outages example_json_loads example_table_rows fromisoformat_basic 0
     (Response 200 ''var arDistrictLocations = {invalid};'') = Inl ValueError \<and>
   fetch_outages (Response 404 (Some [(''today'', [example_item])])) = [] \<and>
   fetch_outages (Response 200 None) = [] \<and>
   check_for_outages fromisoformat_basic always_delivered 0 (Response 200 None) (example_db, [])
     = (example_db, [])"
proof -
  have j: "example_json_loads ''{invalid}'' = None"
    by (simp add: example_json_loads_def example_json_def json_string_def)
  note t = error_taxonomy[where json_loads = example_json_loads
      and table_rows = example_table_rows and fromisoformat = fromisoformat_basic and now = 0
      and ?st1.0 = 503 and ?body1.0 = "[]" and ?st2.0 = 200
      and ?html2.0 = "''<html><body>maintenance</body></html>''"
      and ?st3.0 = 200 and ?html3.0 = "''var arDistrictLocations = {invalid};''"
      and ?group1.0 = "''{invalid}''" and ?st4.0 = 404
      and ?body4.0 = "Some [(''today'', [example_item])]" and ?st5.0 = 200
      and ?reply6.0 = "Response 200 None" and gw = always_delivered
      and w = "(example_db, [])"]
  from t j search_examples show ?thesis by simp
qed

end
